(* ===== verification/Prelude.thy ===== *)
theory Prelude
  imports Main "HOL-Library.Word"
begin

text \<open>
  Shared vocabulary of the development: the machine types of the Go sources, conversions
  between byte slices and strings, the two-valued results of fallible calls, the
  development's collections of simplification rules and the generic lemmas the components
  share. Nothing here models a function of the repository.
\<close>

unbundle bit_operations_syntax

text \<open>
  Rule collections: \<open>go_simps\<close> evaluates the models of the standard library's string
  functions, \<open>io_simps\<close> the reader and writer primitives, \<open>http_simps\<close> the
  header and response-writer primitives, \<open>err_simps\<close> the error values;
  \<open>typed_errors\<close> gives the kind of each error the client builds.
\<close>

named_theorems go_simps
named_theorems io_simps
named_theorems http_simps
named_theorems err_simps
named_theorems typed_errors

type_synonym byte = "8 word"
type_synonym bytes = "byte list"
type_synonym int64 = "64 word"
type_synonym uint32 = "32 word"

text \<open>Go's \<open>map[string]string\<close>; \<open>None\<close> is the nil map.\<close>

type_synonym details = "(string \<rightharpoonup> string) option"

text \<open>Reading a missing key, or any key of a nil map, gives the empty string.\<close>

definition mget :: "details \<Rightarrow> string \<Rightarrow> string" where
  "mget d k = (case d of None \<Rightarrow> [] | Some m \<Rightarrow> (case m k of None \<Rightarrow> [] | Some v \<Rightarrow> v))"

text \<open>The conversions \<open>string(b)\<close> and \<open>[]byte(s)\<close>: both copy bytes.\<close>

definition string_of_bytes :: "bytes \<Rightarrow> string" where
  "string_of_bytes bs = map (\<lambda>b. char_of (unat b)) bs"

definition bytes_of_string :: "string \<Rightarrow> bytes" where
  "bytes_of_string s = map (\<lambda>c. word_of_nat (of_char c)) s"

section \<open>Generic lemmas\<close>

lemma mget_None [simp]: "mget None k = []"
  by (simp add: mget_def)

lemma mget_Some [simp]: "mget (Some m) k = (case m k of None \<Rightarrow> [] | Some v \<Rightarrow> v)"
  by (simp add: mget_def)

lemma of_char_less_256: "(of_char c :: nat) < 256"
  by (metis of_char_mod_256 mod_less_divisor zero_less_numeral)

lemma string_of_bytes_of_string [simp]: "string_of_bytes (bytes_of_string s) = s"
proof -
  have "char_of (unat (word_of_nat (of_char c) :: byte)) = c" for c :: char
  proof -
    have "unat (word_of_nat (of_char c) :: byte) = (of_char c :: nat)"
      using of_char_less_256 [of c] by (simp add: unat_of_nat take_bit_eq_mod)
    then show ?thesis by simp
  qed
  then show ?thesis
    by (simp add: string_of_bytes_def bytes_of_string_def comp_def)
qed

lemma bytes_of_string_of_bytes [simp]: "bytes_of_string (string_of_bytes b) = b"
proof -
  have "word_of_nat (of_char (char_of (unat w))) = w" for w :: byte
  proof -
    have "unat w < 256" using unsigned_less [of w] by simp
    then show ?thesis by (simp add: of_char_of)
  qed
  then show ?thesis
    by (simp add: string_of_bytes_def bytes_of_string_def comp_def)
qed

lemma length_string_of_bytes [simp]: "length (string_of_bytes b) = length b"
  by (simp add: string_of_bytes_def)

lemma length_bytes_of_string [simp]: "length (bytes_of_string s) = length s"
  by (simp add: bytes_of_string_def)

lemma string_of_bytes_eq_Nil [simp]: "string_of_bytes b = [] \<longleftrightarrow> b = []"
  by (simp add: string_of_bytes_def)

lemma string_of_bytes_inj: "string_of_bytes a = string_of_bytes b \<Longrightarrow> a = b"
  by (metis bytes_of_string_of_bytes)

text \<open>Lists: a list that starts with another one, and prefixes cut at a length.\<close>

lemma append_eq_take: "xs = a @ b \<Longrightarrow> length a = n \<Longrightarrow> a = take n xs \<and> b = drop n xs"
  by auto

lemma drop_length_append: "n = length a \<Longrightarrow> drop n (a @ b) = b"
  by simp

lemma list_of_length_5:
  assumes "length xs = 5"
  shows "\<exists>a b c d e. xs = [a, b, c, d, e]"
  using assms by (auto simp: length_Suc_conv numeral_eq_Suc)

text \<open>Signed 64-bit words: reading the value of a sum that does not overflow.\<close>

lemma sint_int64_range: "- (2 ^ 63) \<le> sint (w :: int64) \<and> sint w < 2 ^ 63"
  using sint_greater_eq [of w] sint_less [of w] by simp

lemma sint_of_int64: "- (2 ^ 63) \<le> i \<Longrightarrow> i < 2 ^ 63 \<Longrightarrow> sint (word_of_int i :: int64) = i"
  by (simp add: sint_sbintrunc' signed_take_bit_int_eq_self)

lemma sint_add_int64:
  assumes "- (2 ^ 63) \<le> sint a + sint b" and "sint a + sint b < 2 ^ 63"
  shows "sint (a + b :: int64) = sint a + sint b"
  using assms by (simp add: signed_take_bit_int_eq_self sint_word_ariths(1))

lemma sint_diff_int64:
  assumes "- (2 ^ 63) \<le> sint a - sint b" and "sint a - sint b < 2 ^ 63"
  shows "sint (a - b :: int64) = sint a - sint b"
  using assms by (simp add: signed_take_bit_int_eq_self sint_word_ariths(2))

section \<open>Invariants of a step relation\<close>

locale inductive_invariant =
  fixes step :: "'s \<Rightarrow> 's \<Rightarrow> bool" and I :: "'s \<Rightarrow> bool"
  assumes keeps: "I s \<Longrightarrow> step s t \<Longrightarrow> I t"
begin

lemma always: "step\<^sup>*\<^sup>* s t \<Longrightarrow> I s \<Longrightarrow> I t"
  by (induction rule: rtranclp_induct) (auto intro: keeps)

end

end
