(* ===== verification/Go_Strings.thy ===== *)
theory Go_Strings
  imports Prelude
begin

text \<open>
  The string functions of the Go standard library that the sources call
  (\<open>strings.IndexAny\<close>, \<open>strings.ToLower\<close>, \<open>strings.TrimSpace\<close>,
  \<open>strings.Join\<close>, \<open>strconv.Itoa\<close>) and the two helpers of service.go built on
  them, \<open>TrimSuffix\<close> and \<open>normalizeMediaType\<close>.

  A Go string is a sequence of bytes, as is an Isabelle string. On ASCII strings the
  library functions are written out. On a string with a byte above 127 the library decodes
  UTF-8 and consults the Unicode tables; those two table-driven functions are the fields of
  the record \<open>unicode\<close>, an argument of every definition that can reach them.
\<close>

record unicode =
  uni_lower :: "string \<Rightarrow> string"
  uni_trim :: "string \<Rightarrow> string"

definition is_ascii :: "string \<Rightarrow> bool" where
  "is_ascii s = list_all (\<lambda>c. (of_char c :: nat) < 128) s"

definition lower_char :: "char \<Rightarrow> char" where
  "lower_char c =
     (let n = (of_char c :: nat) in if 65 \<le> n \<and> n \<le> 90 then char_of (n + 32) else c)"

definition is_space :: "char \<Rightarrow> bool" where
  "is_space c = (let n = (of_char c :: nat) in (9 \<le> n \<and> n \<le> 13) \<or> n = 32)"

definition trim :: "('a \<Rightarrow> bool) \<Rightarrow> 'a list \<Rightarrow> 'a list" where
  "trim P xs = rev (dropWhile P (rev (dropWhile P xs)))"

definition ToLower :: "unicode \<Rightarrow> string \<Rightarrow> string" where
  "ToLower u s = (if is_ascii s then map lower_char s else uni_lower u s)"

definition TrimSpace :: "unicode \<Rightarrow> string \<Rightarrow> string" where
  "TrimSpace u s =
     (if is_ascii s then trim is_space s else uni_trim u s)"

text \<open>\<open>strings.IndexAny\<close> for a separator set of ASCII bytes; \<open>None\<close> is -1.\<close>

fun IndexAny :: "string \<Rightarrow> string \<Rightarrow> nat option" where
  "IndexAny [] sep = None"
| "IndexAny (c # s) sep = (if c \<in> set sep then Some 0 else map_option Suc (IndexAny s sep))"

fun Join :: "string list \<Rightarrow> string \<Rightarrow> string" where
  "Join [] sep = []"
| "Join [s] sep = s"
| "Join (s # t # ss) sep = s @ sep @ Join (t # ss) sep"

text \<open>The fields of a list between the occurrences of a separator.\<close>

fun split_on :: "'a \<Rightarrow> 'a list \<Rightarrow> 'a list list" where
  "split_on c [] = [[]]"
| "split_on c (x # xs) =
     (if x = c then [] # split_on c xs
      else (case split_on c xs of f # fs \<Rightarrow> (x # f) # fs | [] \<Rightarrow> [[x]]))"

definition digit_char :: "nat \<Rightarrow> char" where
  "digit_char d = ''0123456789'' ! d"

fun itoa_nat :: "nat \<Rightarrow> string" where
  "itoa_nat n = (if n < 10 then [digit_char n] else itoa_nat (n div 10) @ [digit_char (n mod 10)])"

declare itoa_nat.simps [simp del]

definition Itoa :: "int \<Rightarrow> string" where
  "Itoa i = (if i < 0 then CHR ''-'' # itoa_nat (nat (- i)) else itoa_nat (nat i))"

section \<open>service.go: TrimSuffix and normalizeMediaType\<close>

definition TrimSuffix :: "string \<Rightarrow> string \<Rightarrow> string" where
  "TrimSuffix s sep = (case IndexAny s sep of Some i \<Rightarrow> take i s | None \<Rightarrow> s)"

definition normalizeMediaType :: "unicode \<Rightarrow> string \<Rightarrow> string" where
  "normalizeMediaType u value = TrimSpace u (ToLower u (TrimSuffix value '';,''))"

section \<open>Lemmas\<close>

lemma is_ascii_Nil [simp]: "is_ascii []"
  by (simp add: is_ascii_def)

lemma is_ascii_Cons [simp]: "is_ascii (c # s) \<longleftrightarrow> (of_char c :: nat) < 128 \<and> is_ascii s"
  by (simp add: is_ascii_def)

lemma is_ascii_append [simp]: "is_ascii (s @ t) \<longleftrightarrow> is_ascii s \<and> is_ascii t"
  by (simp add: is_ascii_def)

lemma is_ascii_subset: "is_ascii s \<Longrightarrow> set t \<subseteq> set s \<Longrightarrow> is_ascii t"
  by (auto simp: is_ascii_def list_all_iff)

lemma is_ascii_take: "is_ascii s \<Longrightarrow> is_ascii (take n s)"
  by (erule is_ascii_subset) (rule set_take_subset)

lemma lower_char_idem [simp]: "lower_char (lower_char c) = lower_char c"
  by (auto simp: lower_char_def Let_def of_char_of)

lemma lower_char_ascii: "(of_char c :: nat) < 128 \<Longrightarrow> (of_char (lower_char c) :: nat) < 128"
  by (auto simp: lower_char_def Let_def of_char_of)

lemma is_ascii_lower: "is_ascii s \<Longrightarrow> is_ascii (map lower_char s)"
  by (auto simp: is_ascii_def list_all_iff lower_char_ascii)

lemma is_space_lower [simp]: "is_space (lower_char c) = is_space c"
  by (auto simp: is_space_def lower_char_def Let_def of_char_of)

lemma TrimSuffix_takeWhile: "TrimSuffix s sep = takeWhile (\<lambda>c. c \<notin> set sep) s"
proof -
  have "(case IndexAny s sep of Some i \<Rightarrow> take i s | None \<Rightarrow> s) = takeWhile (\<lambda>c. c \<notin> set sep) s"
    by (induction s) (auto split: option.splits)
  then show ?thesis by (simp add: TrimSuffix_def)
qed

lemma dropWhile_dropWhile [simp]: "dropWhile P (dropWhile P xs) = dropWhile P xs"
  by (induction xs) auto

lemma trim_idem: "trim P (trim P xs) = trim P xs"
proof -
  let ?d = "dropWhile P xs"
  have "dropWhile P (rev (dropWhile P (rev ?d))) = rev (dropWhile P (rev ?d))"
  proof (cases "rev (dropWhile P (rev ?d))")
    case Nil
    show ?thesis unfolding Nil by simp
  next
    case (Cons y ys)
    then have "?d \<noteq> []"
      by (metis dropWhile.simps(1) list.distinct(1) rev.simps(1))
    then have h: "\<not> P (hd ?d)" by (rule hd_dropWhile)
    have "\<exists>zs. ?d = rev (dropWhile P (rev ?d)) @ zs"
      by (metis rev_append rev_rev_ident takeWhile_dropWhile_id)
    with Cons have "hd ?d = y" by (metis append_Cons list.sel(1))
    with h Cons show ?thesis by simp
  qed
  then show ?thesis by (simp add: trim_def)
qed

text \<open>A media type that is already canonical: lower-case ASCII, no separator, no space.\<close>

definition canonical_media :: "string \<Rightarrow> bool" where
  "canonical_media s \<longleftrightarrow> is_ascii s \<and>
     list_all (\<lambda>c. lower_char c = c \<and> \<not> is_space c \<and> c \<noteq> CHR '';'' \<and> c \<noteq> CHR '','') s"

lemma normalizeMediaType_ascii:
  assumes "is_ascii s"
  shows "normalizeMediaType u s =
    trim is_space (map lower_char (takeWhile (\<lambda>c. c \<noteq> CHR '';'' \<and> c \<noteq> CHR '','') s))"
proof -
  let ?t = "takeWhile (\<lambda>c. c \<noteq> CHR '';'' \<and> c \<noteq> CHR '','') s"
  have t: "TrimSuffix s '';,'' = ?t"
    by (simp add: TrimSuffix_takeWhile)
  have a: "is_ascii ?t"
    using assms by (rule is_ascii_subset) (auto dest: set_takeWhileD)
  show ?thesis
    using is_ascii_lower [OF a] a by (simp add: normalizeMediaType_def t ToLower_def TrimSpace_def)
qed

lemma dropWhile_none: "list_all (\<lambda>x. \<not> P x) xs \<Longrightarrow> dropWhile P xs = xs"
  by (cases xs) auto

lemma takeWhile_all: "list_all P xs \<Longrightarrow> takeWhile P xs = xs"
  by (simp add: list_all_iff)

lemma normalizeMediaType_canonical:
  assumes "canonical_media s"
  shows "normalizeMediaType u s = s"
proof -
  from assms have a: "is_ascii s" and low: "map lower_char s = s"
    and sp: "list_all (\<lambda>c. \<not> is_space c) s"
    and sep: "list_all (\<lambda>c. c \<noteq> CHR '';'' \<and> c \<noteq> CHR '','') s"
    by (auto simp: canonical_media_def list_all_iff intro: map_idI)
  show ?thesis
    using sp by (simp add: normalizeMediaType_ascii [OF a] takeWhile_all [OF sep] low
        trim_def dropWhile_none list_all_iff)
qed

text \<open>Normalising again changes nothing.\<close>

lemma set_trim: "set (trim P xs) \<subseteq> set xs"
  by (auto simp: trim_def dest!: set_dropWhileD)

lemma lower_char_sep: "lower_char c = d \<Longrightarrow> (of_char d :: nat) < 65 \<Longrightarrow> c = d"
  by (auto simp: lower_char_def Let_def of_char_of split: if_splits)

lemma normalizeMediaType_idem:
  assumes "is_ascii s"
  shows "normalizeMediaType u (normalizeMediaType u s) = normalizeMediaType u s"
proof -
  let ?p = "\<lambda>c. c \<noteq> CHR '';'' \<and> c \<noteq> CHR '',''"
  let ?m = "map lower_char (takeWhile ?p s)"
  let ?t = "trim is_space ?m"
  have n: "normalizeMediaType u s = ?t" by (rule normalizeMediaType_ascii [OF assms])
  have sub: "set ?t \<subseteq> set ?m" by (rule set_trim)
  have "is_ascii ?t" using assms sub
    by (auto simp: is_ascii_def list_all_iff dest!: subsetD set_takeWhileD intro!: lower_char_ascii)
  then have "normalizeMediaType u ?t = trim is_space (map lower_char (takeWhile ?p ?t))"
    by (rule normalizeMediaType_ascii)
  also have "takeWhile ?p ?t = ?t"
  proof (rule takeWhile_eq_all_conv [THEN iffD2], rule ballI)
    fix c assume "c \<in> set ?t"
    with sub obtain d where d: "d \<in> set (takeWhile ?p s)" "c = lower_char d" by auto
    from d(1) have "?p d" by (rule set_takeWhileD [THEN conjunct2])
    then show "?p c" using d(2) lower_char_sep [of d "CHR '';''"] lower_char_sep [of d "CHR '',''"]
      by auto
  qed
  also have "map lower_char ?t = ?t"
    using sub by (intro map_idI) auto
  also have "trim is_space ?t = ?t" by (rule trim_idem)
  finally show ?thesis by (simp add: n)
qed

lemma itoa_nat_nonempty [simp]: "itoa_nat n \<noteq> []"
  by (subst itoa_nat.simps) simp

definition atoi_nat :: "string \<Rightarrow> nat" where
  "atoi_nat s = foldl (\<lambda>a c. 10 * a + (of_char c - 48)) 0 s"

lemma of_char_digit: "d < 10 \<Longrightarrow> (of_char (digit_char d) :: nat) = 48 + d"
  by (auto simp: digit_char_def less_Suc_eq numeral_eq_Suc)

lemma atoi_itoa_nat: "atoi_nat (itoa_nat n) = n"
proof (induction n rule: itoa_nat.induct)
  case (1 n)
  show ?case
  proof (cases "n < 10")
    case True
    then show ?thesis by (simp add: itoa_nat.simps [of n] atoi_nat_def of_char_digit)
  next
    case False
    with 1 have "atoi_nat (itoa_nat (n div 10)) = n div 10" by simp
    with False show ?thesis
      by (simp add: itoa_nat.simps [of n] atoi_nat_def of_char_digit)
  qed
qed

lemma digit_char_set: "\<forall>c \<in> set (itoa_nat n). 48 \<le> (of_char c :: nat) \<and> (of_char c :: nat) \<le> 57"
proof (induction n rule: itoa_nat.induct)
  case (1 n)
  have d: "48 \<le> (of_char (digit_char k) :: nat) \<and> (of_char (digit_char k) :: nat) \<le> 57"
    if "k < 10" for k
    using that by (simp add: of_char_digit)
  show ?case
  proof (cases "n < 10")
    case True
    then show ?thesis using d by (simp add: itoa_nat.simps [of n])
  next
    case False
    with 1 d [of "n mod 10"] show ?thesis by (simp add: itoa_nat.simps [of n])
  qed
qed

lemma Itoa_inj [simp]: "Itoa i = Itoa j \<longleftrightarrow> i = j"
proof
  assume eq: "Itoa i = Itoa j"
  have no_minus: "itoa_nat n \<noteq> CHR ''-'' # s" for n s
  proof
    assume "itoa_nat n = CHR ''-'' # s"
    then have "CHR ''-'' \<in> set (itoa_nat n)" by simp
    then show False using digit_char_set [of n] by fastforce
  qed
  have inj: "itoa_nat m = itoa_nat n \<Longrightarrow> m = n" for m n
    by (metis atoi_itoa_nat)
  show "i = j"
    using eq no_minus no_minus [symmetric]
    by (auto simp: Itoa_def dest!: inj split: if_splits)
qed simp

lemma Itoa_nonempty [simp]: "Itoa i \<noteq> []"
  by (simp add: Itoa_def)

lemmas itoa_eval = Itoa_def itoa_nat.simps digit_char_def

lemma Itoa_codes [go_simps]:
  "Itoa 200 = ''200''" "Itoa 400 = ''400''" "Itoa 404 = ''404''" "Itoa 452 = ''452''"
  "Itoa 455 = ''455''" "Itoa 500 = ''500''" "Itoa 501 = ''501''"
  by (simp_all add: itoa_eval)

lemma split_on_ne_Nil [simp]: "split_on c xs \<noteq> []"
  by (induction xs) (auto split: list.splits)

lemma split_on_append: "c \<notin> set a \<Longrightarrow> split_on c (a @ c # b) = a # split_on c b"
  by (induction a) auto

lemma split_on_none: "c \<notin> set a \<Longrightarrow> split_on c a = [a]"
  by (induction a) auto

end
