(* ===== verification/Go_Float.thy ===== *)
theory Go_Float
  imports Complex_Main Prelude
begin

text \<open>
  Go's \<open>float64\<close>: IEEE 754 binary64 values with rounding to nearest, ties to even. A
  finite value is the rational it denotes (the sign of zero is not kept: no expression of
  the sources observes it). Conversion to \<open>int64\<close> truncates towards zero; for a value
  that does not fit, the Go specification leaves the result to the implementation, so the
  definitions take that result as the argument \<open>oor\<close>.
\<close>

datatype float64 = NaN | PInf | NInf | Fin rat

fun log2_nat :: "nat \<Rightarrow> nat" where
  "log2_nat n = (if n < 2 then 0 else Suc (log2_nat (n div 2)))"

declare log2_nat.simps [simp del]

definition pow2 :: "int \<Rightarrow> rat" where
  "pow2 e = (if 0 \<le> e then 2 ^ nat e else 1 / 2 ^ nat (- e))"

text \<open>The exponent of a positive rational: the largest \<open>e\<close> with \<open>2\<^sup>e \<le> x\<close>.\<close>

definition ilog2 :: "rat \<Rightarrow> int" where
  "ilog2 x = (case quotient_of x of (p, q) \<Rightarrow>
     (let e = int (log2_nat (nat p)) - int (log2_nat (nat q))
      in if pow2 e \<le> x then e else e - 1))"

definition round_even :: "rat \<Rightarrow> int" where
  "round_even x = (let f = \<lfloor>x\<rfloor>; d = x - of_int f in
     if d < 1 / 2 then f else if 1 / 2 < d then f + 1 else if even f then f else f + 1)"

definition fround :: "rat \<Rightarrow> float64" where
  "fround x = (if x = 0 then Fin 0 else
     (let a = \<bar>x\<bar>;
          q = max (ilog2 a - 52) (- 1074);
          v = of_int (round_even (a / pow2 q)) * pow2 q
      in if pow2 1024 \<le> v then (if x < 0 then NInf else PInf)
         else Fin (if x < 0 then - v else v)))"

definition float64_of_int :: "int \<Rightarrow> float64" where
  "float64_of_int i = fround (of_int i)"

definition finf :: "bool \<Rightarrow> float64" where
  "finf pos = (if pos then PInf else NInf)"

fun fmul :: "float64 \<Rightarrow> float64 \<Rightarrow> float64" where
  "fmul NaN _ = NaN"
| "fmul _ NaN = NaN"
| "fmul (Fin x) (Fin y) = fround (x * y)"
| "fmul (Fin x) i = (if x = 0 then NaN else finf ((0 < x) = (i = PInf)))"
| "fmul i (Fin y) = (if y = 0 then NaN else finf ((0 < y) = (i = PInf)))"
| "fmul i j = finf (i = j)"

fun fadd :: "float64 \<Rightarrow> float64 \<Rightarrow> float64" where
  "fadd NaN _ = NaN"
| "fadd _ NaN = NaN"
| "fadd (Fin x) (Fin y) = fround (x + y)"
| "fadd (Fin x) i = i"
| "fadd i (Fin y) = i"
| "fadd i j = (if i = j then i else NaN)"

fun fneg :: "float64 \<Rightarrow> float64" where
  "fneg NaN = NaN"
| "fneg PInf = NInf"
| "fneg NInf = PInf"
| "fneg (Fin x) = Fin (- x)"

definition fsub :: "float64 \<Rightarrow> float64 \<Rightarrow> float64" where
  "fsub x y = fadd x (fneg y)"

text \<open>Division, as the sources use it: by a finite non-zero value.\<close>

fun fdiv :: "float64 \<Rightarrow> float64 \<Rightarrow> float64" where
  "fdiv (Fin x) (Fin y) = (if y = 0 then (if x = 0 then NaN else finf (0 < x)) else fround (x / y))"
| "fdiv NaN _ = NaN"
| "fdiv _ NaN = NaN"
| "fdiv (Fin x) _ = Fin 0"
| "fdiv i (Fin y) = finf ((0 \<le> y) = (i = PInf))"
| "fdiv _ _ = NaN"

fun fless :: "float64 \<Rightarrow> float64 \<Rightarrow> bool" where
  "fless (Fin x) (Fin y) = (x < y)"
| "fless NaN _ = False"
| "fless _ NaN = False"
| "fless i j = ((i = NInf \<and> j \<noteq> NInf) \<or> (j = PInf \<and> i \<noteq> PInf))"

definition ftrunc :: "rat \<Rightarrow> int" where
  "ftrunc x = (if x < 0 then - \<lfloor>- x\<rfloor> else \<lfloor>x\<rfloor>)"

definition int64_of_float :: "(float64 \<Rightarrow> int64) \<Rightarrow> float64 \<Rightarrow> int64" where
  "int64_of_float oor f = (case f of
     Fin x \<Rightarrow> (let t = ftrunc x in if - (2 ^ 63) \<le> t \<and> t < 2 ^ 63 then word_of_int t else oor f)
   | _ \<Rightarrow> oor f)"

section \<open>Lemmas\<close>

lemma pow2_pos [simp]: "0 < pow2 e"
  by (simp add: pow2_def)

lemma pow2_nonneg [simp]: "0 \<le> pow2 e"
  by (rule less_imp_le) simp

lemma pow2_ne0 [simp]: "pow2 e \<noteq> 0"
  using pow2_pos [of e] by linarith

lemma pow2_int: "pow2 (int n) = 2 ^ n"
  by (simp add: pow2_def)

lemma pow2_diff: "pow2 (int a - int b) = 2 ^ a / 2 ^ b"
proof (cases "b \<le> a")
  case True
  then have "nat (int a - int b) = a - b" by simp
  with True show ?thesis by (simp add: pow2_def power_diff)
next
  case False
  then have "nat (int b - int a) = b - a" by simp
  with False show ?thesis by (simp add: pow2_def power_diff)
qed

lemma pow2_Suc: "pow2 (e + 1) = 2 * pow2 e"
proof (cases "0 \<le> e")
  case True
  then show ?thesis by (simp add: pow2_def nat_add_distrib)
next
  case False
  then obtain n where e: "e = - int (Suc n)"
    by (metis int_cases2 nat_int not_le of_nat_0_le_iff of_nat_Suc zero_less_imp_eq_int
        neg_0_less_iff_less minus_minus linorder_not_le Suc_pred)
  then show ?thesis by (simp add: pow2_def nat_diff_distrib nat_add_distrib)
qed

lemma log2_nat_bounds: "0 < n \<Longrightarrow> 2 ^ log2_nat n \<le> n \<and> n < 2 ^ Suc (log2_nat n)"
proof (induction n rule: log2_nat.induct)
  case (1 n)
  show ?case
  proof (cases "n < 2")
    case True
    with 1 show ?thesis by (simp add: log2_nat.simps [of n])
  next
    case False
    with 1 have "2 ^ log2_nat (n div 2) \<le> n div 2 \<and> n div 2 < 2 ^ Suc (log2_nat (n div 2))"
      by auto
    with False show ?thesis by (auto simp: log2_nat.simps [of n])
  qed
qed

lemma ilog2_bounds:
  assumes "0 < x"
  shows "pow2 (ilog2 x) \<le> x" and "x < pow2 (ilog2 x + 1)"
proof -
  obtain p q where pq: "quotient_of x = (p, q)" by fastforce
  from pq have q0: "0 < q" and x: "x = of_int p / of_int q"
    by (auto simp: quotient_of_denom_pos quotient_of_div)
  with assms have p0: "0 < p" by (simp add: zero_less_divide_iff)
  let ?a = "log2_nat (nat p)" and ?b = "log2_nat (nat q)"
  from log2_nat_bounds [of "nat p"] p0 have a1: "2 ^ ?a \<le> nat p" and a2: "nat p < 2 ^ Suc ?a"
    by auto
  from log2_nat_bounds [of "nat q"] q0 have b1: "2 ^ ?b \<le> nat q" and b2: "nat q < 2 ^ Suc ?b"
    by auto
  from a1 p0 have A1: "(2 :: rat) ^ ?a \<le> of_int p"
    by (metis of_int_of_nat_eq of_nat_le_iff of_nat_numeral of_nat_power int_nat_eq less_imp_le)
  from a2 p0 have A2: "(of_int p :: rat) < 2 ^ Suc ?a"
    by (metis of_int_of_nat_eq of_nat_less_iff of_nat_numeral of_nat_power int_nat_eq less_imp_le)
  from b1 q0 have B1: "(2 :: rat) ^ ?b \<le> of_int q"
    by (metis of_int_of_nat_eq of_nat_le_iff of_nat_numeral of_nat_power int_nat_eq less_imp_le)
  from b2 q0 have B2: "(of_int q :: rat) < 2 ^ Suc ?b"
    by (metis of_int_of_nat_eq of_nat_less_iff of_nat_numeral of_nat_power int_nat_eq less_imp_le)
  let ?e = "int ?a - int ?b"
  have Q0: "(0 :: rat) < of_int q" using q0 by simp
  have up: "x < pow2 (?e + 1)"
  proof -
    have "x < 2 ^ Suc ?a / 2 ^ ?b"
      unfolding x using A2 B1 Q0 p0 by (intro frac_less) auto
    then show ?thesis by (simp add: pow2_Suc pow2_diff)
  qed
  have lo: "pow2 (?e - 1) \<le> x"
  proof -
    have "2 ^ ?a / 2 ^ Suc ?b \<le> x"
      unfolding x using A1 B2 Q0 p0 by (intro frac_le) auto
    moreover have "pow2 ?e = 2 * pow2 (?e - 1)" using pow2_Suc [of "?e - 1"] by simp
    ultimately show ?thesis by (simp add: pow2_diff)
  qed
  show "pow2 (ilog2 x) \<le> x" using lo by (simp add: ilog2_def pq Let_def)
  show "x < pow2 (ilog2 x + 1)" using up by (simp add: ilog2_def pq Let_def)
qed

lemma round_even_int [simp]: "round_even (of_int i) = i"
  by (simp add: round_even_def)

lemma pow2_mono: "a \<le> b \<Longrightarrow> pow2 a \<le> pow2 b"
proof (induction "nat (b - a)" arbitrary: b)
  case 0
  then show ?case by simp
next
  case (Suc n)
  then have "pow2 a \<le> pow2 (b - 1)" by simp
  moreover have "pow2 b = 2 * pow2 (b - 1)" using pow2_Suc [of "b - 1"] by simp
  moreover have "0 \<le> pow2 (b - 1)" by (rule pow2_nonneg)
  ultimately show ?case by linarith
qed

text \<open>Every integer of magnitude at most \<open>2\<^sup>5\<^sup>3\<close> is a \<open>float64\<close>.\<close>

lemma fround_int:
  assumes "\<bar>i\<bar> < 2 ^ 53"
  shows "fround (of_int i) = Fin (of_int i)"
proof (cases "i = 0")
  case True
  then show ?thesis by (simp add: fround_def)
next
  case False
  let ?a = "\<bar>of_int i :: rat\<bar>"
  have a0: "0 < ?a" using False by simp
  have a53: "?a < pow2 53"
  proof -
    have "(of_int \<bar>i\<bar> :: rat) < of_int (2 ^ 53)" using assms by (simp only: of_int_less_iff)
    then show ?thesis by (simp add: pow2_def)
  qed
  have e: "ilog2 ?a \<le> 52"
  proof (rule ccontr)
    assume "\<not> ilog2 ?a \<le> 52"
    then have "pow2 53 \<le> pow2 (ilog2 ?a)" by (intro pow2_mono) simp
    with ilog2_bounds(1) [OF a0] a53 show False by linarith
  qed
  define q where "q = max (ilog2 ?a - 52) (- 1074)"
  have q: "q \<le> 0" using e by (simp add: q_def)
  then have "?a / pow2 q = of_int (\<bar>i\<bar> * 2 ^ nat (- q))"
    by (cases "q = 0") (simp_all add: pow2_def)
  then have v: "of_int (round_even (?a / pow2 q)) * pow2 q = ?a"
    by (metis nonzero_divide_eq_eq pow2_ne0 round_even_int)
  have "\<not> pow2 1024 \<le> ?a"
  proof -
    have "pow2 53 \<le> pow2 1024" by (rule pow2_mono) simp
    with a53 show ?thesis by linarith
  qed
  with False show ?thesis
    unfolding fround_def Let_def q_def [symmetric] v by auto
qed

lemma float64_of_int_small: "\<bar>i\<bar> < 2 ^ 53 \<Longrightarrow> float64_of_int i = Fin (of_int i)"
  by (simp add: float64_of_int_def fround_int)

lemma fround_numeral: "(numeral n :: int) < 2 ^ 53 \<Longrightarrow> fround (numeral n) = Fin (numeral n)"
  using fround_int [of "numeral n"] by simp

lemma fround_one: "fround 1 = Fin 1"
  using fround_int [of 1] by simp

lemma round_even_numeral: "round_even (numeral n) = numeral n"
  using round_even_int [of "numeral n"] by simp

lemma ftrunc_int [simp]: "ftrunc (of_int i) = i"
  by (simp add: ftrunc_def)

lemma int64_of_float_int:
  assumes "\<bar>i\<bar> < 2 ^ 63"
  shows "sint (int64_of_float oor (Fin (of_int i))) = i"
proof -
  from assms have r: "- (2 ^ 63) \<le> i" "i < 2 ^ 63" by arith+
  then show ?thesis
    by (simp add: int64_of_float_def Let_def sint_of_int64)
qed

end
