(* ===== verification/Byte_Units.thy ===== *)
theory Byte_Units
  imports Go_Strings Go_Float
begin

text \<open>
  The size constants and \<open>bytesToSI\<close> of reader.go: how a byte limit is printed in an
  error message. The loop's variables are integers of unbounded size here; the lemmas show
  that for an \<open>int64\<close> argument none of them leaves the \<open>int64\<close> range and that the
  unit letter is indexed within its string.
\<close>

definition Kibibyte :: int where "Kibibyte = 1024"
definition Kilobyte :: int where "Kilobyte = 1000"
definition MegaByte :: int where "MegaByte = Kilobyte * 1000"
definition Mebibyte :: int where "Mebibyte = Kibibyte * 1024"
definition Gibibyte :: int where "Gibibyte = Mebibyte * 1024"
definition Gigabyte :: int where "Gigabyte = MegaByte * 1000"

text \<open>\<open>fmt.Sprintf("%.1f", f)\<close>.\<close>

fun fmt1f :: "float64 \<Rightarrow> string" where
  "fmt1f (Fin x) = (let k = round_even (\<bar>x\<bar> * 10) in
     (if x < 0 then ''-'' else []) @ Itoa (k div 10) @ ''.'' @ Itoa (k mod 10))"
| "fmt1f NaN = ''NaN''"
| "fmt1f PInf = ''+Inf''"
| "fmt1f NInf = ''-Inf''"

text \<open>
  The loop \<open>for n := b / unit; n >= unit; n /= unit\<close>; the second conjunct of the guard
  holds for the two units the caller passes and makes the function total.
\<close>

function si_loop :: "int \<Rightarrow> int \<Rightarrow> int \<Rightarrow> nat \<Rightarrow> int \<times> nat" where
  "si_loop unit n dv ex =
     (if unit \<le> n \<and> 2 \<le> unit then si_loop unit (n div unit) (dv * unit) (Suc ex) else (dv, ex))"
  by pat_completeness auto
termination
proof (relation "measure (\<lambda>(unit, n, dv, ex). nat n)", goal_cases)
  case (2 unit n dv ex)
  then have "n div unit < n" by (intro int_div_less_self) auto
  with 2 show ?case by auto
qed simp

declare si_loop.simps [simp del]

definition bytesToSI :: "int64 \<Rightarrow> string" where
  "bytesToSI b' = (let b = sint b';
       unit = (if b mod Kibibyte = 0 then Kibibyte else Kilobyte)
     in if b < unit then Itoa b @ ''B''
        else (case si_loop unit (b div unit) unit 0 of (dv, ex) \<Rightarrow>
          (if unit = Kibibyte
           then fmt1f (fdiv (float64_of_int b) (float64_of_int dv)) @ [''KMGTPE'' ! ex] @ ''iB''
           else fmt1f (fdiv (float64_of_int b) (float64_of_int dv)) @ [''kMGTPE'' ! ex] @ ''B'')))"

section \<open>Lemmas\<close>

lemmas unit_defs = Kibibyte_def Kilobyte_def MegaByte_def Mebibyte_def Gibibyte_def Gigabyte_def

text \<open>
  What the loop computes: the divisor is a power of the unit, it is the largest one (up to
  one unit) not above the argument, and the exponent counts its factors.
\<close>

lemma si_loop_spec:
  assumes "2 \<le> unit" and "dv = unit ^ Suc ex" and "n = b div dv" and "1 \<le> n"
    and "si_loop unit n dv ex = (dv', ex')"
  shows "dv' = unit ^ Suc ex' \<and> dv' \<le> b \<and> b < dv' * unit"
  using assms
proof (induction unit n dv ex rule: si_loop.induct)
  case (1 unit n dv ex)
  note u = "1.prems"(1) and dv = "1.prems"(2) and n = "1.prems"(3) and n1 = "1.prems"(4)
  have d0: "0 < dv" using u dv by simp
  show ?case
  proof (cases "unit \<le> n")
    case True
    then have step: "si_loop unit (n div unit) (dv * unit) (Suc ex) = (dv', ex')"
      using u "1.prems"(5) by (simp add: si_loop.simps [of unit n])
    have n': "n div unit = b div (dv * unit)"
      using n u by (simp add: zdiv_zmult2_eq)
    have dv2: "dv * unit = unit ^ Suc (Suc ex)" using dv by simp
    have "1 \<le> n div unit" using True u
      by (simp add: pos_imp_zdiv_pos_iff int_one_le_iff_zero_less)
    with "1.IH" [OF _ u dv2 n' _ step] True u show ?thesis by blast
  next
    case False
    with "1.prems"(5) have e: "dv' = dv" "ex' = ex" by (auto simp: si_loop.simps [of unit n])
    have b: "b = dv * n + b mod dv" unfolding n by simp
    have m: "0 \<le> b mod dv" "b mod dv < dv" using d0 by simp_all
    have "dv * 1 \<le> dv * n" using d0 n1 by (intro mult_left_mono) auto
    then have "dv \<le> b" using b m by linarith
    moreover have "dv * (n + 1) \<le> dv * unit" using False d0 by (intro mult_left_mono) auto
    then have "b < dv * unit" using b m by (simp add: distrib_left)
    ultimately show ?thesis using e dv by simp
  qed
qed

lemma si_exponent_bound:
  assumes "(1000 :: int) \<le> unit" and "unit ^ Suc ex \<le> b" and "b < 2 ^ 63"
  shows "ex \<le> (5 :: nat)"
proof (rule ccontr)
  assume "\<not> ex \<le> 5"
  then have "7 \<le> Suc ex" by simp
  have "(2 :: int) ^ 63 \<le> 1000 ^ 7" by simp
  also have "(1000 :: int) ^ 7 \<le> 1000 ^ Suc ex"
    using \<open>7 \<le> Suc ex\<close> by (intro power_increasing) auto
  also have "(1000 :: int) ^ Suc ex \<le> unit ^ Suc ex"
    using assms(1) by (intro power_mono) auto
  finally show False using assms(2,3) by linarith
qed

text \<open>The two calls the function makes, for any \<open>int64\<close> at or above its unit.\<close>

lemma si_loop_int64:
  assumes "unit = Kibibyte \<or> unit = Kilobyte" and "unit \<le> b" and "b < 2 ^ 63"
    and "si_loop unit (b div unit) unit 0 = (dv, ex)"
  shows "dv = unit ^ Suc ex" and "dv \<le> b" and "b < dv * unit" and "ex \<le> 5"
proof -
  have u: "1000 \<le> unit" using assms(1) by (auto simp: unit_defs)
  have "1 \<le> b div unit"
    using u assms(2) by (simp add: pos_imp_zdiv_pos_iff int_one_le_iff_zero_less)
  then have *: "dv = unit ^ Suc ex \<and> dv \<le> b \<and> b < dv * unit"
    using u by (intro si_loop_spec [OF _ _ _ _ assms(4)]) auto
  then show "dv = unit ^ Suc ex" "dv \<le> b" "b < dv * unit" by auto
  show "ex \<le> 5" using si_exponent_bound [OF u _ assms(3)] * by simp
qed

lemmas bytesToSI_eval = bytesToSI_def Let_def unit_defs si_loop.simps float64_of_int_def
  fround_numeral fround_one round_even_numeral itoa_eval

end
