(* ===== verification/Errors.thy ===== *)
theory Errors
  imports Byte_Units
begin

text \<open>
  errors.go: the status codes, \<open>CodeText\<close>, the error values and their methods, the
  constructors of service errors; the methods of \<open>*ErrDataLimitExceeded\<close> from
  reader.go; \<open>errors.As\<close> for the interfaces the sources ask for.

  The type \<open>error\<close> is the universe of values a Go \<open>error\<close> can have here: the
  sentinel values of the packages involved, plain text errors (\<open>errors.New\<close>, or an
  error of a third-party package, known by its text only), an error that wraps another one
  (\<open>fmt.Errorf\<close> with \<open>%w\<close>: its text and the wrapped error), and the three struct
  types that implement the interface \<open>duh.Error\<close>. None of those three has an
  \<open>Unwrap\<close> method, so an error chain ends at the first of them.
\<close>

section \<open>Status codes\<close>

definition CodeOK :: int where "CodeOK = 200"
definition CodeBadRequest :: int where "CodeBadRequest = 400"
definition CodeUnauthorized :: int where "CodeUnauthorized = 401"
definition CodeForbidden :: int where "CodeForbidden = 403"
definition CodeNotFound :: int where "CodeNotFound = 404"
definition CodeConflict :: int where "CodeConflict = 409"
definition CodeTooManyRequests :: int where "CodeTooManyRequests = 429"
definition CodeClientError :: int where "CodeClientError = 452"
definition CodeRequestFailed :: int where "CodeRequestFailed = 453"
definition CodeRetryRequest :: int where "CodeRetryRequest = 454"
definition CodeClientContentError :: int where "CodeClientContentError = 455"
definition CodeInternalError :: int where "CodeInternalError = 500"
definition CodeNotImplemented :: int where "CodeNotImplemented = 501"

lemmas code_defs = CodeOK_def CodeBadRequest_def CodeUnauthorized_def CodeForbidden_def
  CodeNotFound_def CodeConflict_def CodeTooManyRequests_def CodeClientError_def
  CodeRequestFailed_def CodeRetryRequest_def CodeClientContentError_def
  CodeInternalError_def CodeNotImplemented_def

text \<open>The table of \<open>http.StatusText\<close>; an unknown code has the empty text.\<close>

definition status_texts :: "(int \<times> string) list" where
  "status_texts =
    [(100, ''Continue''), (101, ''Switching Protocols''), (102, ''Processing''),
     (103, ''Early Hints''), (200, ''OK''), (201, ''Created''), (202, ''Accepted''),
     (203, ''Non-Authoritative Information''), (204, ''No Content''), (205, ''Reset Content''),
     (206, ''Partial Content''), (207, ''Multi-Status''), (208, ''Already Reported''),
     (226, ''IM Used''), (300, ''Multiple Choices''), (301, ''Moved Permanently''),
     (302, ''Found''), (303, ''See Other''), (304, ''Not Modified''), (305, ''Use Proxy''),
     (307, ''Temporary Redirect''), (308, ''Permanent Redirect''), (400, ''Bad Request''),
     (401, ''Unauthorized''), (402, ''Payment Required''), (403, ''Forbidden''),
     (404, ''Not Found''), (405, ''Method Not Allowed''), (406, ''Not Acceptable''),
     (407, ''Proxy Authentication Required''), (408, ''Request Timeout''), (409, ''Conflict''),
     (410, ''Gone''), (411, ''Length Required''), (412, ''Precondition Failed''),
     (413, ''Request Entity Too Large''), (414, ''Request URI Too Long''),
     (415, ''Unsupported Media Type''), (416, ''Requested Range Not Satisfiable''),
     (417, ''Expectation Failed''), (418, ''I'' @ [CHR 0x27] @ ''m a teapot''),
     (421, ''Misdirected Request''), (422, ''Unprocessable Entity''), (423, ''Locked''),
     (424, ''Failed Dependency''), (425, ''Too Early''), (426, ''Upgrade Required''),
     (428, ''Precondition Required''), (429, ''Too Many Requests''),
     (431, ''Request Header Fields Too Large''), (451, ''Unavailable For Legal Reasons''),
     (500, ''Internal Server Error''), (501, ''Not Implemented''), (502, ''Bad Gateway''),
     (503, ''Service Unavailable''), (504, ''Gateway Timeout''),
     (505, ''HTTP Version Not Supported''), (506, ''Variant Also Negotiates''),
     (507, ''Insufficient Storage''), (508, ''Loop Detected''), (510, ''Not Extended''),
     (511, ''Network Authentication Required'')]"

definition StatusText :: "int \<Rightarrow> string" where
  "StatusText code = (case map_of status_texts code of Some s \<Rightarrow> s | None \<Rightarrow> [])"

definition CodeText :: "int \<Rightarrow> string" where
  "CodeText code =
    (if code = CodeOK then ''OK''
     else if code = CodeBadRequest then ''Bad Request''
     else if code = CodeUnauthorized then ''Unauthorized''
     else if code = CodeRequestFailed then ''Request Failed''
     else if code = CodeRetryRequest then ''Retry Request''
     else if code = CodeForbidden then ''Forbidden''
     else if code = CodeNotFound then ''Not Found''
     else if code = CodeConflict then ''Conflict''
     else if code = CodeClientError then ''Client Error''
     else if code = CodeTooManyRequests then ''Too Many Requests''
     else if code = CodeInternalError then ''Internal Service Error''
     else if code = CodeNotImplemented then ''Not Implemented''
     else if code = CodeClientContentError then ''Client Content Error''
     else StatusText code)"

section \<open>Error values\<close>

datatype error =
    EOF | ErrUnexpectedEOF | ErrStreamClosed | ErrHeartbeatTimeout
  | Canceled | DeadlineExceeded
  | ErrText string
  | ErrWrap string error
  | DataLimitExceeded int64
  | ServiceErr serviceError
  | ClientErr ClientError
and serviceError = serviceError
    (se_details: details) (se_err: "error option") (se_code: string) (se_httpCode: int)
and ClientError = ClientError
    (ce_details: details) (ce_msg: string) (ce_err: "error option") (ce_isInfraError: bool)
    (ce_code: string) (ce_httpCode: int)

text \<open>The protobuf message \<open>v1.Reply\<close>.\<close>

record reply =
  r_code :: string
  r_message :: string
  r_details :: details

text \<open>The detail keys of client.go.\<close>

definition DetailsHttpCode :: string where "DetailsHttpCode = ''http.code''"
definition DetailsHttpUrl :: string where "DetailsHttpUrl = ''http.url''"
definition DetailsHttpMethod :: string where "DetailsHttpMethod = ''http.method''"
definition DetailsHttpStatus :: string where "DetailsHttpStatus = ''http.status''"
definition DetailsHttpBody :: string where "DetailsHttpBody = ''http.body''"
definition DetailsCodeText :: string where "DetailsCodeText = ''duh.code-text''"
definition DetailsHttpRetryAfter :: string where "DetailsHttpRetryAfter = ''http.retry-after''"

lemmas detail_keys = DetailsHttpCode_def DetailsHttpUrl_def DetailsHttpMethod_def
  DetailsHttpStatus_def DetailsHttpBody_def DetailsCodeText_def DetailsHttpRetryAfter_def

definition DataLimit_Message :: "int64 \<Rightarrow> string" where
  "DataLimit_Message mx = ''exceeds '' @ bytesToSI mx @ '' limit''"

text \<open>The method \<open>Error() string\<close> of every error value.\<close>

fun Error :: "error \<Rightarrow> string" where
  "Error EOF = ''EOF''"
| "Error ErrUnexpectedEOF = ''unexpected EOF''"
| "Error ErrStreamClosed = ''stream is closed''"
| "Error ErrHeartbeatTimeout =
     ''stream heartbeat timeout: no frames received within deadline''"
| "Error Canceled = ''context canceled''"
| "Error DeadlineExceeded = ''context deadline exceeded''"
| "Error (ErrText s) = s"
| "Error (ErrWrap s e) = s"
| "Error (DataLimitExceeded mx) = DataLimit_Message mx"
| "Error (ServiceErr (serviceError d err c h)) =
     (case err of Some e \<Rightarrow> CodeText h @ '': '' @ Error e | None \<Rightarrow> CodeText h)"
| "Error (ClientErr (ClientError d msg err infra c h)) =
     (case err of
        Some e \<Rightarrow> CodeText h @ '': '' @ Error e
      | None \<Rightarrow>
          (if infra
           then mget d DetailsHttpMethod @ '' '' @ mget d DetailsHttpUrl @
                '' returned infrastructure error '' @ Itoa h @ '' with body: '' @ msg
           else mget d DetailsHttpMethod @ '' '' @ mget d DetailsHttpUrl @
                '' returned '' @ [CHR 0x27] @ CodeText h @ [CHR 0x27] @
                '' with message: '' @ msg))"

section \<open>serviceError\<close>

text \<open>
  \<open>fmt.Errorf(format, err)\<close> for a format whose verbs are \<open>%w\<close>, \<open>%v\<close> and
  \<open>%s\<close> and the literal \<open>%%\<close> (the verbs of the formats in this repository): the
  operand's text replaces the first verb, a further verb has no operand, and an operand no
  verb takes is appended as an EXTRA note whose type name is \<open>ty\<close>. The result wraps
  the operand when a \<open>%w\<close> took it.
\<close>

fun fmt_text :: "string \<Rightarrow> string \<Rightarrow> bool \<Rightarrow> string \<Rightarrow> string" where
  "fmt_text ty arg used [] = (if used then [] else ''%!(EXTRA '' @ ty @ ''='' @ arg @ '')'')"
| "fmt_text ty arg used (c # d # s) =
     (if c \<noteq> CHR ''%'' then c # fmt_text ty arg used (d # s)
      else if d = CHR ''%'' then CHR ''%'' # fmt_text ty arg used s
      else if used then ''%!'' @ [d] @ ''(MISSING)'' @ fmt_text ty arg used s
      else arg @ fmt_text ty arg True s)"
| "fmt_text ty arg used [c] =
     (if c = CHR ''%'' then ''%!(NOVERB)'' else [c]) @ fmt_text ty arg used []"

fun fmt_wraps :: "string \<Rightarrow> bool" where
  "fmt_wraps (c # d # s) =
     (if c \<noteq> CHR ''%'' then fmt_wraps (d # s)
      else if d = CHR ''%'' then fmt_wraps s else d = CHR ''w'')"
| "fmt_wraps _ = False"

fun type_name :: "error \<Rightarrow> string" where
  "type_name (ErrWrap _ _) = ''*fmt.wrapError''"
| "type_name (DataLimitExceeded _) = ''*duh.ErrDataLimitExceeded''"
| "type_name (ServiceErr _) = ''*duh.serviceError''"
| "type_name (ClientErr _) = ''*duh.ClientError''"
| "type_name DeadlineExceeded = ''context.deadlineExceededError''"
| "type_name _ = ''*errors.errorString''"

definition Errorf :: "string \<Rightarrow> error \<Rightarrow> error" where
  "Errorf format e =
     (let s = fmt_text (type_name e) (Error e) False format
      in if fmt_wraps format then ErrWrap s e else ErrText s)"

definition NewServiceErrorWithCode ::
  "int \<Rightarrow> string \<Rightarrow> string \<Rightarrow> error option \<Rightarrow> details \<Rightarrow> error" where
  "NewServiceErrorWithCode httpCode code msg err details =
     (let err' = (if msg \<noteq> [] then
                    (case err of Some e \<Rightarrow> Some (Errorf msg e) | None \<Rightarrow> Some (ErrText msg))
                  else err)
      in ServiceErr (serviceError details err' code httpCode))"

definition NewServiceError :: "int \<Rightarrow> string \<Rightarrow> error option \<Rightarrow> details \<Rightarrow> error" where
  "NewServiceError httpCode msg err details =
     NewServiceErrorWithCode httpCode (Itoa httpCode) msg err details"

definition service_Message :: "serviceError \<Rightarrow> string" where
  "service_Message e = (case se_err e of Some x \<Rightarrow> Error x | None \<Rightarrow> [])"

definition service_ProtoMessage :: "serviceError \<Rightarrow> reply" where
  "service_ProtoMessage e =
     \<lparr>r_code = se_code e, r_message = service_Message e, r_details = se_details e\<rparr>"

definition client_ProtoMessage :: "ClientError \<Rightarrow> reply" where
  "client_ProtoMessage e =
     \<lparr>r_code = ce_code e,
      r_message = (case ce_err e of
         Some x \<Rightarrow> (if ce_msg e = [] then Error x else ce_msg e)
       | None \<Rightarrow> ce_msg e),
      r_details = ce_details e\<rparr>"

definition DataLimit_ProtoMessage :: "int64 \<Rightarrow> reply" where
  "DataLimit_ProtoMessage mx =
     \<lparr>r_code = Itoa CodeBadRequest, r_message = DataLimit_Message mx, r_details = None\<rparr>"

text \<open>\<open>Error\<close> of a service error: the code's text and, if there is one, the cause's.\<close>

definition service_Error :: "serviceError \<Rightarrow> string" where
  "service_Error e =
     (case se_err e of Some x \<Rightarrow> CodeText (se_httpCode e) @ '': '' @ Error x | None \<Rightarrow> CodeText (se_httpCode e))"

lemma Error_ServiceErr [err_simps]: "Error (ServiceErr e) = service_Error e"
  by (cases e) (simp add: service_Error_def split: option.splits)

text \<open>The accessors of the three error types.\<close>

definition service_Code :: "serviceError \<Rightarrow> string" where "service_Code e = se_code e"
definition service_HTTPCode :: "serviceError \<Rightarrow> int" where "service_HTTPCode e = se_httpCode e"
definition service_Details :: "serviceError \<Rightarrow> details" where "service_Details e = se_details e"
definition client_Code :: "ClientError \<Rightarrow> string" where "client_Code e = ce_code e"
definition client_HTTPCode :: "ClientError \<Rightarrow> int" where "client_HTTPCode e = ce_httpCode e"
definition IsInfraError :: "ClientError \<Rightarrow> bool" where "IsInfraError e = ce_isInfraError e"
definition client_Message :: "ClientError \<Rightarrow> string" where "client_Message e = ce_msg e"
definition client_Details :: "ClientError \<Rightarrow> details" where "client_Details e = ce_details e"
definition DataLimit_Code :: "int64 \<Rightarrow> string" where "DataLimit_Code mx = Itoa CodeBadRequest"
definition DataLimit_HTTPCode :: "int64 \<Rightarrow> int" where "DataLimit_HTTPCode mx = CodeBadRequest"
definition DataLimit_Details :: "int64 \<Rightarrow> details" where "DataLimit_Details mx = None"

lemmas accessor_defs [simp] = service_Code_def service_HTTPCode_def service_Details_def client_Code_def
  client_HTTPCode_def IsInfraError_def client_Message_def client_Details_def DataLimit_Code_def
  DataLimit_HTTPCode_def DataLimit_Details_def

section \<open>The interface duh.Error and errors.As\<close>

text \<open>The dynamic values that implement \<open>duh.Error\<close>, and the dispatch of its methods.\<close>

datatype duh_error = DService serviceError | DClient ClientError | DLimit int64

fun duh_ProtoMessage :: "duh_error \<Rightarrow> reply" where
  "duh_ProtoMessage (DService e) = service_ProtoMessage e"
| "duh_ProtoMessage (DClient e) = client_ProtoMessage e"
| "duh_ProtoMessage (DLimit mx) = DataLimit_ProtoMessage mx"

fun duh_Code :: "duh_error \<Rightarrow> string" where
  "duh_Code (DService e) = service_Code e"
| "duh_Code (DClient e) = client_Code e"
| "duh_Code (DLimit mx) = DataLimit_Code mx"

fun duh_HTTPCode :: "duh_error \<Rightarrow> int" where
  "duh_HTTPCode (DService e) = service_HTTPCode e"
| "duh_HTTPCode (DClient e) = client_HTTPCode e"
| "duh_HTTPCode (DLimit mx) = DataLimit_HTTPCode mx"

fun duh_Message :: "duh_error \<Rightarrow> string" where
  "duh_Message (DService e) = service_Message e"
| "duh_Message (DClient e) = client_Message e"
| "duh_Message (DLimit mx) = DataLimit_Message mx"

fun duh_Details :: "duh_error \<Rightarrow> details" where
  "duh_Details (DService e) = service_Details e"
| "duh_Details (DClient e) = client_Details e"
| "duh_Details (DLimit mx) = DataLimit_Details mx"

text \<open>\<open>errors.As(err, &e)\<close> for \<open>e\<close> of the interface type: walk the chain.\<close>

fun As_Error :: "error \<Rightarrow> duh_error option" where
  "As_Error (ServiceErr e) = Some (DService e)"
| "As_Error (ClientErr e) = Some (DClient e)"
| "As_Error (DataLimitExceeded mx) = Some (DLimit mx)"
| "As_Error (ErrWrap s e) = As_Error e"
| "As_Error _ = None"

section \<open>Lemmas\<close>

lemma fmt_text_no_percent:
  "CHR ''%'' \<notin> set s \<Longrightarrow> fmt_text ty arg used s = s @ fmt_text ty arg used []"
proof (induction ty arg used s rule: fmt_text.induct)
  case (2 ty arg used c d s)
  then show ?case by auto
qed auto

lemma fmt_text_w:
  "CHR ''%'' \<notin> set s \<Longrightarrow> fmt_text ty arg False (s @ ''%w'') = s @ arg"
proof (induction s)
  case Nil
  then show ?case by simp
next
  case (Cons c s)
  then show ?case by (cases "s @ ''%w''") auto
qed

lemma fmt_wraps_w: "CHR ''%'' \<notin> set s \<Longrightarrow> fmt_wraps (s @ ''%w'')"
proof (induction s)
  case Nil
  then show ?case by simp
next
  case (Cons c s)
  then show ?case by (cases "s @ ''%w''") auto
qed

text \<open>A prefix followed by \<open>%w\<close>, the form of every constant format of the sources.\<close>

lemma Errorf_w: "CHR ''%'' \<notin> set s \<Longrightarrow> Errorf (s @ ''%w'') e = ErrWrap (s @ Error e) e"
  by (simp add: Errorf_def fmt_text_w fmt_wraps_w)

lemma As_Error_NewServiceErrorWithCode [simp]:
  "As_Error (NewServiceErrorWithCode h c m e d) =
    Some (DService (serviceError d
      (if m \<noteq> [] then (case e of Some x \<Rightarrow> Some (Errorf m x) | None \<Rightarrow> Some (ErrText m)) else e) c h))"
  by (simp add: NewServiceErrorWithCode_def)

lemma As_Error_NewServiceError [simp]:
  "As_Error (NewServiceError h m e d) =
    Some (DService (serviceError d
      (if m \<noteq> [] then (case e of Some x \<Rightarrow> Some (Errorf m x) | None \<Rightarrow> Some (ErrText m)) else e)
      (Itoa h) h))"
  by (simp add: NewServiceError_def)

text \<open>The interface's accessors agree with the reply each implementation builds.\<close>

lemma duh_ProtoMessage_code [err_simps]: "r_code (duh_ProtoMessage e) = duh_Code e"
  by (cases e) (simp_all add: service_ProtoMessage_def client_ProtoMessage_def
      DataLimit_ProtoMessage_def)

lemma duh_ProtoMessage_details [err_simps]: "r_details (duh_ProtoMessage e) = duh_Details e"
  by (cases e) (simp_all add: service_ProtoMessage_def client_ProtoMessage_def
      DataLimit_ProtoMessage_def)

end
