(* ===== verification/Go_IO.thy ===== *)
theory Go_IO
  imports Errors
begin

text \<open>
  The interfaces \<open>io.Reader\<close> and \<open>io.Writer\<close> and the library loops the sources
  run over them: \<open>io.ReadFull\<close> and the copy into a \<open>bytes.Buffer\<close>
  (\<open>io.Copy\<close> uses \<open>Buffer.ReadFrom\<close>).

  A reader is a state with a function \<open>read k s\<close>: one call of \<open>Read\<close> with a buffer
  of \<open>k\<close> bytes, giving the bytes delivered, the error and the next state. A loop over a
  reader need not end (a reader may return no bytes and no error for ever), so the loops are
  partial functions, \<open>None\<close> meaning that they do not return; the locale
  \<open>io_reader\<close> states the contract under which they do, with the total content the
  reader delivers and the error it ends with as its abstraction.
\<close>

type_synonym 's read_fn = "nat \<Rightarrow> 's \<Rightarrow> (bytes \<times> error option) \<times> 's"
type_synonym 's write_fn = "bytes \<Rightarrow> 's \<Rightarrow> (nat \<times> error option) \<times> 's"

section \<open>io.ReadFull and bytes.Buffer.ReadFrom\<close>

text \<open>The loop \<open>for n < min && err == nil\<close> of \<open>io.ReadAtLeast\<close>.\<close>

partial_function (option) read_loop ::
  "'s read_fn \<Rightarrow> nat \<Rightarrow> bytes \<Rightarrow> 's \<Rightarrow> ((bytes \<times> error option) \<times> 's) option" where
  "read_loop read n acc s =
     (if n \<le> length acc then Some ((acc, None), s)
      else (case read (n - length acc) s of ((b, e), s') \<Rightarrow>
        (case e of
           None \<Rightarrow> read_loop read n (acc @ b) s'
         | Some x \<Rightarrow> Some ((acc @ b, Some x), s'))))"

definition ReadFull ::
  "'s read_fn \<Rightarrow> nat \<Rightarrow> 's \<Rightarrow> ((bytes \<times> error option) \<times> 's) option" where
  "ReadFull read n s =
     map_option (\<lambda>((b, e), s').
       ((b, if n \<le> length b then None
            else if b \<noteq> [] \<and> e = Some EOF then Some ErrUnexpectedEOF else e), s'))
       (read_loop read n [] s)"

text \<open>
  \<open>bytes.MinRead\<close> is 512: before each call the buffer makes room for at least that many
  bytes; how much more room there is depends on its growth policy and is the argument
  \<open>room\<close>, a function of the bytes already held.
\<close>

partial_function (option) ReadFrom ::
  "(nat \<Rightarrow> nat) \<Rightarrow> 's read_fn \<Rightarrow> bytes \<Rightarrow> 's \<Rightarrow> ((bytes \<times> error option) \<times> 's) option" where
  "ReadFrom room read acc s =
     (case read (512 + room (length acc)) s of ((b, e), s') \<Rightarrow>
       (case e of
          None \<Rightarrow> ReadFrom room read (acc @ b) s'
        | Some x \<Rightarrow> Some ((acc @ b, if x = EOF then None else Some x), s')))"

lemma read_loop_None:
  "read_loop read n acc s = Some ((out, e), s') \<Longrightarrow> e = None \<Longrightarrow> n \<le> length out"
proof -
  let ?Q = "\<lambda>read n acc s (r, s'). snd r = None \<longrightarrow> n \<le> length (fst r)"
  assume l: "read_loop read n acc s = Some ((out, e), s')" and e: "e = None"
  have "?Q read n acc s ((out, e), s')"
    by (rule read_loop.raw_induct [where P = ?Q, OF _ l]) (auto split: if_splits prod.splits option.splits)
  with e show ?thesis by simp
qed

section \<open>A concrete source of bytes\<close>

text \<open>
  What a connection or an HTTP body delivers in one run: chunks in order, then a final
  error (\<open>io.EOF\<close> for a clean end) that it keeps reporting. With \<open>src_eager\<close> the
  error comes with the last chunk, as \<open>io.Reader\<close> allows and as the body of an
  HTTP request with a Content-Length does; otherwise it comes from a further call. A source has
  finitely many chunks, so it stands for a body that ends, normally or with an error; one that
  never ends is outside the model.
\<close>

record source =
  src_chunks :: "bytes list"
  src_eager :: bool
  src_err :: error
  src_closed :: bool

definition src_read :: "source read_fn" where
  "src_read k s = (case src_chunks s of
     [] \<Rightarrow> (([], Some (src_err s)), s)
   | b # bs \<Rightarrow>
       (if length b \<le> k
        then ((b, if src_eager s \<and> bs = [] then Some (src_err s) else None), s\<lparr>src_chunks := bs\<rparr>)
        else ((take k b, None), s\<lparr>src_chunks := drop k b # bs\<rparr>)))"

definition src_close :: "source \<Rightarrow> source" where
  "src_close s = s\<lparr>src_closed := True\<rparr>"

definition src_content :: "source \<Rightarrow> bytes" where
  "src_content s = concat (src_chunks s)"

definition src_rank :: "source \<Rightarrow> nat" where
  "src_rank s = sum_list (map (\<lambda>b. Suc (length b)) (src_chunks s))"

text \<open>The final error arrives together with data.\<close>

definition src_attached :: "source \<Rightarrow> bool" where
  "src_attached s \<longleftrightarrow> src_eager s \<and> src_chunks s \<noteq> [] \<and> last (src_chunks s) \<noteq> []"

section \<open>The contract of a reader\<close>

locale io_reader =
  fixes read :: "'s read_fn"
    and content :: "'s \<Rightarrow> bytes"
    and fin :: "'s \<Rightarrow> error"
    and rank :: "'s \<Rightarrow> nat"
  assumes read_more: "0 < k \<Longrightarrow> read k s = ((b, None), s') \<Longrightarrow>
      content s = b @ content s' \<and> fin s' = fin s \<and> rank s' < rank s \<and> length b \<le> k"
    and read_last: "0 < k \<Longrightarrow> read k s = ((b, Some e), s') \<Longrightarrow>
      content s = b \<and> e = fin s \<and> length b \<le> k"
begin

text \<open>Copying into a buffer takes everything, whatever the buffer sizes.\<close>

lemma ReadFrom_all:
  "\<exists>s'. ReadFrom room read acc s =
     Some ((acc @ content s, if fin s = EOF then None else Some (fin s)), s')"
proof (induction "rank s" arbitrary: acc s rule: less_induct)
  case less
  let ?k = "512 + room (length acc)"
  have k: "0 < ?k" by simp
  obtain b e s' where r: "read ?k s = ((b, e), s')" by (metis surj_pair)
  show ?case
  proof (cases e)
    case None
    with read_more [OF k] r have c: "content s = b @ content s'" "fin s' = fin s"
      "rank s' < rank s" by auto
    from less.hyps [OF c(3), of "acc @ b"] obtain s'' where
      "ReadFrom room read (acc @ b) s' =
         Some (((acc @ b) @ content s', if fin s' = EOF then None else Some (fin s')), s'')" ..
    with r None c show ?thesis
      by (simp add: ReadFrom.simps [of room read acc s])
  next
    case (Some x)
    with read_last [OF k] r show ?thesis
      by (simp add: ReadFrom.simps [of room read acc s])
  qed
qed

end

text \<open>
  A reader that keeps reporting its final error, so that a caller who drops the error
  because it got all the bytes it asked for meets it again.
\<close>

locale sticky_reader = io_reader +
  assumes read_sticky: "0 < k \<Longrightarrow> read k s = ((b, Some e), s') \<Longrightarrow>
      content s' = [] \<and> fin s' = fin s"
begin

text \<open>The loop returns; it delivers what is asked for, or everything and the final error.\<close>

lemma read_loop_enough:
  "n - length acc \<le> length (content s) \<Longrightarrow> \<exists>e s'.
     read_loop read n acc s = Some ((acc @ take (n - length acc) (content s), e), s') \<and>
     content s' = drop (n - length acc) (content s) \<and> fin s' = fin s"
proof (induction "rank s" arbitrary: acc s rule: less_induct)
  case less
  show ?case
  proof (cases "n \<le> length acc")
    case True
    then show ?thesis by (simp add: read_loop.simps)
  next
    case False
    then have k: "0 < n - length acc" by simp
    obtain b e s' where r: "read (n - length acc) s = ((b, e), s')" by (metis surj_pair)
    show ?thesis
    proof (cases e)
      case None
      with read_more [OF k] r have c: "content s = b @ content s'" "fin s' = fin s"
        "rank s' < rank s" "length b \<le> n - length acc" by auto
      from c(1) less.prems have "n - length (acc @ b) \<le> length (content s')" by simp
      from less.hyps [OF c(3) this] obtain e' s'' where
        "read_loop read n (acc @ b) s' =
           Some (((acc @ b) @ take (n - length (acc @ b)) (content s'), e'), s'')"
        "content s'' = drop (n - length (acc @ b)) (content s')" "fin s'' = fin s'" by blast
      with False r None c show ?thesis
        by (simp add: read_loop.simps [of read n acc s])
    next
      case (Some x)
      with read_last [OF k] read_sticky [OF k] r have "content s = b" "content s' = []" "fin s' = fin s"
        "length b \<le> n - length acc" by auto
      with False r Some less.prems show ?thesis
        by (simp add: read_loop.simps [of read n acc s])
    qed
  qed
qed

lemma read_loop_short:
  "length (content s) < n - length acc \<Longrightarrow> \<exists>s'.
     read_loop read n acc s = Some ((acc @ content s, Some (fin s)), s') \<and>
     content s' = [] \<and> fin s' = fin s"
proof (induction "rank s" arbitrary: acc s rule: less_induct)
  case less
  then have k: "0 < n - length acc" by simp
  obtain b e s' where r: "read (n - length acc) s = ((b, e), s')" by (metis surj_pair)
  show ?case
  proof (cases e)
    case None
    with read_more [OF k] r have c: "content s = b @ content s'" "fin s' = fin s"
      "rank s' < rank s" by auto
    from c(1) less.prems have "length (content s') < n - length (acc @ b)" by simp
    from less.hyps [OF c(3) this] obtain s'' where
      "read_loop read n (acc @ b) s' = Some (((acc @ b) @ content s', Some (fin s')), s'')"
      "content s'' = []" "fin s'' = fin s'" by blast
    with k r None c show ?thesis
      by (simp add: read_loop.simps [of read n acc s])
  next
    case (Some x)
    with read_last [OF k] read_sticky [OF k] r k show ?thesis
      by (simp add: read_loop.simps [of read n acc s])
  qed
qed

lemma ReadFull_enough:
  assumes "n \<le> length (content s)"
  shows "\<exists>s'. ReadFull read n s = Some ((take n (content s), None), s') \<and>
    content s' = drop n (content s) \<and> fin s' = fin s"
  using read_loop_enough [of n "[]" s] assms by (auto simp: ReadFull_def)

lemma ReadFull_short:
  assumes "length (content s) < n"
  shows "\<exists>s'. ReadFull read n s =
      Some ((content s, Some (if content s \<noteq> [] \<and> fin s = EOF then ErrUnexpectedEOF else fin s)), s')
    \<and> content s' = [] \<and> fin s' = fin s"
proof -
  from read_loop_short [of s n "[]"] assms obtain s' where
    "read_loop read n [] s = Some ((content s, Some (fin s)), s')" "content s' = []"
    "fin s' = fin s" by auto
  with assms show ?thesis by (simp add: ReadFull_def)
qed

end

text \<open>
  A reader for which it is also known whether the final error is delivered together with
  the last bytes: needed where a wrapper counts bytes and asks again.
\<close>

locale eager_reader = io_reader +
  fixes attached :: "'a \<Rightarrow> bool"
  assumes attached_more: "0 < k \<Longrightarrow> read k s = ((b, None), s') \<Longrightarrow>
      attached s' = attached s \<and> (attached s \<longrightarrow> content s' \<noteq> [])"
    and attached_last: "0 < k \<Longrightarrow> read k s = ((b, Some e), s') \<Longrightarrow> b \<noteq> [] \<Longrightarrow> attached s"
    and attached_content: "attached s \<Longrightarrow> content s \<noteq> []"

interpretation src: sticky_reader src_read src_content src_err src_rank
proof (unfold_locales, goal_cases)
  case (1 k s b s')
  then show ?case
    by (auto simp: src_read_def src_content_def src_rank_def split: list.splits if_splits)
next
  case (2 k s b e s')
  then show ?case
    by (auto simp: src_read_def src_content_def split: list.splits if_splits)
next
  case (3 k s b e s')
  then show ?case
    by (auto simp: src_read_def src_content_def split: list.splits if_splits)
qed

interpretation src: eager_reader src_read src_content src_err src_rank src_attached
proof (unfold_locales, goal_cases)
  case (1 k s b s')
  then show ?case
    by (auto simp: src_read_def src_content_def src_attached_def split: list.splits if_splits)
next
  case (2 k s b e s')
  then show ?case
    by (auto simp: src_read_def src_attached_def split: list.splits if_splits)
next
  case (3 s)
  then show ?case
    using last_in_set [of "src_chunks s"] by (force simp: src_attached_def src_content_def)
qed

section \<open>What every successful read keeps\<close>

text \<open>
  A reader that reports errors on their own, with a relation \<open>keeps\<close> between the bytes consumed
  and the state that its successful reads keep. The loops keep it too: it holds when a loop
  has what it asked for, and held where the read that ended the loop began.
\<close>

locale traced_reader =
  fixes read :: "'s read_fn"
    and keeps :: "bytes \<Rightarrow> 's \<Rightarrow> bool"
  assumes read_keeps: "0 < k \<Longrightarrow> keeps c s \<Longrightarrow> read k s = ((b, None), s') \<Longrightarrow>
      keeps (c @ b) s' \<and> length b \<le> k"
    and read_lazy: "read k s = ((b, Some x), s') \<Longrightarrow> b = []"
begin

definition stopped :: "'s \<Rightarrow> bool" where
  "stopped s' \<longleftrightarrow> (\<exists>k c s x. keeps c s \<and> read k s = (([], Some x), s'))"

lemma read_loop_keeps:
  assumes "read_loop read n acc s = Some ((out, e), s')" and "keeps (c @ acc) s" and "length acc \<le> n"
  shows "if n \<le> length out then keeps (c @ out) s' \<and> length out = n else stopped s'"
proof -
  let ?Q = "\<lambda>rd n acc s (r, s'). rd = read \<longrightarrow> keeps (c @ acc) s \<longrightarrow> length acc \<le> n \<longrightarrow>
    (if n \<le> length (fst r) then keeps (c @ fst r) s' \<and> length (fst r) = n else stopped s')"
  have "?Q read n acc s ((out, e), s')"
  proof (rule read_loop.raw_induct [where P = ?Q, OF _ assms(1)], goal_cases)
    case (1 loop rd n acc s y)
    show ?case
    proof (cases "n \<le> length acc")
      case True
      with 1(2) show ?thesis by auto
    next
      case False
      obtain b x t where r: "rd (n - length acc) s = ((b, x), t)" by (metis surj_pair)
      obtain out e s' where y: "y = ((out, e), s')" by (metis surj_pair)
      show ?thesis
      proof (cases x)
        case None
        with 1(2) False r have "loop rd n (acc @ b) t = Some ((out, e), s')" by (simp add: y)
        from 1(1) [OF this] read_keeps [of "n - length acc" "c @ acc" s b t] False r None
        show ?thesis by (auto simp: y)
      next
        case (Some z)
        have "stopped t" if "rd = read" "keeps (c @ acc) s"
          using that r Some read_lazy unfolding stopped_def by blast
        moreover have "b = []" if "rd = read" using that r Some read_lazy by blast
        ultimately show ?thesis using 1(2) False r Some by auto
      qed
    qed
  qed
  with assms(2,3) show ?thesis by (simp split: if_splits)
qed

lemma ReadFull_keeps:
  assumes "ReadFull read n s = Some ((out, e), s')" and "keeps c s"
  shows "case e of None \<Rightarrow> keeps (c @ out) s' \<and> length out = n | Some _ \<Rightarrow> stopped s'"
proof -
  from assms(1) obtain x where l: "read_loop read n [] s = Some ((out, x), s')"
    and e: "e = (if n \<le> length out then None
      else if out \<noteq> [] \<and> x = Some EOF then Some ErrUnexpectedEOF else x)"
    by (auto simp: ReadFull_def)
  have "x \<noteq> None" if "\<not> n \<le> length out"
    using read_loop_None [OF l] that by auto
  with read_loop_keeps [OF l, of c] assms(2) e show ?thesis by auto
qed

end

section \<open>The contract of a writer\<close>

locale io_writer =
  fixes wr :: "'s write_fn"
    and written :: "'s \<Rightarrow> bytes"
  assumes write_ok: "wr b s = ((n, None), s') \<Longrightarrow> written s' = written s @ b \<and> n = length b"
    and write_err: "wr b s = ((n, Some e), s') \<Longrightarrow>
      n \<le> length b \<and> written s' = written s @ take n b"
begin

lemma write_prefix: "wr b s = ((n, e), s') \<Longrightarrow> written s' = written s @ take n b"
  using write_ok [of b s n s'] write_err [of b s n _ s'] by (cases e) auto

end

end
