(* ===== verification/Frames.thy ===== *)
theory Frames
  imports Go_IO
begin

text \<open>
  stream/stream.go: length-prefixed binary frames. \<open>WriteFrame\<close> and \<open>ReadFrame\<close>
  are written over any writer and reader; \<open>encode_frame\<close> and \<open>decode_frame\<close> are
  the wire format as functions on byte strings, and the lemmas show that the two methods
  implement them for every way the bytes can be cut into chunks.
\<close>

definition FlagData :: byte where "FlagData = 0"
definition FlagFinal :: byte where "FlagFinal = 1"
definition FlagError :: byte where "FlagError = 2"
definition FlagHeartbeat :: byte where "FlagHeartbeat = 3"

lemmas flag_defs = FlagData_def FlagFinal_def FlagError_def FlagHeartbeat_def

definition headerSize :: nat where "headerSize = 5"

text \<open>\<open>binary.BigEndian\<close>.\<close>

definition PutUint32 :: "uint32 \<Rightarrow> bytes" where
  "PutUint32 v = [ucast (drop_bit 24 v), ucast (drop_bit 16 v), ucast (drop_bit 8 v), ucast v]"

fun Uint32 :: "bytes \<Rightarrow> uint32" where
  "Uint32 [a, b, c, d] =
     ucast d OR push_bit 8 (ucast c) OR push_bit 16 (ucast b) OR push_bit 24 (ucast a)"
| "Uint32 _ = 0"

section \<open>Writer\<close>

definition frame_header :: "byte \<Rightarrow> bytes \<Rightarrow> bytes" where
  "frame_header flag payload = flag # PutUint32 (word_of_nat (length payload))"

definition WriteFrame :: "'s write_fn \<Rightarrow> byte \<Rightarrow> bytes \<Rightarrow> 's \<Rightarrow> error option \<times> 's" where
  "WriteFrame wr flag payload s =
     (case wr (frame_header flag payload) s of
        ((_, Some e), s1) \<Rightarrow> (Some e, s1)
      | ((_, None), s1) \<Rightarrow>
          (if payload \<noteq> [] then (case wr payload s1 of ((_, e), s2) \<Rightarrow> (e, s2))
           else (None, s1)))"

section \<open>Reader\<close>

record 's frame_reader =
  fr_r :: 's
  fr_maxPayloadSize :: int

definition NewReader :: "'s \<Rightarrow> int \<Rightarrow> 's frame_reader" where
  "NewReader r maxPayloadSize = \<lparr>fr_r = r, fr_maxPayloadSize = maxPayloadSize\<rparr>"

definition size_error :: "uint32 \<Rightarrow> int \<Rightarrow> error" where
  "size_error len mx =
     ErrText (''frame payload size '' @ Itoa (uint len) @ '' exceeds limit '' @ Itoa mx)"

definition ReadFrame ::
  "'s read_fn \<Rightarrow> 's frame_reader \<Rightarrow> ((byte \<times> bytes \<times> error option) \<times> 's frame_reader) option" where
  "ReadFrame read r =
     (case ReadFull read headerSize (fr_r r) of
        None \<Rightarrow> None
      | Some ((header, err), s1) \<Rightarrow>
          (let r1 = r\<lparr>fr_r := s1\<rparr> in
           case err of
             Some e \<Rightarrow>
               (if e = EOF then Some ((0, [], Some EOF), r1)
                else Some ((0, [], Some ErrUnexpectedEOF), r1))
           | None \<Rightarrow>
               (let flag = header ! 0; len = Uint32 (drop 1 header) in
                if 0 < fr_maxPayloadSize r \<and> fr_maxPayloadSize r < uint len
                then Some ((0, [], Some (size_error len (fr_maxPayloadSize r))), r1)
                else if len = 0 then Some ((flag, [], None), r1)
                else (case ReadFull read (unat len) s1 of
                        None \<Rightarrow> None
                      | Some ((payload, err), s2) \<Rightarrow>
                          (case err of
                             Some e \<Rightarrow> Some ((0, [], Some ErrUnexpectedEOF), r\<lparr>fr_r := s2\<rparr>)
                           | None \<Rightarrow> Some ((flag, payload, None), r\<lparr>fr_r := s2\<rparr>))))))"

section \<open>The wire format as a specification\<close>

definition encode_frame :: "byte \<Rightarrow> bytes \<Rightarrow> bytes" where
  "encode_frame flag payload = frame_header flag payload @ payload"

text \<open>Decoding the first frame of a byte string that ends with the error \<open>fin\<close>.\<close>

definition decode_frame :: "int \<Rightarrow> error \<Rightarrow> bytes \<Rightarrow> (byte \<times> bytes \<times> error option) \<times> bytes" where
  "decode_frame mx fin c =
     (if c = [] \<and> fin = EOF then ((0, [], Some EOF), [])
      else if length c < 5 then
        ((0, [], Some (if c = [] \<and> fin = EOF then EOF else ErrUnexpectedEOF)), [])
      else
        (let len = Uint32 (take 4 (drop 1 c)); rest = drop 5 c in
         if 0 < mx \<and> mx < uint len then ((0, [], Some (size_error len mx)), rest)
         else if length rest < unat len then ((0, [], Some ErrUnexpectedEOF), [])
         else ((c ! 0, take (unat len) rest, None), drop (unat len) rest)))"

text \<open>Reading a whole stream of frames: a list of results up to and including the first error.\<close>

fun read_frames :: "nat \<Rightarrow> 's read_fn \<Rightarrow> 's frame_reader \<Rightarrow> (byte \<times> bytes \<times> error option) list option" where
  "read_frames 0 read r = Some []"
| "read_frames (Suc n) read r =
     (case ReadFrame read r of
        None \<Rightarrow> None
      | Some ((flag, payload, err), r') \<Rightarrow>
          (case err of
             Some e \<Rightarrow> Some [(flag, payload, Some e)]
           | None \<Rightarrow> map_option (\<lambda>fs. (flag, payload, None) # fs) (read_frames n read r')))"

fun write_frames :: "'s write_fn \<Rightarrow> (byte \<times> bytes) list \<Rightarrow> 's \<Rightarrow> error option \<times> 's" where
  "write_frames wr [] s = (None, s)"
| "write_frames wr ((flag, payload) # fs) s =
     (case WriteFrame wr flag payload s of
        (Some e, s') \<Rightarrow> (Some e, s')
      | (None, s') \<Rightarrow> write_frames wr fs s')"

definition encode_frames :: "(byte \<times> bytes) list \<Rightarrow> bytes" where
  "encode_frames fs = concat (map (\<lambda>(flag, payload). encode_frame flag payload) fs)"

text \<open>A payload the length field can carry and the limit admits.\<close>

definition fits :: "int \<Rightarrow> bytes \<Rightarrow> bool" where
  "fits mx payload \<longleftrightarrow> length payload < 2 ^ 32 \<and> (mx \<le> 0 \<or> int (length payload) \<le> mx)"

section \<open>Lemmas\<close>

lemma flags_distinct [simp]:
  "FlagData \<noteq> FlagHeartbeat" "FlagHeartbeat \<noteq> FlagData" "FlagFinal \<noteq> FlagHeartbeat"
  "FlagHeartbeat \<noteq> FlagFinal" "FlagError \<noteq> FlagHeartbeat" "FlagHeartbeat \<noteq> FlagError"
  "FlagFinal \<noteq> FlagData" "FlagData \<noteq> FlagFinal" "FlagError \<noteq> FlagData"
  "FlagData \<noteq> FlagError" "FlagError \<noteq> FlagFinal" "FlagFinal \<noteq> FlagError"
  by (simp_all add: flag_defs)

lemma length_PutUint32 [simp]: "length (PutUint32 v) = 4"
  by (simp add: PutUint32_def)

lemma Uint32_PutUint32 [simp]: "Uint32 (PutUint32 v) = v"
proof (rule bit_word_eqI)
  fix n :: nat
  assume n: "n < LENGTH(32)"
  consider "n < 8" | "8 \<le> n" "n < 16" | "16 \<le> n" "n < 24" | "24 \<le> n"
    by linarith
  then show "bit (Uint32 (PutUint32 v)) n = bit v n"
    using n by cases (auto simp: PutUint32_def bit_simps)
qed

lemma length_frame_header [simp]: "length (frame_header flag payload) = 5"
  by (simp add: frame_header_def)

lemma frame_header_nonempty [simp]: "frame_header flag payload \<noteq> []"
  by (simp add: frame_header_def)

lemma drop_frame_header [simp]:
  "drop (Suc 0) (frame_header flag payload) = PutUint32 (word_of_nat (length payload))"
  by (simp add: frame_header_def)

lemma nth_frame_header [simp]: "frame_header flag payload ! 0 = flag"
  by (simp add: frame_header_def)

lemma length_encode_frame [simp]: "length (encode_frame flag payload) = 5 + length payload"
  by (simp add: encode_frame_def)

lemma encode_frame_nonempty [simp]: "encode_frame flag payload \<noteq> []"
  by (simp add: encode_frame_def)

lemma encode_frames_Nil [simp]: "encode_frames [] = []"
  by (simp add: encode_frames_def)

lemma encode_frames_Cons [simp]:
  "encode_frames ((flag, payload) # fs) = encode_frame flag payload @ encode_frames fs"
  by (simp add: encode_frames_def)

lemma encode_frames_append [simp]:
  "encode_frames (fs @ gs) = encode_frames fs @ encode_frames gs"
  by (simp add: encode_frames_def)

text \<open>Decoding inverts encoding, and leaves what follows.\<close>

lemma decode_encode_frame:
  assumes "fits mx payload"
  shows "decode_frame mx fin (encode_frame flag payload @ rest) = ((flag, payload, None), rest)"
proof -
  let ?c = "encode_frame flag payload @ rest"
  have len: "Uint32 (take 4 (drop 1 ?c)) = word_of_nat (length payload)"
    by (simp add: encode_frame_def frame_header_def)
  have u: "unat (word_of_nat (length payload) :: uint32) = length payload"
    using assms by (simp add: fits_def unat_of_nat take_bit_eq_mod)
  then have ui: "uint (word_of_nat (length payload) :: uint32) = int (length payload)"
    by (metis uint_nat)
  have d: "drop 5 ?c = payload @ rest" by (simp add: encode_frame_def)
  have h: "?c ! 0 = flag" by (simp add: encode_frame_def frame_header_def)
  show ?thesis
    using assms unfolding decode_frame_def len d h Let_def u ui
    by (auto simp: fits_def)
qed

lemma PutUint32_Uint32:
  assumes "length bs = 4"
  shows "PutUint32 (Uint32 bs) = bs"
proof -
  from assms obtain a b c d where bs: "bs = [a, b, c, d]"
    by (auto simp: length_Suc_conv numeral_eq_Suc)
  have high: "\<not> bit x (m + n)" if "8 \<le> m" for x :: byte and m n
    using that bit_imp_le_length [of x "m + n"] by auto
  show ?thesis
    unfolding bs by (auto simp: PutUint32_def bit_simps high intro!: bit_word_eqI)
qed

text \<open>A frame that decodes was encoded.\<close>

lemma decode_frame_complete:
  assumes "decode_frame mx fin c = ((flag, p, None), rest)"
  shows "c = encode_frame flag p @ rest"
proof -
  let ?len = "Uint32 (take 4 (drop 1 c))"
  from assms have five: "5 \<le> length c" by (auto simp: decode_frame_def split: if_splits)
  with assms have d: "c ! 0 = flag" "take (unat ?len) (drop 5 c) = p" "drop (unat ?len) (drop 5 c) = rest"
    "unat ?len \<le> length (drop 5 c)"
    by (auto simp: decode_frame_def Let_def split: if_splits)
  from d(2,4) have "length p = unat ?len" by auto
  then have "PutUint32 (word_of_nat (length p)) = take 4 (drop 1 c)"
    using five by (simp add: PutUint32_Uint32)
  moreover have "c = c ! 0 # take 4 (drop 1 c) @ drop 5 c"
    using five by (cases c) (auto simp: numeral_eq_Suc)
  moreover have "drop 5 c = p @ rest" using d(2,3) by (metis append_take_drop_id)
  ultimately show ?thesis using d(1) by (simp add: encode_frame_def frame_header_def)
qed

context sticky_reader
begin

text \<open>The method implements the specification: same result, same bytes left over.\<close>

lemma ReadFrame_decode:
  "\<exists>s'. ReadFrame read r =
      Some (fst (decode_frame (fr_maxPayloadSize r) (fin (fr_r r)) (content (fr_r r))), r\<lparr>fr_r := s'\<rparr>)
    \<and> content s' = snd (decode_frame (fr_maxPayloadSize r) (fin (fr_r r)) (content (fr_r r)))
    \<and> fin s' = fin (fr_r r)"
proof (cases "length (content (fr_r r)) < 5")
  case True
  from ReadFull_short [OF True] obtain s' where
    "ReadFull read 5 (fr_r r) = Some ((content (fr_r r),
       Some (if content (fr_r r) \<noteq> [] \<and> fin (fr_r r) = EOF then ErrUnexpectedEOF else fin (fr_r r))), s')"
    "content s' = []" "fin s' = fin (fr_r r)" by blast
  with True show ?thesis
    by (auto simp: ReadFrame_def headerSize_def decode_frame_def)
next
  case False
  let ?c = "content (fr_r r)" and ?mx = "fr_maxPayloadSize r"
  from False have ne: "?c \<noteq> []" "\<not> length ?c < 5" "0 < length ?c" by auto
  from False have "5 \<le> length ?c" by simp
  from ReadFull_enough [OF this] obtain s1 where r1:
    "ReadFull read 5 (fr_r r) = Some ((take 5 ?c, None), s1)" "content s1 = drop 5 ?c"
    "fin s1 = fin (fr_r r)" by blast
  define len where "len = Uint32 (take 4 (drop 1 ?c))"
  have len': "Uint32 (take 4 (drop (Suc 0) ?c)) = len" by (simp add: len_def)
  show ?thesis
  proof (cases "(0 < ?mx \<and> ?mx < uint len) \<or> len = 0")
    case True
    with r1 ne len' show ?thesis
      by (auto simp: ReadFrame_def headerSize_def decode_frame_def Let_def drop_take)
  next
    case F: False
    show ?thesis
    proof (cases "length (drop 5 ?c) < unat len")
      case True
      with r1(2) have "length (content s1) < unat len" by simp
      from ReadFull_short [OF this] obtain s2 e where
        "ReadFull read (unat len) s1 = Some ((content s1, Some e), s2)" "content s2 = []"
        "fin s2 = fin s1" by blast
      with r1 ne len' F True show ?thesis
        by (auto simp: ReadFrame_def headerSize_def decode_frame_def Let_def drop_take)
    next
      case E: False
      with r1(2) have "unat len \<le> length (content s1)" by simp
      from ReadFull_enough [OF this] obtain s2 where
        "ReadFull read (unat len) s1 = Some ((take (unat len) (content s1), None), s2)"
        "content s2 = drop (unat len) (content s1)" "fin s2 = fin s1" by blast
      with r1 ne len' F E show ?thesis
        by (auto simp: ReadFrame_def headerSize_def decode_frame_def Let_def drop_take)
    qed
  qed
qed

lemma ReadFrame_encoded:
  assumes "content (fr_r r) = encode_frame flag payload @ rest"
    and "fits (fr_maxPayloadSize r) payload"
  shows "\<exists>s'. ReadFrame read r = Some ((flag, payload, None), r\<lparr>fr_r := s'\<rparr>) \<and>
    content s' = rest \<and> fin s' = fin (fr_r r)"
  using ReadFrame_decode [of r] decode_encode_frame [OF assms(2)] assms(1) by simp

lemma ReadFrame_end:
  assumes "content (fr_r r) = []"
  shows "\<exists>s'. ReadFrame read r =
      Some ((0, [], Some (if fin (fr_r r) = EOF then EOF else ErrUnexpectedEOF)), r\<lparr>fr_r := s'\<rparr>)
    \<and> content s' = [] \<and> fin s' = fin (fr_r r)"
  using ReadFrame_decode [of r] assms by (auto simp: decode_frame_def)

lemma read_frames_encoded:
  assumes "content (fr_r r) = encode_frames fs" and "fin (fr_r r) = EOF"
    and "\<forall>(flag, payload) \<in> set fs. fits (fr_maxPayloadSize r) payload"
    and "length fs < n"
  shows "read_frames n read r =
    Some (map (\<lambda>(flag, payload). (flag, payload, None)) fs @ [(0, [], Some EOF)])"
  using assms
proof (induction fs arbitrary: n r)
  case Nil
  then obtain m where n: "n = Suc m" by (cases n) auto
  from ReadFrame_end [of r] Nil(1,2) obtain s' where
    "ReadFrame read r = Some ((0, [], Some EOF), r\<lparr>fr_r := s'\<rparr>)" by auto
  with n show ?case by simp
next
  case (Cons f fs)
  obtain flag payload where f: "f = (flag, payload)" by (cases f)
  from Cons.prems(4) obtain m where n: "n = Suc m" "length fs < m" by (cases n) auto
  from Cons.prems(1) f have c: "content (fr_r r) = encode_frame flag payload @ encode_frames fs"
    by simp
  from Cons.prems(3) f have "fits (fr_maxPayloadSize r) payload" by simp
  from ReadFrame_encoded [OF c this] obtain s' where s':
    "ReadFrame read r = Some ((flag, payload, None), r\<lparr>fr_r := s'\<rparr>)"
    "content s' = encode_frames fs" "fin s' = fin (fr_r r)" by blast
  have "read_frames m read (r\<lparr>fr_r := s'\<rparr>) =
      Some (map (\<lambda>(flag, payload). (flag, payload, None)) fs @ [(0, [], Some EOF)])"
    using Cons.prems(2,3) s' n(2) by (intro Cons.IH) auto
  with s'(1) n(1) f show ?case by simp
qed

end

context traced_reader
begin

text \<open>\<open>ReadFrame\<close> keeps what every read keeps; it fails where a read failed, or refuses a size.\<close>

lemma ReadFrame_keeps:
  assumes "ReadFrame read r = Some ((flag, payload, e), r')" and "keeps [] (fr_r r)"
  shows "case e of
      None \<Rightarrow> \<exists>header. length header = 5 \<and> keeps (header @ payload) (fr_r r')
    | Some x \<Rightarrow> stopped (fr_r r') \<or> (\<exists>c len. keeps c (fr_r r') \<and> x = size_error len (fr_maxPayloadSize r))"
proof -
  obtain header err s1 where h: "ReadFull read headerSize (fr_r r) = Some ((header, err), s1)"
    using assms(1) by (auto simp: ReadFrame_def split: option.splits)
  note first = ReadFull_keeps [OF h assms(2)]
  show ?thesis
  proof (cases err)
    case (Some z)
    with first assms(1) h show ?thesis
      by (auto simp: ReadFrame_def Let_def split: if_splits)
  next
    case None
    let ?len = "Uint32 (drop 1 header)"
    from None first have P1: "keeps header s1" "length header = 5" by (simp_all add: headerSize_def)
    show ?thesis
    proof (cases "(0 < fr_maxPayloadSize r \<and> fr_maxPayloadSize r < uint ?len) \<or> ?len = 0")
      case True
      with assms(1) h None P1 show ?thesis
        by (auto simp: ReadFrame_def Let_def split: if_splits intro!: exI [of _ header])
    next
      case False
      with assms(1) h None obtain out err' s2 where p: "ReadFull read (unat ?len) s1 = Some ((out, err'), s2)"
        by (auto simp: ReadFrame_def Let_def split: option.splits)
      from ReadFull_keeps [OF p P1(1)] assms(1) h None False p P1(2) show ?thesis
        by (auto simp: ReadFrame_def Let_def split: option.splits intro!: exI [of _ header])
    qed
  qed
qed

end

context io_writer
begin

lemma WriteFrame_ok:
  assumes "WriteFrame wr flag payload s = (None, s')"
  shows "written s' = written s @ encode_frame flag payload"
proof -
  obtain n e s1 where w: "wr (frame_header flag payload) s = ((n, e), s1)" by (metis surj_pair)
  from assms w have e: "e = None" by (cases e) (auto simp: WriteFrame_def)
  from write_ok w e have s1: "written s1 = written s @ frame_header flag payload" by blast
  obtain n' e' s2 where w': "wr payload s1 = ((n', e'), s2)" by (metis surj_pair)
  from assms w w' e s1 write_ok [of payload s1 n' s2] show ?thesis
    by (auto simp: WriteFrame_def encode_frame_def split: if_splits)
qed

text \<open>A failed write leaves a prefix of the one frame on the wire.\<close>

lemma WriteFrame_err:
  assumes "WriteFrame wr flag payload s = (Some e, s')"
  shows "\<exists>n. written s' = written s @ take n (encode_frame flag payload)"
proof -
  obtain n x s1 where w: "wr (frame_header flag payload) s = ((n, x), s1)" by (metis surj_pair)
  show ?thesis
  proof (cases x)
    case None
    with write_ok w have s1: "written s1 = written s @ frame_header flag payload" by blast
    obtain n' e' s2 where w': "wr payload s1 = ((n', e'), s2)" by (metis surj_pair)
    from assms w w' None have "s' = s2" by (auto simp: WriteFrame_def split: if_splits)
    with write_prefix [OF w'] s1
    have "written s' = written s @ take (5 + n') (encode_frame flag payload)"
      by (simp add: encode_frame_def)
    then show ?thesis ..
  next
    case (Some y)
    with assms w have "s' = s1" by (auto simp: WriteFrame_def)
    with write_err [of "frame_header flag payload" s n y s1] w Some
    have "written s' = written s @ take n (encode_frame flag payload)"
      by (simp add: encode_frame_def)
    then show ?thesis ..
  qed
qed

lemma write_frames_ok:
  "write_frames wr fs s = (None, s') \<Longrightarrow> written s' = written s @ encode_frames fs"
proof (induction fs arbitrary: s)
  case Nil
  then show ?case by simp
next
  case (Cons f fs)
  obtain flag payload where f: "f = (flag, payload)" by (cases f)
  obtain e s1 where w: "WriteFrame wr flag payload s = (e, s1)" by (metis surj_pair)
  from Cons.prems f w have e: "e = None" by (cases e) auto
  with Cons.prems f w have "write_frames wr fs s1 = (None, s')" by simp
  with Cons.IH WriteFrame_ok w e f show ?case by simp
qed

end

end
