(* ===== verification/Limit_Reader.thy ===== *)
theory Limit_Reader
  imports Go_IO
begin

text \<open>
  reader.go: \<open>LimitReader\<close>, which fails a read once more than the limit has been
  delivered. Its counters are \<open>int64\<close>, kept at their width. The wrapper is shown to
  meet the contract of a reader over any reader that does, with the content cut one byte
  after the limit.
\<close>

record 's LimitReader =
  l_r :: 's
  l_remain :: int64
  l_max :: int64

definition NewLimitReader :: "'s \<Rightarrow> int64 \<Rightarrow> 's LimitReader" where
  "NewLimitReader r n = \<lparr>l_r = r, l_remain = n + 1, l_max = n\<rparr>"

definition LimitReader_Read :: "'s read_fn \<Rightarrow> 's LimitReader read_fn" where
  "LimitReader_Read read k l =
     (if sint (l_remain l) \<le> 0 then (([], Some (DataLimitExceeded (l_max l))), l)
      else
        (let k' = (if sint (l_remain l) < int k then nat (sint (l_remain l)) else k) in
         case read k' (l_r l) of ((b, err), r') \<Rightarrow>
           ((b, err), l\<lparr>l_r := r', l_remain := l_remain l - word_of_nat (length b)\<rparr>)))"

definition LimitReader_Close :: "('s \<Rightarrow> 's) \<Rightarrow> 's LimitReader \<Rightarrow> 's LimitReader" where
  "LimitReader_Close close l = l\<lparr>l_r := close (l_r l)\<rparr>"

section \<open>Lemmas\<close>

text \<open>What the wrapper delivers in all, and the error it ends with.\<close>

definition lim_content :: "('s \<Rightarrow> bytes) \<Rightarrow> 's LimitReader \<Rightarrow> bytes" where
  "lim_content content l = take (nat (sint (l_remain l))) (content (l_r l))"

definition lim_fin ::
  "('s \<Rightarrow> bytes) \<Rightarrow> ('s \<Rightarrow> error) \<Rightarrow> ('s \<Rightarrow> bool) \<Rightarrow> 's LimitReader \<Rightarrow> error" where
  "lim_fin content fin attached l =
     (let n = int (length (content (l_r l))); k = sint (l_remain l) in
      if 0 < k \<and> (n < k \<or> n = k \<and> attached (l_r l)) then fin (l_r l)
      else DataLimitExceeded (l_max l))"

lemma sint_minus_length:
  assumes "0 < sint (w :: int64)" and "int n \<le> sint w"
  shows "sint (w - word_of_nat n) = sint w - int n"
proof -
  have r: "int n < 2 ^ 63" using assms sint_int64_range [of w] by linarith
  then have n: "sint (word_of_nat n :: int64) = int n"
    using sint_of_int64 [of "int n"] by simp
  have "sint (w - word_of_nat n) = sint w - sint (word_of_nat n :: int64)"
    using assms r sint_int64_range [of w] by (intro sint_diff_int64) (simp_all add: n)
  then show ?thesis by (simp add: n)
qed

context eager_reader
begin

lemma LimitReader_more:
  assumes "0 < k" and "LimitReader_Read read k l = ((b, None), l')"
  shows "lim_content content l = b @ lim_content content l' \<and>
    lim_fin content fin attached l' = lim_fin content fin attached l \<and>
    rank (l_r l') < rank (l_r l) \<and> length b \<le> k"
proof -
  let ?R = "sint (l_remain l)"
  from assms(2) have R: "0 < ?R" by (auto simp: LimitReader_Read_def split: if_splits)
  define k' where "k' = (if ?R < int k then nat ?R else k)"
  have k': "0 < k'" "int k' \<le> ?R" "k' \<le> k" using R assms(1) by (auto simp: k'_def)
  obtain r' where r: "read k' (l_r l) = ((b, None), r')"
    and l': "l' = l\<lparr>l_r := r', l_remain := l_remain l - word_of_nat (length b)\<rparr>"
    using assms(2) R
    by (auto simp: LimitReader_Read_def k'_def Let_def split: prod.splits)
  from read_more [OF k'(1) r] attached_more [OF k'(1) r] k' R
  have c: "content (l_r l) = b @ content r'" "fin r' = fin (l_r l)" "rank r' < rank (l_r l)"
    "length b \<le> k'" "attached r' = attached (l_r l)" "attached (l_r l) \<Longrightarrow> content r' \<noteq> []"
    by auto
  have b: "int (length b) \<le> ?R" using c(4) k'(2) by linarith
  have R': "sint (l_remain l') = ?R - int (length b)"
    using sint_minus_length [OF R b] by (simp add: l')
  have "nat ?R = length b + nat (sint (l_remain l'))" using b R' by linarith
  then have "lim_content content l = b @ lim_content content l'"
    by (simp add: lim_content_def c(1) l')
  moreover have "lim_fin content fin attached l' = lim_fin content fin attached l"
    using R R' b c by (auto simp: lim_fin_def Let_def l')
  ultimately show ?thesis using c k' by (simp add: l')
qed

lemma LimitReader_last:
  assumes "0 < k" and "LimitReader_Read read k l = ((b, Some e), l')"
  shows "lim_content content l = b \<and> e = lim_fin content fin attached l \<and> length b \<le> k"
proof (cases "0 < sint (l_remain l)")
  case False
  with assms show ?thesis by (auto simp: LimitReader_Read_def lim_content_def lim_fin_def)
next
  case R: True
  let ?R = "sint (l_remain l)"
  define k' where "k' = (if ?R < int k then nat ?R else k)"
  have k': "0 < k'" "int k' \<le> ?R" "k' \<le> k" using R assms(1) by (auto simp: k'_def)
  obtain r' where r: "read k' (l_r l) = ((b, Some e), r')"
    using assms(2) R
    by (auto simp: LimitReader_Read_def k'_def Let_def split: prod.splits)
  from read_last [OF k'(1) r] have c: "content (l_r l) = b" "e = fin (l_r l)" "length b \<le> k'"
    by auto
  have b: "int (length b) \<le> ?R" using c(3) k'(2) by linarith
  have att: "int (length b) = ?R \<Longrightarrow> attached (l_r l)"
    using attached_last [OF k'(1) r] R by (cases b) auto
  have "lim_content content l = b" using b R by (simp add: lim_content_def c(1))
  moreover have "e = lim_fin content fin attached l"
    using R b att by (auto simp: lim_fin_def Let_def c)
  ultimately show ?thesis using c(3) k'(3) by simp
qed

end

sublocale eager_reader \<subseteq> lim: io_reader "LimitReader_Read read" "lim_content content"
  "lim_fin content fin attached" "\<lambda>l. rank (l_r l)"
  by unfold_locales (use LimitReader_more LimitReader_last in blast)+

end
