(* ===== verification/Http.thy ===== *)
theory Http
  imports Frames Limit_Reader
begin

text \<open>
  What the sources use of net/http: headers, requests as a handler sees them, the
  \<open>http.ResponseWriter\<close> (status committed once, headers sent as they stand at that
  moment, body bytes, flushing) and responses as a client sees them; and the encoders of the
  two protobuf packages, which are third-party code and so arguments of the model.
\<close>

section \<open>Headers\<close>

text \<open>\<open>textproto.CanonicalMIMEHeaderKey\<close>: a name with a byte that no token has is kept.\<close>

definition upper_char :: "char \<Rightarrow> char" where
  "upper_char c =
     (let n = (of_char c :: nat) in if 97 \<le> n \<and> n \<le> 122 then char_of (n - 32) else c)"

definition token_char :: "char \<Rightarrow> bool" where
  "token_char c = (let n = (of_char c :: nat) in
     (48 \<le> n \<and> n \<le> 57) \<or> (65 \<le> n \<and> n \<le> 90) \<or> (97 \<le> n \<and> n \<le> 122) \<or>
     n \<in> {33, 35, 36, 37, 38, 39, 42, 43, 45, 46, 94, 95, 96, 124, 126})"

fun canon_case :: "bool \<Rightarrow> string \<Rightarrow> string" where
  "canon_case up [] = []"
| "canon_case up (c # s) =
     (if up then upper_char c else lower_char c) # canon_case (c = CHR ''-'') s"

definition CanonicalHeaderKey :: "string \<Rightarrow> string" where
  "CanonicalHeaderKey s = (if list_all token_char s then canon_case True s else s)"

type_synonym header = "string \<rightharpoonup> string list"

definition hget :: "header \<Rightarrow> string \<Rightarrow> string" where
  "hget h k = (case h (CanonicalHeaderKey k) of Some (v # _) \<Rightarrow> v | _ \<Rightarrow> [])"

definition hset :: "header \<Rightarrow> string \<Rightarrow> string \<Rightarrow> header" where
  "hset h k v = h(CanonicalHeaderKey k \<mapsto> [v])"

section \<open>Requests, responses\<close>

record request =
  req_method :: string
  req_url :: string
  req_path :: string
  req_header :: header
  req_body :: source

record response =
  resp_StatusCode :: int
  resp_Status :: string
  resp_header :: header
  resp_body :: source

section \<open>ResponseWriter\<close>

text \<open>
  \<open>rw_fault i\<close> says how the \<open>i\<close>-th call of \<open>Write\<close> ends: \<open>None\<close> is
  success, \<open>Some (n, e)\<close> is the error \<open>e\<close> after \<open>n\<close> bytes.
  \<open>rw_flusher\<close> says whether the value implements \<open>http.Flusher\<close>.
\<close>

record rw =
  rw_header :: header
  rw_status :: "int option"
  rw_sent :: header
  rw_body :: bytes
  rw_flushed :: nat
  rw_writes :: nat
  rw_flusher :: bool
  rw_fault :: "nat \<Rightarrow> (nat \<times> error) option"

definition rw_SetHeader :: "string \<Rightarrow> string \<Rightarrow> rw \<Rightarrow> rw" where
  "rw_SetHeader k v w = w\<lparr>rw_header := hset (rw_header w) k v\<rparr>"

text \<open>
  The first final status wins; an informational status commits nothing. Two things net/http does
  with unusual codes are left out: \<open>WriteHeader\<close> panics on a code below 100 or above 999, and a body
  under the status 204 or 304 is refused.
\<close>

definition rw_WriteHeader :: "int \<Rightarrow> rw \<Rightarrow> rw" where
  "rw_WriteHeader code w =
     (if rw_status w = None \<and> \<not> (100 \<le> code \<and> code \<le> 199 \<and> code \<noteq> 101)
      then w\<lparr>rw_status := Some code, rw_sent := rw_header w\<rparr> else w)"

definition rw_Write :: "rw write_fn" where
  "rw_Write b w =
     (let w1 = rw_WriteHeader 200 w in
      case rw_fault w (rw_writes w) of
        None \<Rightarrow> ((length b, None), w1\<lparr>rw_body := rw_body w @ b, rw_writes := Suc (rw_writes w)\<rparr>)
      | Some (n, e) \<Rightarrow>
          ((min n (length b), Some e),
           w1\<lparr>rw_body := rw_body w @ take n b, rw_writes := Suc (rw_writes w)\<rparr>))"

definition rw_Flush :: "rw \<Rightarrow> rw" where
  "rw_Flush w = (rw_WriteHeader 200 w)\<lparr>rw_flushed := length (rw_body w)\<rparr>"

text \<open>When the handler returns, the server commits a 200 if nothing was committed.\<close>

definition rw_finish :: "rw \<Rightarrow> rw" where
  "rw_finish w = rw_WriteHeader 200 w"

definition new_rw :: "bool \<Rightarrow> rw" where
  "new_rw flusher = \<lparr>rw_header = Map.empty, rw_status = None, rw_sent = Map.empty, rw_body = [],
     rw_flushed = 0, rw_writes = 0, rw_flusher = flusher, rw_fault = (\<lambda>_. None)\<rparr>"

section \<open>Encoders\<close>

text \<open>
  \<open>proto.Message\<close> values: the application's messages (any type \<open>'m\<close>) and
  \<open>v1.Reply\<close>. \<open>protojson\<close> and \<open>proto\<close> are two codecs; decoding is into a
  message of the type the caller passes and resets it first.
\<close>

datatype 'm message = App 'm | Rep reply

record 'm codec =
  marshal_app :: "'m \<Rightarrow> error + bytes"
  marshal_reply :: "reply \<Rightarrow> error + bytes"
  unmarshal_app :: "bytes \<Rightarrow> error + 'm"
  unmarshal_reply :: "bytes \<Rightarrow> error + reply"

fun marshal :: "'m codec \<Rightarrow> 'm message \<Rightarrow> error + bytes" where
  "marshal c (App m) = marshal_app c m"
| "marshal c (Rep r) = marshal_reply c r"

text \<open>Everything the model is parametric in.\<close>

record 'm lib =
  lib_uni :: unicode
  lib_json :: "'m codec"
  lib_proto :: "'m codec"
  lib_room :: "nat \<Rightarrow> nat"

section \<open>Lemmas\<close>

lemma hget_hset_same [simp]: "hget (hset h k v) k = v"
  by (simp add: hget_def hset_def)

lemma hget_hset_other [http_simps]:
  "CanonicalHeaderKey k \<noteq> CanonicalHeaderKey k' \<Longrightarrow> hget (hset h k v) k' = hget h k'"
  by (simp add: hget_def hset_def)

lemma hget_empty [simp]: "hget Map.empty k = []"
  by (simp add: hget_def)

lemma rw_WriteHeader_simps [simp]:
  "rw_header (rw_WriteHeader c w) = rw_header w"
  "rw_body (rw_WriteHeader c w) = rw_body w"
  "rw_flushed (rw_WriteHeader c w) = rw_flushed w"
  "rw_writes (rw_WriteHeader c w) = rw_writes w"
  "rw_flusher (rw_WriteHeader c w) = rw_flusher w"
  "rw_fault (rw_WriteHeader c w) = rw_fault w"
  by (simp_all add: rw_WriteHeader_def)

lemma rw_WriteHeader_committed [simp]:
  "rw_status w = Some c \<Longrightarrow> rw_WriteHeader c' w = w"
  by (simp add: rw_WriteHeader_def)

lemma rw_SetHeader_simps [simp]:
  "rw_header (rw_SetHeader k v w) = hset (rw_header w) k v"
  "rw_status (rw_SetHeader k v w) = rw_status w"
  "rw_sent (rw_SetHeader k v w) = rw_sent w"
  "rw_body (rw_SetHeader k v w) = rw_body w"
  "rw_flushed (rw_SetHeader k v w) = rw_flushed w"
  "rw_writes (rw_SetHeader k v w) = rw_writes w"
  "rw_flusher (rw_SetHeader k v w) = rw_flusher w"
  "rw_fault (rw_SetHeader k v w) = rw_fault w"
  by (simp_all add: rw_SetHeader_def)

lemma rw_Flush_simps [simp]:
  "rw_header (rw_Flush w) = rw_header w"
  "rw_body (rw_Flush w) = rw_body w"
  "rw_flushed (rw_Flush w) = length (rw_body w)"
  "rw_writes (rw_Flush w) = rw_writes w"
  "rw_flusher (rw_Flush w) = rw_flusher w"
  "rw_fault (rw_Flush w) = rw_fault w"
  by (simp_all add: rw_Flush_def)

lemma rw_Flush_status [simp]:
  "rw_status (rw_Flush w) = (case rw_status w of None \<Rightarrow> Some 200 | Some c \<Rightarrow> Some c)"
  by (auto simp: rw_Flush_def rw_WriteHeader_def split: option.splits)

lemma rw_Flush_sent: "rw_status w = Some c \<Longrightarrow> rw_sent (rw_Flush w) = rw_sent w"
  by (simp add: rw_Flush_def)

lemma rw_Write_ok:
  "rw_fault w = (\<lambda>_. None) \<Longrightarrow> rw_Write b w =
     ((length b, None), (rw_WriteHeader 200 w)\<lparr>rw_body := rw_body w @ b, rw_writes := Suc (rw_writes w)\<rparr>)"
  by (simp add: rw_Write_def Let_def)

lemma rw_Write_frame:
  assumes "rw_Write b w = ((n, e), w')"
  shows "rw_header w' = rw_header w" and "rw_flusher w' = rw_flusher w"
    and "rw_fault w' = rw_fault w"
    and "rw_status w' = (case rw_status w of None \<Rightarrow> Some 200 | Some c \<Rightarrow> Some c)"
    and "rw_sent w' = (case rw_status w of None \<Rightarrow> rw_header w | Some c \<Rightarrow> rw_sent w)"
  using assms
  by (auto simp: rw_Write_def Let_def rw_WriteHeader_def
      split: option.splits prod.splits if_splits)

interpretation rw: io_writer rw_Write rw_body
  by unfold_locales
    (auto simp: rw_Write_def Let_def min_def split: option.splits prod.splits if_splits)

text \<open>
  A response writer as net/http hands it to a handler, on a connection that does not fail.
\<close>

definition fresh :: "rw \<Rightarrow> bool" where
  "fresh w \<longleftrightarrow> rw_status w = None \<and> rw_body w = [] \<and> rw_flushed w = 0 \<and> rw_fault w = (\<lambda>_. None)"

text \<open>On a connection that does not fail every frame is written.\<close>

lemma WriteFrame_no_fault:
  assumes "rw_fault w = (\<lambda>_. None)"
  shows "fst (WriteFrame rw_Write flag payload w) = None \<and>
    rw_fault (snd (WriteFrame rw_Write flag payload w)) = (\<lambda>_. None)"
  using assms by (simp add: WriteFrame_def rw_Write_ok)

lemma write_frames_no_fault:
  assumes "rw_fault w = (\<lambda>_. None)"
  shows "\<exists>w'. write_frames rw_Write fs w = (None, w') \<and> rw_body w' = rw_body w @ encode_frames fs"
proof -
  have "fst (write_frames rw_Write fs w) = None"
    using assms
  proof (induction fs arbitrary: w)
    case (Cons f fs)
    obtain flag payload where f: "f = (flag, payload)" by (cases f)
    obtain e w1 where w1: "WriteFrame rw_Write flag payload w = (e, w1)" by force
    from WriteFrame_no_fault [OF Cons.prems, of flag payload] w1
    have "e = None" "rw_fault w1 = (\<lambda>_. None)" by simp_all
    with Cons.IH w1 f show ?case by simp
  qed simp
  then obtain w' where w': "write_frames rw_Write fs w = (None, w')" by (metis prod.collapse)
  with rw.write_frames_ok [OF w'] show ?thesis by simp
qed

end
