(* ===== verification/Service.thy ===== *)
theory Service
  imports Http
begin

text \<open>
  service.go: reading structured and raw requests, content negotiation and replies, raw
  content responses, and the \<open>BytesWriter\<close> of unstructured responses.

  \<open>Reply\<close> calls itself again when encoding fails, and would do so for ever if the
  encoding of the replacement reply failed too, so it is a partial function: \<open>None\<close>
  means that it does not return.
\<close>

definition ContentTypeProtoBuf :: string where "ContentTypeProtoBuf = ''application/protobuf''"
definition ContentTypeJSON :: string where "ContentTypeJSON = ''application/json''"
definition ContentOctetStream :: string where "ContentOctetStream = ''application/octet-stream''"
definition ContentStreamJSON :: string where "ContentStreamJSON = ''application/duh-stream+json''"
definition ContentStreamProtoBuf :: string where
  "ContentStreamProtoBuf = ''application/duh-stream+protobuf''"
definition HeaderDUHVersion :: string where "HeaderDUHVersion = ''X-DUH-Version''"
definition DUHVersion :: string where "DUHVersion = ''2.0''"
definition SupportedMimeTypes :: "string list" where
  "SupportedMimeTypes = [ContentTypeJSON, ContentTypeProtoBuf]"

lemmas content_types = ContentTypeProtoBuf_def ContentTypeJSON_def ContentOctetStream_def
  ContentStreamJSON_def ContentStreamProtoBuf_def
lemmas header_consts = HeaderDUHVersion_def DUHVersion_def

text \<open>The first case of the media-type switches of \<open>ReadRequest\<close> and \<open>Reply\<close>.\<close>

definition json_types :: "string list" where
  "json_types = ['''', ''*/*'', ''application/*'', ContentTypeJSON]"

section \<open>Reading requests\<close>

text \<open>
  The part \<open>ReadRequest\<close> and \<open>ReadContent\<close> share: copy the body, through a limit
  if one is given, then close it.
\<close>

definition read_body ::
  "(nat \<Rightarrow> nat) \<Rightarrow> source \<Rightarrow> int64 \<Rightarrow> ((bytes \<times> error option) \<times> source) option" where
  "read_body room body limit =
     (if 0 < sint limit
      then map_option (\<lambda>(res, l). (res, l_r (LimitReader_Close src_close l)))
             (ReadFrom room (LimitReader_Read src_read) [] (NewLimitReader body limit))
      else map_option (\<lambda>(res, s). (res, src_close s)) (ReadFrom room src_read [] body))"

definition body_error :: "error \<Rightarrow> error" where
  "body_error err =
     (case As_Error err of
        Some e \<Rightarrow> NewServiceError (duh_HTTPCode e) (''request body '' @ duh_Message e) None None
      | None \<Rightarrow> NewServiceError CodeInternalError '''' (Some err) None)"

definition ReadRequest ::
  "'m lib \<Rightarrow> request \<Rightarrow> int64 \<Rightarrow> ((error + 'm) \<times> request) option" where
  "ReadRequest lib r limit =
     (case read_body (lib_room lib) (req_body r) limit of
        None \<Rightarrow> None
      | Some ((b, err), s) \<Rightarrow>
          (let r' = r\<lparr>req_body := s\<rparr>;
               ct = hget (req_header r) ''Content-Type'';
               mt = normalizeMediaType (lib_uni lib) ct in
           case err of
             Some e \<Rightarrow> Some (Inl (body_error e), r')
           | None \<Rightarrow>
               (if mt \<in> set json_types then
                  (case unmarshal_app (lib_json lib) b of
                     Inl e \<Rightarrow> Some (Inl (NewServiceError CodeClientContentError '''' (Some e) None), r')
                   | Inr m \<Rightarrow> Some (Inr m, r'))
                else if mt = ContentTypeProtoBuf then
                  (case unmarshal_app (lib_proto lib) b of
                     Inl e \<Rightarrow> Some (Inl (NewServiceError CodeClientContentError '''' (Some e) None), r')
                   | Inr m \<Rightarrow> Some (Inr m, r'))
                else
                  Some (Inl (NewServiceError CodeClientContentError ''''
                    (Some (ErrText (''Content-Type header '' @ [CHR 0x27] @ ct @ [CHR 0x27] @
                      '' is invalid format or unrecognized content type''))) None), r'))))"

definition ReadContent ::
  "'m lib \<Rightarrow> request \<Rightarrow> int64 \<Rightarrow> ((error + bytes \<times> string) \<times> request) option" where
  "ReadContent lib r limit =
     (case read_body (lib_room lib) (req_body r) limit of
        None \<Rightarrow> None
      | Some ((b, err), s) \<Rightarrow>
          (let r' = r\<lparr>req_body := s\<rparr> in
           case err of
             Some e \<Rightarrow> Some (Inl (body_error e), r')
           | None \<Rightarrow> Some (Inr (b, hget (req_header r) ''Content-Type''), r')))"

section \<open>Replies\<close>

definition setServiceHeaders :: "rw \<Rightarrow> rw" where
  "setServiceHeaders w =
     rw_SetHeader ''X-Content-Type-Options'' ''nosniff'' (rw_SetHeader HeaderDUHVersion DUHVersion w)"

text \<open>The message that \<open>ReplyWithCode\<close> builds.\<close>

definition code_reply :: "int \<Rightarrow> details \<Rightarrow> string \<Rightarrow> 'm message" where
  "code_reply code details msg =
     Rep \<lparr>r_code = Itoa code, r_message = msg, r_details = details\<rparr>"

definition accept_message :: "string \<Rightarrow> string" where
  "accept_message mimeType =
     ''Accept header '' @ [CHR 0x27] @ mimeType @ [CHR 0x27] @ '' is invalid format '' @
     ''or unrecognized content type, only ['' @ Join SupportedMimeTypes '','' @
     ''] are supported by this method''"

definition send_reply :: "int \<Rightarrow> string \<Rightarrow> bytes \<Rightarrow> rw \<Rightarrow> rw" where
  "send_reply code contentType b w =
     snd (rw_Write b (rw_WriteHeader code
       (setServiceHeaders (rw_SetHeader ''Content-Type'' contentType w))))"

partial_function (option) Reply ::
  "'m lib \<Rightarrow> rw \<Rightarrow> request \<Rightarrow> int \<Rightarrow> 'm message \<Rightarrow> (rw \<times> request) option" where
  "Reply lib w r code resp =
     (let mimeType = normalizeMediaType (lib_uni lib) (hget (req_header r) ''Accept'') in
      if mimeType \<in> set json_types then
        (case marshal (lib_json lib) resp of
           Inl err \<Rightarrow> Reply lib w r CodeInternalError (code_reply CodeInternalError None (Error err))
         | Inr b \<Rightarrow> Some (send_reply code ContentTypeJSON b w, r))
      else if mimeType = ContentTypeProtoBuf then
        (case marshal (lib_proto lib) resp of
           Inl err \<Rightarrow> Reply lib w r CodeInternalError (code_reply CodeInternalError None (Error err))
         | Inr b \<Rightarrow> Some (send_reply code ContentTypeProtoBuf b w, r))
      else
        Reply lib w (r\<lparr>req_header := hset (req_header r) ''Accept'' ContentTypeJSON\<rparr>)
          CodeClientContentError
          (code_reply CodeClientContentError None (accept_message mimeType)))"

definition ReplyWithCode ::
  "'m lib \<Rightarrow> rw \<Rightarrow> request \<Rightarrow> int \<Rightarrow> details \<Rightarrow> string \<Rightarrow> (rw \<times> request) option" where
  "ReplyWithCode lib w r code details msg = Reply lib w r code (code_reply code details msg)"

definition ReplyError ::
  "'m lib \<Rightarrow> rw \<Rightarrow> request \<Rightarrow> error \<Rightarrow> (rw \<times> request) option" where
  "ReplyError lib w r err =
     (case As_Error err of
        Some re \<Rightarrow> Reply lib w r (duh_HTTPCode re) (Rep (duh_ProtoMessage re))
      | None \<Rightarrow> ReplyWithCode lib w r CodeInternalError None (Error err))"

definition ReplyContentError ::
  "'m lib \<Rightarrow> rw \<Rightarrow> request \<Rightarrow> error \<Rightarrow> (rw \<times> request) option" where
  "ReplyContentError lib w r err = ReplyError lib w r err"

definition WriteContent :: "rw \<Rightarrow> string \<Rightarrow> bytes \<Rightarrow> rw" where
  "WriteContent w contentType body =
     snd (rw_Write body (rw_WriteHeader CodeOK
       (setServiceHeaders (rw_SetHeader ''Content-Type'' contentType w))))"

section \<open>BytesWriter and HandleBytes\<close>

record bytesWriter =
  bw_w :: rw
  bw_flusher :: bool
  bw_wrote :: bool

definition bytesWriter_Write :: "bytesWriter write_fn" where
  "bytesWriter_Write p b =
     (let w1 = (if bw_wrote b then bw_w b else rw_WriteHeader CodeOK (bw_w b)) in
      case rw_Write p w1 of ((n, err), w2) \<Rightarrow>
        ((n, err), b\<lparr>bw_w := (if err = None \<and> bw_flusher b then rw_Flush w2 else w2),
                     bw_wrote := True\<rparr>))"

text \<open>
  A handler of \<open>HandleBytes\<close>: what it does through the \<open>BytesWriter\<close>, each step
  depending on the results before, and the error it returns.
\<close>

datatype bytes_prog =
    BReturn "error option"
  | BSetHeader string string bytes_prog
  | BWrite bytes "nat \<times> error option \<Rightarrow> bytes_prog"

primrec run_bytes :: "bytes_prog \<Rightarrow> bytesWriter \<Rightarrow> error option \<times> bytesWriter" where
  "run_bytes (BReturn e) b = (e, b)"
| "run_bytes (BSetHeader k v p) b = run_bytes p (b\<lparr>bw_w := rw_SetHeader k v (bw_w b)\<rparr>)"
| "run_bytes (BWrite bs p) b =
     (case bytesWriter_Write bs b of (res, b') \<Rightarrow> run_bytes (p res) b')"

definition HandleBytes ::
  "'m lib \<Rightarrow> rw \<Rightarrow> request \<Rightarrow> (request \<Rightarrow> bytes_prog) \<Rightarrow> (rw \<times> request) option" where
  "HandleBytes lib w r handler =
     (let w1 = setServiceHeaders (rw_SetHeader ''Content-Type'' ContentOctetStream w);
          bw = \<lparr>bw_w = w1, bw_flusher = rw_flusher w, bw_wrote = False\<rparr> in
      case run_bytes (handler r) bw of
        (Some err, bw') \<Rightarrow>
          (if \<not> bw_wrote bw' then ReplyError lib (bw_w bw') r err else Some (bw_w bw', r))
      | (None, bw') \<Rightarrow> Some (bw_w bw', r))"

section \<open>Lemmas: bodies and limits\<close>

text \<open>
  The error a limited body ends with, as a function of its content: the limit is \<open>n\<close>
  bytes; a body of exactly one byte more escapes when its end is reported with its last
  bytes.
\<close>

definition limit_verdict :: "source \<Rightarrow> int64 \<Rightarrow> error option" where
  "limit_verdict body limit =
     (let n = int (length (src_content body)); k = sint limit in
      if n \<le> k \<or> n = k + 1 \<and> src_attached body
      then (if src_err body = EOF then None else Some (src_err body))
      else Some (DataLimitExceeded limit))"

lemma NewLimitReader_remain:
  assumes "0 < sint limit" and "sint limit < 2 ^ 63 - 1"
  shows "sint (l_remain (NewLimitReader body limit)) = sint limit + 1"
  using assms sint_add_int64 [of limit 1] by (simp add: NewLimitReader_def)

lemma read_body_limited:
  assumes "0 < sint limit" and "sint limit < 2 ^ 63 - 1"
  shows "\<exists>s. read_body room body limit =
      Some ((take (nat (sint limit) + 1) (src_content body), limit_verdict body limit), s)
    \<and> src_closed s"
proof -
  let ?l = "NewLimitReader body limit"
  note R = NewLimitReader_remain [OF assms, of body]
  have lr: "l_r ?l = body" "l_max ?l = limit" by (simp_all add: NewLimitReader_def)
  have c: "lim_content src_content ?l = take (nat (sint limit) + 1) (src_content body)"
    using assms by (simp add: lim_content_def R lr nat_add_distrib)
  have f: "(if lim_fin src_content src_err src_attached ?l = EOF then None
      else Some (lim_fin src_content src_err src_attached ?l)) = limit_verdict body limit"
    using assms by (auto simp: lim_fin_def limit_verdict_def R lr Let_def)
  from src.lim.ReadFrom_all [of room "[]" ?l] obtain l' where
    "ReadFrom room (LimitReader_Read src_read) [] ?l =
      Some ((take (nat (sint limit) + 1) (src_content body), limit_verdict body limit), l')"
    by (auto simp: c f)
  with assms(1) show ?thesis
    by (simp add: read_body_def LimitReader_Close_def src_close_def)
qed

lemma read_body_unlimited:
  assumes "sint limit \<le> 0"
  shows "\<exists>s. read_body room body limit =
      Some ((src_content body, if src_err body = EOF then None else Some (src_err body)), s)
    \<and> src_closed s"
proof -
  from src.ReadFrom_all [of room "[]" body] obtain s where
    "ReadFrom room src_read [] body =
      Some ((src_content body, if src_err body = EOF then None else Some (src_err body)), s)"
    by auto
  with assms show ?thesis by (simp add: read_body_def src_close_def)
qed

text \<open>At the largest limit the counter starts below zero and every body is refused.\<close>

lemma read_body_max_int64:
  "\<exists>s. read_body room body (word_of_int (2 ^ 63 - 1)) =
      Some (([], Some (DataLimitExceeded (word_of_int (2 ^ 63 - 1)))), s) \<and> src_closed s"
proof -
  let ?m = "word_of_int (2 ^ 63 - 1) :: int64"
  let ?l = "NewLimitReader body ?m"
  have m: "sint ?m = 2 ^ 63 - 1" by (rule sint_of_int64) simp_all
  have R: "sint (l_remain ?l) \<le> 0" by (simp add: NewLimitReader_def)
  from src.lim.ReadFrom_all [of room "[]" ?l] R obtain l' where
    "ReadFrom room (LimitReader_Read src_read) [] ?l = Some (([], Some (DataLimitExceeded ?m)), l')"
    by (auto simp: lim_content_def lim_fin_def Let_def NewLimitReader_def)
  with m show ?thesis
    by (simp add: read_body_def LimitReader_Close_def src_close_def)
qed

text \<open>Reading a body always returns, with the body closed.\<close>

lemma read_body_returns: "\<exists>b e s. read_body room body limit = Some ((b, e), s) \<and> src_closed s"
proof -
  consider "sint limit \<le> 0" | "0 < sint limit" "sint limit < 2 ^ 63 - 1" | "sint limit = 2 ^ 63 - 1"
    using sint_int64_range [of limit] by linarith
  then show ?thesis
  proof cases
    case 1
    from read_body_unlimited [OF this, of room body] show ?thesis by blast
  next
    case 2
    from read_body_limited [OF this, of room body] show ?thesis by blast
  next
    case 3
    moreover have "sint (word_of_int (2 ^ 63 - 1) :: int64) = 2 ^ 63 - 1"
      by (rule sint_of_int64) simp_all
    ultimately have "limit = word_of_int (2 ^ 63 - 1)" by (intro signed_word_eqI) simp
    with read_body_max_int64 [of room body] show ?thesis by blast
  qed
qed

lemma ReadRequest_returns:
  "\<exists>res s. ReadRequest lib r limit = Some (res, r\<lparr>req_body := s\<rparr>) \<and> src_closed s"
proof -
  from read_body_returns [of "lib_room lib" "req_body r" limit] obtain b e s where
    "read_body (lib_room lib) (req_body r) limit = Some ((b, e), s)" "src_closed s" by blast
  then show ?thesis
    by (auto simp: ReadRequest_def Let_def split: option.splits sum.splits)
qed

lemma ReadContent_returns:
  "\<exists>res s. ReadContent lib r limit = Some (res, r\<lparr>req_body := s\<rparr>) \<and> src_closed s"
proof -
  from read_body_returns [of "lib_room lib" "req_body r" limit] obtain b e s where
    "read_body (lib_room lib) (req_body r) limit = Some ((b, e), s)" "src_closed s" by blast
  then show ?thesis by (auto simp: ReadContent_def Let_def split: option.splits)
qed

text \<open>The decoder a request's Content-Type selects.\<close>

definition request_codec :: "'m lib \<Rightarrow> request \<Rightarrow> 'm codec option" where
  "request_codec lib r =
     (let mt = normalizeMediaType (lib_uni lib) (hget (req_header r) ''Content-Type'') in
      if mt \<in> set json_types then Some (lib_json lib)
      else if mt = ContentTypeProtoBuf then Some (lib_proto lib) else None)"

text \<open>A body within the limit is handed to that decoder.\<close>

lemma ReadRequest_within:
  assumes "0 < sint limit" and "sint limit < 2 ^ 63 - 1" and "src_err (req_body r) = EOF"
    and "int (length (src_content (req_body r))) \<le> sint limit" and "request_codec lib r = Some c"
  shows "\<exists>s. ReadRequest lib r limit =
    Some (case unmarshal_app c (src_content (req_body r)) of
            Inl e \<Rightarrow> Inl (NewServiceError CodeClientContentError '''' (Some e) None)
          | Inr m \<Rightarrow> Inr m, r\<lparr>req_body := s\<rparr>)"
proof -
  have len: "length (src_content (req_body r)) \<le> nat (sint limit) + 1" using assms(4) by simp
  have "limit_verdict (req_body r) limit = None"
    using assms by (simp add: limit_verdict_def Let_def)
  with read_body_limited [OF assms(1,2), of "lib_room lib" "req_body r"] len obtain s where
    "read_body (lib_room lib) (req_body r) limit = Some ((src_content (req_body r), None), s)"
    by auto
  then show ?thesis using assms(5)
    by (auto simp: ReadRequest_def request_codec_def Let_def split: sum.splits if_splits)
qed

lemma body_error_limit:
  "body_error (DataLimitExceeded mx) =
    NewServiceError CodeBadRequest (''request body '' @ DataLimit_Message mx) None None"
  by (simp add: body_error_def)

section \<open>Lemmas: replies\<close>

lemma canonical_constants [simp]:
  "canonical_media ContentTypeJSON" "canonical_media ContentTypeProtoBuf"
  "canonical_media ContentOctetStream" "canonical_media ContentStreamJSON"
  "canonical_media ContentStreamProtoBuf"
  by (simp_all add: content_types canonical_media_def lower_char_def is_space_def)

lemma normalize_constants [simp]:
  "normalizeMediaType u ContentTypeJSON = ContentTypeJSON"
  "normalizeMediaType u ContentTypeProtoBuf = ContentTypeProtoBuf"
  "normalizeMediaType u ContentOctetStream = ContentOctetStream"
  "normalizeMediaType u ContentStreamJSON = ContentStreamJSON"
  "normalizeMediaType u ContentStreamProtoBuf = ContentStreamProtoBuf"
  by (simp_all add: normalizeMediaType_canonical)

lemma content_types_distinct [simp]:
  "ContentTypeJSON \<in> set json_types" "ContentTypeProtoBuf \<notin> set json_types"
  "ContentTypeProtoBuf \<noteq> ContentTypeJSON"
  by (simp_all add: json_types_def content_types)

lemma canonical_keys [http_simps]:
  "CanonicalHeaderKey ''Content-Type'' = ''Content-Type''"
  "CanonicalHeaderKey ''Accept'' = ''Accept''"
  "CanonicalHeaderKey ''X-Content-Type-Options'' = ''X-Content-Type-Options''"
  "CanonicalHeaderKey HeaderDUHVersion = ''X-Duh-Version''"
  "CanonicalHeaderKey ''Retry-After'' = ''Retry-After''"
  by code_simp+

text \<open>The headers every service response carries.\<close>

definition service_headers :: "header \<Rightarrow> bool" where
  "service_headers h \<longleftrightarrow>
     hget h HeaderDUHVersion = DUHVersion \<and> hget h ''X-Content-Type-Options'' = ''nosniff''"

lemma setServiceHeaders_simps [simp]:
  "rw_status (setServiceHeaders w) = rw_status w"
  "rw_body (setServiceHeaders w) = rw_body w"
  "rw_sent (setServiceHeaders w) = rw_sent w"
  "rw_writes (setServiceHeaders w) = rw_writes w"
  "rw_flusher (setServiceHeaders w) = rw_flusher w"
  "rw_fault (setServiceHeaders w) = rw_fault w"
  "rw_flushed (setServiceHeaders w) = rw_flushed w"
  by (simp_all add: setServiceHeaders_def)

lemma service_headers_set [simp]: "service_headers (rw_header (setServiceHeaders w))"
  by (simp add: service_headers_def setServiceHeaders_def http_simps)

lemma content_type_set [simp]:
  "hget (rw_header (setServiceHeaders w)) ''Content-Type'' = hget (rw_header w) ''Content-Type''"
  by (simp add: setServiceHeaders_def http_simps)

definition final_status :: "int \<Rightarrow> bool" where
  "final_status code \<longleftrightarrow> \<not> (100 \<le> code \<and> code \<le> 199 \<and> code \<noteq> 101)"

lemma send_reply_sent:
  assumes "rw_status w = None" and "final_status code"
  shows "rw_status (send_reply code ct b w) = Some code"
    and "service_headers (rw_sent (send_reply code ct b w))"
    and "hget (rw_sent (send_reply code ct b w)) ''Content-Type'' = ct"
proof -
  let ?w = "rw_WriteHeader code (setServiceHeaders (rw_SetHeader ''Content-Type'' ct w))"
  obtain n e w' where w: "rw_Write b ?w = ((n, e), w')" by (metis surj_pair)
  have st: "rw_status ?w = Some code"
    and sent: "rw_sent ?w = rw_header (setServiceHeaders (rw_SetHeader ''Content-Type'' ct w))"
    using assms by (simp_all add: rw_WriteHeader_def final_status_def)
  from rw_Write_frame(4,5) [OF w] st have "rw_status w' = Some code" "rw_sent w' = rw_sent ?w"
    by simp_all
  then show "rw_status (send_reply code ct b w) = Some code"
    "service_headers (rw_sent (send_reply code ct b w))"
    "hget (rw_sent (send_reply code ct b w)) ''Content-Type'' = ct"
    by (simp_all add: send_reply_def w sent)
qed

lemma send_reply_body:
  assumes "rw_fault w = (\<lambda>_. None)"
  shows "rw_body (send_reply code ct b w) = rw_body w @ b"
  using assms by (simp add: send_reply_def rw_Write_ok)

text \<open>One unfolding of \<open>Reply\<close> per branch.\<close>

definition accept_type :: "'m lib \<Rightarrow> request \<Rightarrow> string" where
  "accept_type lib r = normalizeMediaType (lib_uni lib) (hget (req_header r) ''Accept'')"

lemma Reply_json_ok:
  "accept_type lib r \<in> set json_types \<Longrightarrow> marshal (lib_json lib) resp = Inr b \<Longrightarrow>
    Reply lib w r code resp = Some (send_reply code ContentTypeJSON b w, r)"
  by (simp add: Reply.simps [of lib w r code resp] accept_type_def Let_def)

lemma Reply_proto_ok:
  "accept_type lib r = ContentTypeProtoBuf \<Longrightarrow> marshal (lib_proto lib) resp = Inr b \<Longrightarrow>
    Reply lib w r code resp = Some (send_reply code ContentTypeProtoBuf b w, r)"
  by (simp add: Reply.simps [of lib w r code resp] accept_type_def Let_def)

lemma Reply_json_err:
  "accept_type lib r \<in> set json_types \<Longrightarrow> marshal (lib_json lib) resp = Inl e \<Longrightarrow>
    Reply lib w r code resp =
      Reply lib w r CodeInternalError (code_reply CodeInternalError None (Error e))"
  by (simp add: Reply.simps [of lib w r code resp] accept_type_def Let_def)

lemma Reply_proto_err:
  "accept_type lib r = ContentTypeProtoBuf \<Longrightarrow> marshal (lib_proto lib) resp = Inl e \<Longrightarrow>
    Reply lib w r code resp =
      Reply lib w r CodeInternalError (code_reply CodeInternalError None (Error e))"
  by (simp add: Reply.simps [of lib w r code resp] accept_type_def Let_def)

definition accept_json :: "request \<Rightarrow> request" where
  "accept_json r = r\<lparr>req_header := hset (req_header r) ''Accept'' ContentTypeJSON\<rparr>"

lemma accept_type_json [simp]: "accept_type lib (accept_json r) = ContentTypeJSON"
  by (simp add: accept_type_def accept_json_def)

lemma Reply_unacceptable:
  "accept_type lib r \<notin> set json_types \<Longrightarrow> accept_type lib r \<noteq> ContentTypeProtoBuf \<Longrightarrow>
    Reply lib w r code resp =
      Reply lib w (accept_json r) CodeClientContentError
        (code_reply CodeClientContentError None (accept_message (accept_type lib r)))"
  by (simp add: Reply.simps [of lib w r code resp] accept_type_def accept_json_def Let_def)

text \<open>Whatever path a reply takes, what is committed is a service response.\<close>

lemma Reply_sent:
  assumes "Reply lib w r code resp = Some (w', r')" and "rw_status w = None"
    and "final_status code"
  shows "service_headers (rw_sent w') \<and>
    hget (rw_sent w') ''Content-Type'' \<in> {ContentTypeJSON, ContentTypeProtoBuf} \<and>
    rw_status w' \<in> Some ` {code, CodeInternalError, CodeClientContentError}"
proof -
  let ?P = "\<lambda>lib w r code resp (w', r'). rw_status w = None \<longrightarrow> final_status code \<longrightarrow>
    service_headers (rw_sent w') \<and>
    hget (rw_sent w') ''Content-Type'' \<in> {ContentTypeJSON, ContentTypeProtoBuf} \<and>
    rw_status w' \<in> Some ` {code, CodeInternalError, CodeClientContentError}"
  have fs: "final_status CodeInternalError" "final_status CodeClientContentError"
    by (simp_all add: final_status_def code_defs)
  have "?P lib w r code resp (w', r')"
  proof (rule Reply.raw_induct [where P = ?P, OF _ assms(1)], goal_cases)
    case (1 Reply' lib w r code resp y)
    obtain w1 r1 where y: "y = (w1, r1)" by (cases y)
    show ?case
      using 1(1) [of _ w] 1(2) fs send_reply_sent [of w code] unfolding y
      by (fastforce simp: Let_def split: if_splits sum.splits)
  qed
  then show ?thesis using assms(2,3) by simp
qed

section \<open>Lemmas: HandleBytes\<close>

text \<open>What a handler does when every write succeeds: whether it writes, what, and its result.\<close>

primrec bytes_writes :: "bytes_prog \<Rightarrow> bool" where
  "bytes_writes (BReturn e) = False"
| "bytes_writes (BSetHeader k v p) = bytes_writes p"
| "bytes_writes (BWrite bs p) = True"

primrec bytes_written :: "bytes_prog \<Rightarrow> bytes" where
  "bytes_written (BReturn e) = []"
| "bytes_written (BSetHeader k v p) = bytes_written p"
| "bytes_written (BWrite bs p) = bs @ bytes_written (p (length bs, None))"

primrec bytes_result :: "bytes_prog \<Rightarrow> error option" where
  "bytes_result (BReturn e) = e"
| "bytes_result (BSetHeader k v p) = bytes_result p"
| "bytes_result (BWrite bs p) = bytes_result (p (length bs, None))"

lemma bytesWriter_Write_ok:
  assumes "rw_fault (bw_w b) = (\<lambda>_. None)" and "bw_wrote b \<longleftrightarrow> rw_status (bw_w b) = Some 200"
    and "rw_status (bw_w b) \<in> {None, Some 200}"
  shows "\<exists>w'. bytesWriter_Write bs b = ((length bs, None), b\<lparr>bw_w := w', bw_wrote := True\<rparr>) \<and>
    rw_fault w' = (\<lambda>_. None) \<and> rw_status w' = Some 200 \<and> rw_body w' = rw_body (bw_w b) @ bs"
  using assms
  by (auto simp: bytesWriter_Write_def Let_def rw_Write_ok CodeOK_def rw_WriteHeader_def rw_Flush_def)

lemma run_bytes_ok:
  assumes "rw_fault (bw_w b) = (\<lambda>_. None)" and "bw_wrote b \<longleftrightarrow> rw_status (bw_w b) = Some 200"
    and "rw_status (bw_w b) \<in> {None, Some 200}"
  shows "\<exists>b'. run_bytes p b = (bytes_result p, b') \<and>
    (bw_wrote b' \<longleftrightarrow> bw_wrote b \<or> bytes_writes p) \<and>
    rw_status (bw_w b') = (if bw_wrote b' then Some 200 else None) \<and>
    rw_body (bw_w b') = rw_body (bw_w b) @ bytes_written p \<and> rw_fault (bw_w b') = (\<lambda>_. None)"
  using assms
proof (induction p arbitrary: b)
  case (BReturn e)
  then show ?case by auto
next
  case (BSetHeader k v p)
  have "\<exists>b'. run_bytes p (b\<lparr>bw_w := rw_SetHeader k v (bw_w b)\<rparr>) = (bytes_result p, b') \<and>
    (bw_wrote b' \<longleftrightarrow> bw_wrote (b\<lparr>bw_w := rw_SetHeader k v (bw_w b)\<rparr>) \<or> bytes_writes p) \<and>
    rw_status (bw_w b') = (if bw_wrote b' then Some 200 else None) \<and>
    rw_body (bw_w b') = rw_body (bw_w (b\<lparr>bw_w := rw_SetHeader k v (bw_w b)\<rparr>)) @ bytes_written p \<and>
    rw_fault (bw_w b') = (\<lambda>_. None)"
    using BSetHeader.prems by (intro BSetHeader.IH) simp_all
  then show ?case by simp
next
  case (BWrite bs p)
  from bytesWriter_Write_ok [OF BWrite.prems] obtain w' where w':
    "bytesWriter_Write bs b = ((length bs, None), b\<lparr>bw_w := w', bw_wrote := True\<rparr>)"
    "rw_fault w' = (\<lambda>_. None)" "rw_status w' = Some 200" "rw_body w' = rw_body (bw_w b) @ bs"
    by blast
  have "\<exists>b'. run_bytes (p (length bs, None)) (b\<lparr>bw_w := w', bw_wrote := True\<rparr>) =
      (bytes_result (p (length bs, None)), b') \<and>
    (bw_wrote b' \<longleftrightarrow> bw_wrote (b\<lparr>bw_w := w', bw_wrote := True\<rparr>) \<or> bytes_writes (p (length bs, None))) \<and>
    rw_status (bw_w b') = (if bw_wrote b' then Some 200 else None) \<and>
    rw_body (bw_w b') = rw_body (bw_w (b\<lparr>bw_w := w', bw_wrote := True\<rparr>)) @
      bytes_written (p (length bs, None)) \<and> rw_fault (bw_w b') = (\<lambda>_. None)"
    using w' by (intro BWrite.IH) auto
  with w' show ?case by auto
qed

lemma HandleBytes_cases:
  assumes "rw_status w = None" and "rw_fault w = (\<lambda>_. None)"
  shows "\<exists>w'. rw_body w' = rw_body w @ bytes_written (handler r) \<and> rw_fault w' = (\<lambda>_. None) \<and>
    rw_status w' = (if bytes_writes (handler r) then Some 200 else None) \<and>
    HandleBytes lib w r handler =
      (case bytes_result (handler r) of
         Some err \<Rightarrow> (if bytes_writes (handler r) then Some (w', r) else ReplyError lib w' r err)
       | None \<Rightarrow> Some (w', r))"
proof -
  let ?b = "\<lparr>bw_w = setServiceHeaders (rw_SetHeader ''Content-Type'' ContentOctetStream w),
    bw_flusher = rw_flusher w, bw_wrote = False\<rparr>"
  from run_bytes_ok [of ?b "handler r"] assms obtain b' where
    "run_bytes (handler r) ?b = (bytes_result (handler r), b')"
    "bw_wrote b' \<longleftrightarrow> bytes_writes (handler r)"
    "rw_status (bw_w b') = (if bytes_writes (handler r) then Some 200 else None)"
    "rw_body (bw_w b') = rw_body w @ bytes_written (handler r)" "rw_fault (bw_w b') = (\<lambda>_. None)"
    by auto
  then show ?thesis
    by (intro exI [of _ "bw_w b'"]) (auto simp: HandleBytes_def Let_def split: option.splits)
qed

end
