(* ===== verification/Sample.thy ===== *)
theory Sample
  imports Service
begin

text \<open>
  A small concrete instance of everything the model is parametric in, used to exhibit inputs
  at which the hypotheses of the properties hold: messages are strings, both codecs write a
  string as its bytes and a reply without details as code, zero byte, message.
\<close>

definition sample_unicode :: unicode where
  "sample_unicode = \<lparr>uni_lower = (\<lambda>s. s), uni_trim = (\<lambda>s. s)\<rparr>"

definition sample_marshal_reply :: "reply \<Rightarrow> error + bytes" where
  "sample_marshal_reply r =
     (case r_details r of
        Some _ \<Rightarrow> Inl (ErrText ''details'')
      | None \<Rightarrow>
          (if 0 \<in> set (bytes_of_string (r_code r)) then Inl (ErrText ''code'')
           else Inr (bytes_of_string (r_code r) @ [0] @ bytes_of_string (r_message r))))"

definition sample_unmarshal_reply :: "bytes \<Rightarrow> error + reply" where
  "sample_unmarshal_reply b =
     (if 0 \<in> set b
      then Inr \<lparr>r_code = string_of_bytes (takeWhile (\<lambda>x. x \<noteq> 0) b),
                r_message = string_of_bytes (tl (dropWhile (\<lambda>x. x \<noteq> 0) b)), r_details = None\<rparr>
      else Inl (ErrText ''no reply''))"

definition sample_codec :: "string codec" where
  "sample_codec =
     \<lparr>marshal_app = (\<lambda>s. Inr (bytes_of_string s)), marshal_reply = sample_marshal_reply,
      unmarshal_app = (\<lambda>b. Inr (string_of_bytes b)), unmarshal_reply = sample_unmarshal_reply\<rparr>"

definition sample_lib :: "string lib" where
  "sample_lib = \<lparr>lib_uni = sample_unicode, lib_json = sample_codec, lib_proto = sample_codec,
     lib_room = (\<lambda>_. 0)\<rparr>"

definition sample_source :: "bytes \<Rightarrow> source" where
  "sample_source b = \<lparr>src_chunks = [b], src_eager = True, src_err = EOF, src_closed = False\<rparr>"

definition sample_request :: "header \<Rightarrow> bytes \<Rightarrow> request" where
  "sample_request h b = \<lparr>req_method = ''POST'', req_url = ''http://localhost/v1/say.hello'',
     req_path = ''/v1/say.hello'', req_header = h, req_body = sample_source b\<rparr>"

lemma sample_lib_simps [simp]:
  "lib_json sample_lib = sample_codec" "lib_proto sample_lib = sample_codec"
  "lib_uni sample_lib = sample_unicode" "lib_room sample_lib = (\<lambda>_. 0)"
  by (simp_all add: sample_lib_def)

lemma sample_codec_simps [simp]:
  "marshal_app sample_codec s = Inr (bytes_of_string s)"
  "unmarshal_app sample_codec b = Inr (string_of_bytes b)"
  "marshal_reply sample_codec = sample_marshal_reply"
  "unmarshal_reply sample_codec = sample_unmarshal_reply"
  by (simp_all add: sample_codec_def)

lemma sample_source_simps [simp]:
  "src_content (sample_source b) = b" "src_err (sample_source b) = EOF"
  "src_attached (sample_source b) \<longleftrightarrow> b \<noteq> []"
  by (simp_all add: sample_source_def src_content_def src_attached_def)

lemma sample_request_simps [simp]:
  "req_header (sample_request h b) = h" "req_body (sample_request h b) = sample_source b"
  by (simp_all add: sample_request_def)

lemma sample_reply_roundtrip:
  assumes "sample_marshal_reply r = Inr b"
  shows "sample_unmarshal_reply b = Inr r"
proof -
  from assms have d: "r_details r = None" and z: "0 \<notin> set (bytes_of_string (r_code r))"
    and b: "b = bytes_of_string (r_code r) @ [0] @ bytes_of_string (r_message r)"
    by (auto simp: sample_marshal_reply_def split: option.splits if_splits)
  have t: "takeWhile (\<lambda>x. x \<noteq> 0) b = bytes_of_string (r_code r)"
    "dropWhile (\<lambda>x. x \<noteq> 0) b = 0 # bytes_of_string (r_message r)"
    using z unfolding b by (auto simp: takeWhile_append dropWhile_append)
  show ?thesis using d by (cases r) (simp add: sample_unmarshal_reply_def t, simp add: b)
qed

lemma sample_reply_error:
  "sample_marshal_reply r = Inl e \<Longrightarrow> e = ErrText ''details'' \<or> e = ErrText ''code''"
  by (auto simp: sample_marshal_reply_def split: option.splits if_splits)

end
