(* ===== verification/Wire_Properties.thy ===== *)
theory Wire_Properties
  imports Sample
begin

text \<open>
  Properties of the frame codec of stream/stream.go and of the body limits of reader.go, with
  concrete instances at which their hypotheses hold.
\<close>

section \<open>Frames\<close>

definition sample_frames :: "(byte \<times> bytes) list" where
  "sample_frames = [(FlagData, [1, 2]), (FlagHeartbeat, []), (FlagFinal, [3])]"

text \<open>C4: Frames written with WriteFrame on a connection that does not fail are read back by
  ReadFrame exactly, in order and then io.EOF, for every way the bytes are cut into chunks,
  as long as each payload fits the reader's limit and the 32-bit length field.\<close>

theorem frames_roundtrip:
  assumes "rw_fault w = (\<lambda>_. None)" and "rw_body w = []"
    and "\<forall>(flag, payload) \<in> set fs. fits mx payload"
    and "src_content s = rw_body (snd (write_frames rw_Write fs w))" and "src_err s = EOF"
    and "length fs < n"
  shows "fst (write_frames rw_Write fs w) = None \<and>
    read_frames n src_read (NewReader s mx) =
      Some (map (\<lambda>(flag, payload). (flag, payload, None)) fs @ [(0, [], Some EOF)])"
proof -
  from write_frames_no_fault [OF assms(1), of fs] obtain w' where
    w': "write_frames rw_Write fs w = (None, w')" "rw_body w' = encode_frames fs"
    using assms(2) by auto
  have "read_frames n src_read (NewReader s mx) =
      Some (map (\<lambda>(flag, payload). (flag, payload, None)) fs @ [(0, [], Some EOF)])"
    using assms w' by (intro src.read_frames_encoded) (auto simp: NewReader_def)
  with w' show ?thesis by simp
qed

theorem frames_roundtrip_witness:
  "read_frames 4 src_read (NewReader
     \<lparr>src_chunks = [[0, 0, 0], [0, 2, 1, 2, 3, 0, 0], [0, 0, 1, 0, 0, 0, 1, 3]], src_eager = True,
      src_err = EOF, src_closed = False\<rparr> 2) =
   Some [(FlagData, [1, 2], None), (FlagHeartbeat, [], None), (FlagFinal, [3], None), (0, [], Some EOF)]"
  using frames_roundtrip [of "new_rw True" sample_frames 2
     "\<lparr>src_chunks = [[0, 0, 0], [0, 2, 1, 2, 3, 0, 0], [0, 0, 1, 0, 0, 0, 1, 3]], src_eager = True,
      src_err = EOF, src_closed = False\<rparr>" 4]
  by (simp add: sample_frames_def new_rw_def src_content_def WriteFrame_def rw_Write_def Let_def
      frame_header_def PutUint32_def flag_defs fits_def)

text \<open>When WriteFrame reports an error, what reached the connection is a prefix of that one
  frame: earlier frames are intact and nothing of a later one was sent.\<close>

theorem WriteFrame_failure_prefix:
  assumes "WriteFrame rw_Write flag payload w = (Some e, w')"
  shows "\<exists>k \<le> 5 + length payload. rw_body w' = rw_body w @ take k (encode_frame flag payload)"
proof -
  from rw.WriteFrame_err [OF assms] obtain k where
    "rw_body w' = rw_body w @ take k (encode_frame flag payload)" ..
  then have "rw_body w' =
      rw_body w @ take (min k (5 + length payload)) (encode_frame flag payload)"
    by (simp add: min_def)
  then show ?thesis by (intro exI [of _ "min k (5 + length payload)"]) simp
qed

theorem WriteFrame_failure_prefix_witness:
  "\<exists>k \<le> 7. rw_body (snd (WriteFrame rw_Write FlagData [1, 2]
     ((new_rw True)\<lparr>rw_fault := (\<lambda>i. if i = 1 then Some (1, ErrText ''broken pipe'') else None)\<rparr>))) =
     take k (encode_frame FlagData [1, 2])"
  using WriteFrame_failure_prefix [of FlagData "[1, 2]"
     "(new_rw True)\<lparr>rw_fault := (\<lambda>i. if i = 1 then Some (1, ErrText ''broken pipe'') else None)\<rparr>"
     "ErrText ''broken pipe''"
     "snd (WriteFrame rw_Write FlagData [1, 2]
       ((new_rw True)\<lparr>rw_fault := (\<lambda>i. if i = 1 then Some (1, ErrText ''broken pipe'') else None)\<rparr>))"]
  by (simp add: new_rw_def WriteFrame_def rw_Write_def Let_def rw_WriteHeader_def)

text \<open>A body that ends inside a frame, after at least one byte of it, makes ReadFrame
  return io.ErrUnexpectedEOF and no data, wherever it is cut.\<close>

theorem ReadFrame_truncated:
  assumes "src_content s = take k (encode_frame flag payload)" and "0 < k"
    and "k < 5 + length payload" and "fits mx payload"
  shows "\<exists>r'. ReadFrame src_read (NewReader s mx) = Some ((0, [], Some ErrUnexpectedEOF), r')"
proof -
  let ?c = "take k (encode_frame flag payload)"
  have len: "length ?c = k" using assms(3) by simp
  have "fst (decode_frame mx (src_err s) ?c) = (0, [], Some ErrUnexpectedEOF)"
  proof (cases "k < 5")
    case True
    then show ?thesis using len assms(2) by (auto simp: decode_frame_def)
  next
    case False
    then have c: "?c = frame_header flag payload @ take (k - 5) payload"
      by (simp add: encode_frame_def)
    have "unat (word_of_nat (length payload) :: uint32) = length payload"
      using assms(4) by (simp add: fits_def unat_of_nat take_bit_eq_mod)
    moreover from this have "uint (word_of_nat (length payload) :: uint32) = int (length payload)"
      by (metis uint_nat)
    ultimately show ?thesis using False assms(3,4) unfolding c
      by (auto simp: decode_frame_def frame_header_def Let_def fits_def)
  qed
  with src.ReadFrame_decode [of "NewReader s mx"] assms(1) show ?thesis
    by (auto simp: NewReader_def)
qed

theorem ReadFrame_truncated_witness:
  "\<exists>r'. ReadFrame src_read (NewReader (sample_source [0, 0, 0, 0, 2, 1]) 0) =
     Some ((0, [], Some ErrUnexpectedEOF), r')"
  using ReadFrame_truncated [of "sample_source [0, 0, 0, 0, 2, 1]" 6 FlagData "[1, 2]" 0]
  by (simp add: encode_frame_def frame_header_def PutUint32_def flag_defs fits_def)

text \<open>A frame whose length field exceeds the reader's limit is refused with the size error
  right after its header: no byte of its payload is consumed.\<close>

theorem ReadFrame_oversize:
  assumes "src_content s = encode_frame flag payload @ rest" and "0 < mx"
    and "mx < int (length payload)" and "length payload < 2 ^ 32"
  shows "\<exists>r'. ReadFrame src_read (NewReader s mx) =
      Some ((0, [], Some (ErrText (''frame payload size '' @ Itoa (int (length payload)) @
        '' exceeds limit '' @ Itoa mx))), r') \<and>
    src_content (fr_r r') = payload @ rest"
proof -
  have "uint (word_of_nat (length payload) :: uint32) = int (length payload)"
    using assms(4) by (simp add: uint_nat unat_of_nat take_bit_eq_mod)
  then have "decode_frame mx (src_err s) (src_content s) =
      ((0, [], Some (ErrText (''frame payload size '' @ Itoa (int (length payload)) @
        '' exceeds limit '' @ Itoa mx))), payload @ rest)"
    using assms
    by (simp add: decode_frame_def encode_frame_def frame_header_def Let_def size_error_def)
  with src.ReadFrame_decode [of "NewReader s mx"] show ?thesis
    by (auto simp: NewReader_def)
qed

theorem ReadFrame_oversize_witness:
  "\<exists>r'. ReadFrame src_read (NewReader (sample_source [0, 0, 0, 0, 3, 7, 8, 9]) 2) =
      Some ((0, [], Some (ErrText (''frame payload size '' @ Itoa 3 @ '' exceeds limit '' @ Itoa 2))), r') \<and>
    src_content (fr_r r') = [7, 8, 9]"
  using ReadFrame_oversize [of "sample_source [0, 0, 0, 0, 3, 7, 8, 9]" FlagData "[7, 8, 9]" "[]" 2]
  by (simp add: encode_frame_def frame_header_def PutUint32_def flag_defs)

text \<open>The length field WriteFrame sends is the payload's length modulo 2^32: a payload of
  4 GiB or more is announced with a shorter length, so the reader takes its tail for further
  frames.\<close>

theorem length_field_wraps:
  "uint (Uint32 (drop 1 (frame_header flag payload))) = int (length payload) mod 2 ^ 32"
  by (simp add: frame_header_def unsigned_of_nat take_bit_eq_mod zmod_int)

end
