(* ===== verification/Service_Properties.thy ===== *)
theory Service_Properties
  imports Sample
begin

text \<open>
  Properties of service.go and reader.go: reading requests under a limit, replies, and
  handlers of raw bytes.
\<close>

section \<open>Reading requests\<close>

text \<open>C23: With a limit above 0 and below 2^63 - 1, ReadRequest hands a body that is within the limit
  and ends normally, whole and unchanged, to the decoder its Content-Type selects (JSON also for a
  missing or wildcard type), and returns the message or a content error with code 455.\<close>

theorem ReadRequest_within_limit:
  assumes "0 < sint limit" and "sint limit < 2 ^ 63 - 1" and "src_err (req_body r) = EOF"
    and "int (length (src_content (req_body r))) \<le> sint limit" and "request_codec lib r = Some c"
  shows "\<exists>r'. ReadRequest lib r limit =
    Some (case unmarshal_app c (src_content (req_body r)) of
            Inl e \<Rightarrow> Inl (NewServiceError CodeClientContentError '''' (Some e) None)
          | Inr m \<Rightarrow> Inr m, r')"
  using ReadRequest_within [OF assms] by blast

theorem ReadRequest_within_limit_witness:
  "\<exists>r'. ReadRequest sample_lib (sample_request Map.empty [104, 105]) 2 =
     Some (Inr (string_of_bytes [104, 105]), r')"
  using ReadRequest_within_limit [of 2 "sample_request Map.empty [104, 105]" sample_lib sample_codec]
  by (simp add: request_codec_def normalizeMediaType_ascii is_ascii_def trim_def json_types_def)

text \<open>C24: A body more than one byte over the limit is refused with a 400 service error that names
  the limit, whatever its Content-Type and content, and the connection's body is closed.\<close>

theorem ReadRequest_over_limit:
  assumes "0 < sint limit" and "sint limit < 2 ^ 63 - 1"
    and "sint limit + 1 < int (length (src_content (req_body r)))"
  shows "\<exists>s. ReadRequest lib r limit =
      Some (Inl (NewServiceError CodeBadRequest
        (''request body exceeds '' @ bytesToSI limit @ '' limit'') None None), r\<lparr>req_body := s\<rparr>) \<and>
    src_closed s"
proof -
  have "limit_verdict (req_body r) limit = Some (DataLimitExceeded limit)"
    using assms by (simp add: limit_verdict_def Let_def)
  with read_body_limited [OF assms(1,2), of "lib_room lib" "req_body r"] obtain s where
    s: "read_body (lib_room lib) (req_body r) limit =
      Some ((take (nat (sint limit) + 1) (src_content (req_body r)), Some (DataLimitExceeded limit)), s)"
    "src_closed s" by auto
  show ?thesis
    by (rule exI [of _ s]) (simp add: ReadRequest_def s Let_def body_error_limit DataLimit_Message_def)
qed

theorem ReadRequest_over_limit_witness:
  "\<exists>s. ReadRequest sample_lib (sample_request Map.empty [1, 2, 3, 4]) 2 =
      Some (Inl (NewServiceError CodeBadRequest
        (''request body exceeds '' @ bytesToSI 2 @ '' limit'') None None),
        (sample_request Map.empty [1, 2, 3, 4])\<lparr>req_body := s\<rparr>) \<and>
    src_closed s"
  using ReadRequest_over_limit [of 2 "sample_request Map.empty [1, 2, 3, 4]" sample_lib] by simp

text \<open>ReadRequest and ReadContent always return, for every body, limit and Content-Type, and
  always leave the body closed.\<close>

theorem reading_returns_and_closes:
  "(\<exists>res s. ReadRequest lib r limit = Some (res, r\<lparr>req_body := s\<rparr>) \<and> src_closed s) \<and>
   (\<exists>res s. ReadContent lib r limit = Some (res, r\<lparr>req_body := s\<rparr>) \<and> src_closed s)"
  using ReadRequest_returns ReadContent_returns by blast

text \<open>A limit of math.MaxInt64 refuses every body, even an empty one: the reader's counter,
  limit plus one, overflows to a negative number.\<close>

theorem max_limit_refuses_everything:
  "\<exists>r'. ReadContent lib r (word_of_int (2 ^ 63 - 1)) =
     Some (Inl (body_error (DataLimitExceeded (word_of_int (2 ^ 63 - 1)))), r')"
proof -
  from read_body_max_int64 [of "lib_room lib" "req_body r"] obtain s where
    s: "read_body (lib_room lib) (req_body r) (word_of_int (2 ^ 63 - 1)) =
      Some (([], Some (DataLimitExceeded (word_of_int (2 ^ 63 - 1)))), s)" by blast
  show ?thesis unfolding ReadContent_def s by simp
qed

text \<open>A body of one byte more than the limit is accepted when its end arrives together with
  its last bytes, as it does for a request with a Content-Length: the limit is not exact.\<close>

theorem limit_off_by_one:
  assumes "0 < sint limit" and "sint limit < 2 ^ 63 - 1" and "src_err (req_body r) = EOF"
    and "int (length (src_content (req_body r))) = sint limit + 1"
  shows "(\<exists>r'. ReadContent lib r limit =
      Some (Inr (src_content (req_body r), hget (req_header r) ''Content-Type''), r'))
    \<longleftrightarrow> src_attached (req_body r)"
proof -
  let ?v = "limit_verdict (req_body r) limit"
  have v: "?v = (if src_attached (req_body r) then None else Some (DataLimitExceeded limit))"
    using assms by (simp add: limit_verdict_def Let_def)
  have t: "take (nat (sint limit) + 1) (src_content (req_body r)) = src_content (req_body r)"
    using assms by simp
  from read_body_limited [OF assms(1,2), of "lib_room lib" "req_body r"] obtain s where
    "read_body (lib_room lib) (req_body r) limit = Some ((src_content (req_body r), ?v), s)"
    unfolding t by blast
  then show ?thesis by (auto simp: ReadContent_def v)
qed

theorem limit_off_by_one_witness:
  "\<exists>r'. ReadContent sample_lib (sample_request Map.empty [1, 2, 3]) 2 = Some (Inr ([1, 2, 3], []), r')"
  using limit_off_by_one [of 2 "sample_request Map.empty [1, 2, 3]" sample_lib] by simp

section \<open>Media types\<close>

text \<open>Content negotiation looks at the media type alone: parameters and further entries after
  the first semicolon or comma, letter case and surrounding blanks are ignored, and the result
  is a fixed point.\<close>

theorem normalizeMediaType_spec:
  assumes "is_ascii s"
  shows "normalizeMediaType u s =
      trim is_space (map lower_char (takeWhile (\<lambda>c. c \<noteq> CHR '';'' \<and> c \<noteq> CHR '','') s)) \<and>
    normalizeMediaType u (normalizeMediaType u s) = normalizeMediaType u s"
  using normalizeMediaType_ascii [OF assms] normalizeMediaType_idem [OF assms] by simp

theorem normalizeMediaType_spec_witness:
  "normalizeMediaType sample_unicode '' Application/JSON ; charset=utf-8, text/html'' = ContentTypeJSON"
  using normalizeMediaType_spec [of "'' Application/JSON ; charset=utf-8, text/html''" sample_unicode]
  by (simp add: is_ascii_def trim_def is_space_def lower_char_def ContentTypeJSON_def) code_simp

section \<open>Replies\<close>

text \<open>C25: Whatever path Reply takes (encoding failure, unacceptable Accept header), the response
  it commits carries X-DUH-Version and nosniff, a JSON or protobuf Content-Type, and the status
  asked for, 500 or 455.\<close>

theorem Reply_commits_service_response:
  assumes "Reply lib w r code resp = Some (w', r')" and "rw_status w = None" and "final_status code"
  shows "service_headers (rw_sent w') \<and>
    hget (rw_sent w') ''Content-Type'' \<in> {ContentTypeJSON, ContentTypeProtoBuf} \<and>
    rw_status w' \<in> {Some code, Some CodeInternalError, Some CodeClientContentError}"
  using Reply_sent [OF assms] by auto

theorem Reply_commits_service_response_witness:
  "service_headers (rw_sent (send_reply 200 ContentTypeJSON [111, 107] (new_rw True)))"
  using Reply_commits_service_response [of sample_lib "new_rw True" "sample_request Map.empty []" 200 "App ''ok''"
      "send_reply 200 ContentTypeJSON [111, 107] (new_rw True)" "sample_request Map.empty []"]
    Reply_json_ok [of sample_lib "sample_request Map.empty []" "App ''ok''" "[111, 107]" "new_rw True" 200]
  by (simp add: accept_type_def normalizeMediaType_ascii is_ascii_def trim_def json_types_def
      new_rw_def final_status_def bytes_of_string_def)

text \<open>Reply always returns a committed response if the text of an encoding error can itself be
  encoded in a plain reply: the fallback replies do not recurse for ever.\<close>

theorem Reply_returns:
  assumes "\<And>resp e. marshal (lib_json lib) resp = Inl e \<Longrightarrow>
      \<exists>b. marshal (lib_json lib) (code_reply CodeInternalError None (Error e)) = Inr b"
    and "\<And>resp e. marshal (lib_proto lib) resp = Inl e \<Longrightarrow>
      \<exists>b. marshal (lib_proto lib) (code_reply CodeInternalError None (Error e)) = Inr b"
  shows "\<exists>w' r'. Reply lib w r code resp = Some (w', r')"
proof -
  have json: "\<exists>w' r'. Reply lib w r code resp = Some (w', r')"
    if "accept_type lib r \<in> set json_types" for r code resp
  proof (cases "marshal (lib_json lib) resp")
    case (Inl e)
    from assms(1) [OF Inl] obtain b where
      "marshal (lib_json lib) (code_reply CodeInternalError None (Error e)) = Inr b" ..
    then show ?thesis using Reply_json_err [OF that Inl] Reply_json_ok [OF that] by auto
  next
    case (Inr b)
    then show ?thesis using Reply_json_ok [OF that] by auto
  qed
  consider "accept_type lib r \<in> set json_types" | "accept_type lib r = ContentTypeProtoBuf"
    | "accept_type lib r \<notin> set json_types" "accept_type lib r \<noteq> ContentTypeProtoBuf" by blast
  then show ?thesis
  proof cases
    case 2
    show ?thesis
    proof (cases "marshal (lib_proto lib) resp")
      case (Inl e)
      from assms(2) [OF Inl] obtain b where
        "marshal (lib_proto lib) (code_reply CodeInternalError None (Error e)) = Inr b" ..
      then show ?thesis using Reply_proto_err [OF 2 Inl] Reply_proto_ok [OF 2] by auto
    next
      case (Inr b)
      then show ?thesis using Reply_proto_ok [OF 2] by auto
    qed
  next
    case 3
    show ?thesis unfolding Reply_unacceptable [OF 3] by (rule json) simp
  qed (rule json)
qed

lemma sample_marshal_error:
  "marshal sample_codec resp = Inl e \<Longrightarrow>
    \<exists>b. marshal sample_codec (code_reply CodeInternalError None (Error e)) = Inr b"
  by (cases resp) (auto dest!: sample_reply_error simp: code_reply_def sample_marshal_reply_def
      CodeInternalError_def go_simps bytes_of_string_def)

theorem Reply_returns_witness:
  "\<exists>w' r'. Reply sample_lib (new_rw True) (sample_request (hset Map.empty ''Accept'' ''text/html'') [])
     CodeOK (App ''ok'') = Some (w', r')"
  using Reply_returns [of sample_lib] sample_marshal_error by simp

section \<open>Raw bytes\<close>

text \<open>C39: HandleBytes on a connection that does not fail: what the handler writes is the body of
  a 200 response in order, an error before the first write becomes an error reply on a still
  uncommitted response, and an error after it leaves the bytes as they are.\<close>

theorem HandleBytes_behaviour:
  assumes "rw_status w = None" and "rw_fault w = (\<lambda>_. None)"
  shows "\<exists>w'. rw_body w' = rw_body w @ bytes_written (handler r) \<and>
    rw_status w' = (if bytes_writes (handler r) then Some 200 else None) \<and>
    HandleBytes lib w r handler =
      (case bytes_result (handler r) of
         Some err \<Rightarrow> (if bytes_writes (handler r) then Some (w', r) else ReplyError lib w' r err)
       | None \<Rightarrow> Some (w', r))"
  using HandleBytes_cases [OF assms, of handler r lib] by blast

theorem HandleBytes_behaviour_witness:
  "\<exists>w'. rw_body w' = [1, 2] \<and> rw_status w' = Some 200 \<and>
    HandleBytes sample_lib (new_rw True) (sample_request Map.empty [])
      (\<lambda>_. BWrite [1] (\<lambda>_. BWrite [2] (\<lambda>_. BReturn (Some (ErrText ''late''))))) =
    Some (w', sample_request Map.empty [])"
  using HandleBytes_behaviour [of "new_rw True"
      "\<lambda>_. BWrite [1] (\<lambda>_. BWrite [2] (\<lambda>_. BReturn (Some (ErrText ''late''))))"
      "sample_request Map.empty []" sample_lib]
  by (simp add: new_rw_def)

end
