(* ===== verification/Stream_Server.thy ===== *)
theory Stream_Server
  imports Service
begin

text \<open>
  streaming.go, server side: \<open>streamWriter\<close> with its mutex, \<open>HandleStream\<close> and the
  heartbeat goroutine. Two threads share the writer: the request goroutine, which runs the
  handler and then finishes the stream, and the heartbeat goroutine. Each is a step function
  on the shared state, cut at the points where the other one can run: taking the mutex, each
  call of \<open>Write\<close>, flushing and releasing it, closing and receiving from the channels
  \<open>stop\<close> and \<open>stopped\<close>. A run is any interleaving of their steps.

  The field \<open>hs_log\<close> is not part of the program: it records the frames completely
  written, in order.
\<close>

text \<open>
  A handler: the calls it makes on the \<open>StreamWriter\<close>, each depending on the results
  before, and the error it returns; or it panics. A handler makes finitely many calls in every
  run: one that never returns is outside the model.
\<close>

datatype 'm stream_prog =
    SReturn "error option"
  | SPanic
  | SSend 'm "error option \<Rightarrow> 'm stream_prog"
  | SClose "'m option" "error option \<Rightarrow> 'm stream_prog"

text \<open>What the request goroutine does holding the mutex: \<open>Send\<close>, \<open>Close\<close>, the error frame.\<close>

datatype 'm crit =
    CSend 'm "error option \<Rightarrow> 'm stream_prog"
  | CClose "'m option" "error option \<Rightarrow> 'm stream_prog"
  | CError error

text \<open>What follows a call of \<open>stopHeartbeat\<close>.\<close>

datatype 'm after =
    AClose "'m option" "error option \<Rightarrow> 'm stream_prog"
  | AReturn "error option"

datatype 'm main_pc =
    MProg "'m stream_prog"
  | MStop "'m after"
  | MJoin "'m after"
  | MLock "'m crit"
  | MCrit "'m crit"
  | MPayload "'m crit" byte bytes
  | MFlush "'m crit"
  | MUnlock "'m crit" "error option"
  | MDone
  | MPanicked

datatype hb_pc = HNone | HSelect | HLock | HCrit | HFlush | HExited

datatype owner = OMain | OHeartbeat

record 'm hs =
  hs_w :: rw
  hs_codec :: "'m codec"
  hs_closed :: bool
  hs_stop :: bool
  hs_stopped :: bool
  hs_once :: bool
  hs_mu :: "owner option"
  hs_main :: "'m main_pc"
  hs_hb :: hb_pc
  hs_log :: "(byte \<times> bytes) list"

definition DefaultHeartbeatInterval :: int where
  "DefaultHeartbeatInterval = 30 * 1000000000"

definition buildErrorReply :: "error \<Rightarrow> reply" where
  "buildErrorReply err =
     (case As_Error err of
        Some e \<Rightarrow> duh_ProtoMessage e
      | None \<Rightarrow> \<lparr>r_code = Itoa CodeInternalError, r_message = Error err, r_details = None\<rparr>)"

section \<open>The request goroutine\<close>

text \<open>
  The two halves of \<open>WriteFrame\<close> on the response writer: the header, then, for a
  non-empty payload, the payload.
\<close>

definition begin_frame :: "'m crit \<Rightarrow> byte \<Rightarrow> bytes \<Rightarrow> 'm hs \<Rightarrow> 'm hs" where
  "begin_frame c flag payload s =
     (case rw_Write (frame_header flag payload) (hs_w s) of
        ((_, Some e), w') \<Rightarrow> s\<lparr>hs_w := w', hs_main := MUnlock c (Some e)\<rparr>
      | ((_, None), w') \<Rightarrow>
          (if payload \<noteq> [] then s\<lparr>hs_w := w', hs_main := MPayload c flag payload\<rparr>
           else s\<lparr>hs_w := w', hs_main := MFlush c, hs_log := hs_log s @ [(flag, payload)]\<rparr>))"

definition end_frame :: "'m crit \<Rightarrow> byte \<Rightarrow> bytes \<Rightarrow> 'm hs \<Rightarrow> 'm hs" where
  "end_frame c flag payload s =
     (case rw_Write payload (hs_w s) of
        ((_, Some e), w') \<Rightarrow> s\<lparr>hs_w := w', hs_main := MUnlock c (Some e)\<rparr>
      | ((_, None), w') \<Rightarrow>
          s\<lparr>hs_w := w', hs_main := MFlush c, hs_log := hs_log s @ [(flag, payload)]\<rparr>)"

fun after_stop :: "'m after \<Rightarrow> bool \<Rightarrow> 'm main_pc" where
  "after_stop (AClose msg k) cl = MLock (CClose msg k)"
| "after_stop (AReturn None) cl = MDone"
| "after_stop (AReturn (Some e)) cl = (if cl then MDone else MLock (CError e))"

fun resume :: "'m crit \<Rightarrow> error option \<Rightarrow> 'm main_pc" where
  "resume (CSend m k) err = MProg (k err)"
| "resume (CClose msg k) err = MProg (k err)"
| "resume (CError e) err = MDone"

text \<open>The body of \<open>Send\<close> after the lock is taken.\<close>

definition Send_crit :: "'m \<Rightarrow> (error option \<Rightarrow> 'm stream_prog) \<Rightarrow> 'm hs \<Rightarrow> 'm hs" where
  "Send_crit msg k s =
     (if hs_closed s then s\<lparr>hs_main := MUnlock (CSend msg k) (Some ErrStreamClosed)\<rparr>
      else (case marshal_app (hs_codec s) msg of
              Inl err \<Rightarrow> s\<lparr>hs_main := MUnlock (CSend msg k)
                (Some (ErrWrap (''while marshalling stream message: '' @ Error err) err))\<rparr>
            | Inr payload \<Rightarrow> begin_frame (CSend msg k) FlagData payload s))"

definition close_payload :: "'m codec \<Rightarrow> 'm option \<Rightarrow> error + bytes" where
  "close_payload c msg = (case msg of Some m \<Rightarrow> marshal_app c m | None \<Rightarrow> Inr [])"

text \<open>The body of \<open>Close\<close> after the heartbeat is stopped and the lock is taken.\<close>

definition Close_crit :: "'m option \<Rightarrow> (error option \<Rightarrow> 'm stream_prog) \<Rightarrow> 'm hs \<Rightarrow> 'm hs" where
  "Close_crit msg k s =
     (if hs_closed s then s\<lparr>hs_main := MUnlock (CClose msg k) (Some ErrStreamClosed)\<rparr>
      else
        (let s1 = s\<lparr>hs_closed := True\<rparr> in
         case close_payload (hs_codec s) msg of
           Inl err \<Rightarrow> s1\<lparr>hs_main := MUnlock (CClose msg k)
             (Some (ErrWrap (''while marshalling final stream message: '' @ Error err) err))\<rparr>
         | Inr payload \<Rightarrow> begin_frame (CClose msg k) FlagFinal payload s1))"

text \<open>The end of \<open>HandleStream\<close> after a failed handler, holding the lock.\<close>

definition Error_crit :: "error \<Rightarrow> 'm hs \<Rightarrow> 'm hs" where
  "Error_crit err s =
     (case marshal_reply (hs_codec s) (buildErrorReply err) of
        Inl e \<Rightarrow> s\<lparr>hs_main := MUnlock (CError err) None\<rparr>
      | Inr payload \<Rightarrow> begin_frame (CError err) FlagError payload s)"

fun run_crit :: "'m crit \<Rightarrow> 'm hs \<Rightarrow> 'm hs" where
  "run_crit (CSend m k) s = Send_crit m k s"
| "run_crit (CClose msg k) s = Close_crit msg k s"
| "run_crit (CError e) s = Error_crit e s"

text \<open>
  \<open>stopHeartbeat\<close> is \<open>sync.Once\<close>: the first call closes \<open>stop\<close> and waits for
  \<open>stopped\<close>, a later one returns at once.
\<close>

definition stopHeartbeat :: "'m after \<Rightarrow> 'm hs \<Rightarrow> 'm hs" where
  "stopHeartbeat a s =
     (if hs_once s then s\<lparr>hs_main := after_stop a (hs_closed s)\<rparr>
      else s\<lparr>hs_stop := True, hs_main := MJoin a\<rparr>)"

text \<open>
  No call of \<open>HandleStream\<close> is deferred while the handler runs: a panic of the handler
  unwinds the request goroutine past it.
\<close>

definition step_main :: "'m hs \<Rightarrow> 'm hs option" where
  "step_main s =
     (case hs_main s of
        MProg (SSend m k) \<Rightarrow> Some (s\<lparr>hs_main := MLock (CSend m k)\<rparr>)
      | MProg (SClose msg k) \<Rightarrow> Some (s\<lparr>hs_main := MStop (AClose msg k)\<rparr>)
      | MProg (SReturn e) \<Rightarrow> Some (s\<lparr>hs_main := MStop (AReturn e)\<rparr>)
      | MProg SPanic \<Rightarrow> Some (s\<lparr>hs_main := MPanicked\<rparr>)
      | MStop a \<Rightarrow> Some (stopHeartbeat a s)
      | MJoin a \<Rightarrow>
          (if hs_stopped s
           then Some (s\<lparr>hs_once := True, hs_main := after_stop a (hs_closed s)\<rparr>) else None)
      | MLock c \<Rightarrow>
          (if hs_mu s = None then Some (s\<lparr>hs_mu := Some OMain, hs_main := MCrit c\<rparr>) else None)
      | MCrit c \<Rightarrow> Some (run_crit c s)
      | MPayload c flag payload \<Rightarrow> Some (end_frame c flag payload s)
      | MFlush c \<Rightarrow> Some (s\<lparr>hs_w := rw_Flush (hs_w s), hs_main := MUnlock c None\<rparr>)
      | MUnlock c err \<Rightarrow> Some (s\<lparr>hs_mu := None, hs_main := resume c err\<rparr>)
      | MDone \<Rightarrow> None
      | MPanicked \<Rightarrow> None)"

section \<open>The heartbeat goroutine\<close>

text \<open>
  In the \<open>select\<close> the goroutine takes the \<open>stop\<close> case if the channel is closed, or
  the ticker's if a tick is there; with both ready the choice is arbitrary. Leaving the
  function closes \<open>stopped\<close>. The error of a heartbeat write is dropped.
\<close>

datatype hb_choice = TakeStop | TakeTick | Continue

definition hb_exit :: "'m hs \<Rightarrow> 'm hs" where
  "hb_exit s = s\<lparr>hs_stopped := True, hs_hb := HExited\<rparr>"

definition hb_write :: "'m hs \<Rightarrow> 'm hs" where
  "hb_write s =
     (case rw_Write (frame_header FlagHeartbeat []) (hs_w s) of
        ((_, Some e), w') \<Rightarrow> s\<lparr>hs_w := w', hs_hb := HFlush\<rparr>
      | ((_, None), w') \<Rightarrow>
          s\<lparr>hs_w := w', hs_hb := HFlush, hs_log := hs_log s @ [(FlagHeartbeat, [])]\<rparr>)"

definition step_hb :: "hb_choice \<Rightarrow> 'm hs \<Rightarrow> 'm hs option" where
  "step_hb ch s =
     (case hs_hb s of
        HSelect \<Rightarrow>
          (case ch of
             TakeStop \<Rightarrow> (if hs_stop s then Some (hb_exit s) else None)
           | TakeTick \<Rightarrow> Some (s\<lparr>hs_hb := HLock\<rparr>)
           | Continue \<Rightarrow> None)
      | HLock \<Rightarrow>
          (if ch = Continue \<and> hs_mu s = None
           then Some (s\<lparr>hs_mu := Some OHeartbeat, hs_hb := HCrit\<rparr>) else None)
      | HCrit \<Rightarrow>
          (if ch = Continue
           then Some (if hs_closed s then hb_exit (s\<lparr>hs_mu := None\<rparr>) else hb_write s) else None)
      | HFlush \<Rightarrow>
          (if ch = Continue
           then Some (s\<lparr>hs_w := rw_Flush (hs_w s), hs_mu := None, hs_hb := HSelect\<rparr>) else None)
      | _ \<Rightarrow> None)"

inductive hs_step :: "'m hs \<Rightarrow> 'm hs \<Rightarrow> bool" where
  main: "step_main s = Some t \<Longrightarrow> hs_step s t"
| heartbeat: "step_hb ch s = Some t \<Longrightarrow> hs_step s t"

inductive_cases hs_stepE: "hs_step s t"

definition hs_reach :: "'m hs \<Rightarrow> 'm hs \<Rightarrow> bool" where
  "hs_reach s t \<longleftrightarrow> hs_step\<^sup>*\<^sup>* s t"

section \<open>HandleStream\<close>

text \<open>\<open>conf\<close> is the configured interval, \<open>None\<close> for a nil configuration.\<close>

definition heartbeat_interval :: "int option \<Rightarrow> int" where
  "heartbeat_interval conf =
     (case conf of Some i \<Rightarrow> (if i \<noteq> 0 then i else DefaultHeartbeatInterval)
      | None \<Rightarrow> DefaultHeartbeatInterval)"

definition stream_start :: "'m codec \<Rightarrow> rw \<Rightarrow> int \<Rightarrow> 'm stream_prog \<Rightarrow> 'm hs" where
  "stream_start c w interval prog =
     \<lparr>hs_w = w, hs_codec = c, hs_closed = False, hs_stop = False,
      hs_stopped = (\<not> 0 < interval), hs_once = False, hs_mu = None, hs_main = MProg prog,
      hs_hb = (if 0 < interval then HSelect else HNone), hs_log = []\<rparr>"

text \<open>
  Either a plain reply, \<open>Inl\<close>, or the state in which the two goroutines start,
  \<open>Inr\<close>.
\<close>

definition HandleStream ::
  "'m lib \<Rightarrow> rw \<Rightarrow> request \<Rightarrow> (request \<Rightarrow> 'm stream_prog) \<Rightarrow> int option \<Rightarrow>
    (rw \<times> request) option + 'm hs" where
  "HandleStream lib w r handler conf =
     (if \<not> rw_flusher w then
        Inl (ReplyWithCode lib w r CodeInternalError None
          ''response writer does not support streaming'')
      else
        (let accept = normalizeMediaType (lib_uni lib) (hget (req_header r) ''Accept'') in
         if accept = ContentStreamJSON \<or> accept = ContentStreamProtoBuf then
           (let c = (if accept = ContentStreamJSON then lib_json lib else lib_proto lib) in
            Inr (stream_start c (setServiceHeaders (rw_SetHeader ''Content-Type'' accept w))
              (heartbeat_interval conf) (handler r)))
         else
           Inl (ReplyWithCode lib w r CodeBadRequest None
             (''Accept header '' @ [CHR 0x27] @ hget (req_header r) ''Accept'' @ [CHR 0x27] @
              '' is not a supported streaming content type; expected '' @ [CHR 0x27] @
              ContentStreamJSON @ [CHR 0x27] @ '' or '' @ [CHR 0x27] @ ContentStreamProtoBuf @
              [CHR 0x27]))))"

section \<open>The sequential specification\<close>

text \<open>
  The frames a handler asks for, as if it ran alone on a writer that never fails:
  the abstract meaning of a stream, with no heartbeat in it.
\<close>

primrec plan :: "'m stream_prog \<Rightarrow> 'm codec \<Rightarrow> bool \<Rightarrow> (byte \<times> bytes) list" where
  "plan (SReturn e) c cl =
     (case e of
        None \<Rightarrow> []
      | Some err \<Rightarrow>
          (if cl then []
           else (case marshal_reply c (buildErrorReply err) of
                   Inl _ \<Rightarrow> [] | Inr b \<Rightarrow> [(FlagError, b)])))"
| "plan SPanic c cl = []"
| "plan (SSend m k) c cl =
     (if cl then plan (k (Some ErrStreamClosed)) c cl
      else (case marshal_app c m of
              Inl err \<Rightarrow> plan (k (Some (ErrWrap
                (''while marshalling stream message: '' @ Error err) err))) c cl
            | Inr b \<Rightarrow> (FlagData, b) # plan (k None) c cl))"
| "plan (SClose msg k) c cl =
     (if cl then plan (k (Some ErrStreamClosed)) c cl
      else (case close_payload c msg of
              Inl err \<Rightarrow> plan (k (Some (ErrWrap
                (''while marshalling final stream message: '' @ Error err) err))) c True
            | Inr b \<Rightarrow> (FlagFinal, b) # plan (k None) c True))"

definition no_heartbeats :: "(byte \<times> bytes) list \<Rightarrow> (byte \<times> bytes) list" where
  "no_heartbeats fs = filter (\<lambda>(flag, _). flag \<noteq> FlagHeartbeat) fs"

end
