(* ===== verification/Stream_Run.thy ===== *)
theory Stream_Run
  imports Stream_Server
begin

text \<open>
  The runs of \<open>HandleStream\<close>: invariants of every interleaving of the request goroutine
  and the heartbeat goroutine. \<open>sync_inv\<close> is about the mutex and the two channels,
  \<open>end_inv\<close> about terminal frames, both whatever the response writer does;
  \<open>wire_inv\<close> relates the bytes written, the frames logged and the handler's plan on a
  writer that does not fail.
\<close>

section \<open>Synchronisation\<close>

fun main_holds :: "'m main_pc \<Rightarrow> bool" where
  "main_holds (MCrit c) = True"
| "main_holds (MPayload c flag payload) = True"
| "main_holds (MFlush c) = True"
| "main_holds (MUnlock c err) = True"
| "main_holds _ = False"

definition hb_holds :: "hb_pc \<Rightarrow> bool" where
  "hb_holds p \<longleftrightarrow> p = HCrit \<or> p = HFlush"

definition hb_gone :: "hb_pc \<Rightarrow> bool" where
  "hb_gone p \<longleftrightarrow> p = HNone \<or> p = HExited"

text \<open>Which critical section the goroutine is in, and what it knows there.\<close>

fun crit_of :: "'m main_pc \<Rightarrow> 'm crit option" where
  "crit_of (MLock c) = Some c"
| "crit_of (MCrit c) = Some c"
| "crit_of (MPayload c flag payload) = Some c"
| "crit_of (MFlush c) = Some c"
| "crit_of (MUnlock c err) = Some c"
| "crit_of _ = None"

fun is_send :: "'m crit \<Rightarrow> bool" where
  "is_send (CSend m k) = True"
| "is_send _ = False"

definition joined :: "'m main_pc \<Rightarrow> bool" where
  "joined p \<longleftrightarrow> p = MDone \<or> (\<exists>c. crit_of p = Some c \<and> \<not> is_send c)"

definition sync_inv :: "'m hs \<Rightarrow> bool" where
  "sync_inv s \<longleftrightarrow>
     (hs_mu s = Some OMain \<longleftrightarrow> main_holds (hs_main s)) \<and>
     (hs_mu s = Some OHeartbeat \<longleftrightarrow> hb_holds (hs_hb s)) \<and>
     (hs_stopped s \<longleftrightarrow> hb_gone (hs_hb s)) \<and>
     (hs_once s \<longrightarrow> hb_gone (hs_hb s) \<and> hs_stop s) \<and>
     (hs_closed s \<longrightarrow> hs_once s) \<and>
     (joined (hs_main s) \<longrightarrow> hs_once s) \<and>
     (\<forall>a. hs_main s = MJoin a \<longrightarrow> hs_stop s)"

lemmas hb_defs = step_hb_def hb_exit_def hb_write_def

lemmas frame_defs = begin_frame_def end_frame_def

lemmas crit_defs = Send_crit_def Close_crit_def Error_crit_def Let_def

lemmas hb_splits = option.splits prod.splits if_splits hb_pc.splits hb_choice.splits

text \<open>Writing a frame touches the writer, the log and the program counter only.\<close>

lemma begin_frame_simps [simp]:
  "hs_closed (begin_frame c f p s) = hs_closed s" "hs_stop (begin_frame c f p s) = hs_stop s"
  "hs_stopped (begin_frame c f p s) = hs_stopped s" "hs_once (begin_frame c f p s) = hs_once s"
  "hs_mu (begin_frame c f p s) = hs_mu s" "hs_hb (begin_frame c f p s) = hs_hb s"
  "hs_codec (begin_frame c f p s) = hs_codec s"
  "main_holds (hs_main (begin_frame c f p s))" "hs_main (begin_frame c f p s) \<noteq> MJoin a"
  "crit_of (hs_main (begin_frame c f p s)) = Some c"
  by (auto simp: begin_frame_def split: prod.splits option.splits)

lemma end_frame_simps [simp]:
  "hs_closed (end_frame c f p s) = hs_closed s" "hs_stop (end_frame c f p s) = hs_stop s"
  "hs_stopped (end_frame c f p s) = hs_stopped s" "hs_once (end_frame c f p s) = hs_once s"
  "hs_mu (end_frame c f p s) = hs_mu s" "hs_hb (end_frame c f p s) = hs_hb s"
  "hs_codec (end_frame c f p s) = hs_codec s"
  "main_holds (hs_main (end_frame c f p s))" "hs_main (end_frame c f p s) \<noteq> MJoin a"
  "crit_of (hs_main (end_frame c f p s)) = Some c"
  by (auto simp: end_frame_def split: prod.splits option.splits)

lemma run_crit_simps [simp]:
  "hs_stop (run_crit c s) = hs_stop s" "hs_stopped (run_crit c s) = hs_stopped s"
  "hs_once (run_crit c s) = hs_once s" "hs_mu (run_crit c s) = hs_mu s"
  "hs_hb (run_crit c s) = hs_hb s" "hs_codec (run_crit c s) = hs_codec s"
  "main_holds (hs_main (run_crit c s))" "hs_main (run_crit c s) \<noteq> MJoin a"
  "crit_of (hs_main (run_crit c s)) = Some c"
  by (cases c; auto simp: crit_defs split: sum.splits option.splits)+

lemma run_crit_closed:
  "hs_closed (run_crit c s) \<longleftrightarrow> hs_closed s \<or> (\<exists>msg k. c = CClose msg k)"
  by (cases c) (auto simp: crit_defs split: sum.splits option.splits)

lemma joined_crit [simp]: "crit_of p = Some c \<Longrightarrow> joined p \<longleftrightarrow> \<not> is_send c"
  by (cases p) (auto simp: joined_def)

lemma joined_simps [simp]:
  "\<not> joined (MProg p)" "\<not> joined (MStop a)" "\<not> joined (MJoin a)" "joined MDone"
  "\<not> joined MPanicked"
  by (auto simp: joined_def)

lemma after_stop_simps [simp]:
  "main_holds (after_stop a cl) = False" "after_stop a cl \<noteq> MJoin b"
  by (cases "(a, cl)" rule: after_stop.cases; simp)+

lemma resume_simps [simp]:
  "main_holds (resume c err) = False" "resume c err \<noteq> MJoin b"
  "crit_of (resume c err) = None" "resume c err = MDone \<longleftrightarrow> (\<exists>e. c = CError e)"
  by (cases c; simp)+

lemma joined_resume [simp]: "joined (resume c err) \<Longrightarrow> \<not> is_send c"
  by (cases c) auto

lemma sync_inv_main:
  assumes "sync_inv s" and "step_main s = Some t"
  shows "sync_inv t"
proof (cases "hs_main s")
  case (MProg p)
  with assms show ?thesis by (cases p) (clarsimp simp: step_main_def sync_inv_def)+
next
  case (MStop a)
  with assms show ?thesis
    by (cases "hs_once s") (clarsimp simp: step_main_def sync_inv_def stopHeartbeat_def)+
next
  case (MCrit c)
  with assms have t: "t = run_crit c s" by (simp add: step_main_def)
  show ?thesis unfolding t using assms(1) MCrit
    by (cases "is_send c") (auto simp: sync_inv_def run_crit_closed simp del: run_crit.simps)
next
  case (MPayload c flag payload)
  with assms have t: "t = end_frame c flag payload s" by (simp add: step_main_def)
  show ?thesis unfolding t using assms(1) MPayload by (auto simp: sync_inv_def)
qed (insert assms, (clarsimp simp: step_main_def sync_inv_def split: if_splits; auto)+)

lemma sync_inv_hb:
  assumes "sync_inv s" and "step_hb ch s = Some t"
  shows "sync_inv t"
  using assms
  by (auto simp: hb_defs sync_inv_def hb_holds_def hb_gone_def split: hb_splits)

interpretation sync: inductive_invariant hs_step sync_inv
  by unfold_locales (auto elim!: hs_stepE intro: sync_inv_main sync_inv_hb)

lemma sync_inv_start: "sync_inv (stream_start c w interval prog)"
  by (simp add: sync_inv_def stream_start_def joined_def hb_holds_def hb_gone_def)

lemma hs_reach_sync: "hs_reach (stream_start c w interval prog) s \<Longrightarrow> sync_inv s"
  unfolding hs_reach_def by (rule sync.always [OF _ sync_inv_start])

section \<open>Terminal frames\<close>

definition terminal :: "byte \<times> bytes \<Rightarrow> bool" where
  "terminal f \<longleftrightarrow> fst f = FlagFinal \<or> fst f = FlagError"

text \<open>What the program counter says about the flag of the frame and about \<open>closed\<close>.\<close>

fun pc_ok :: "'m main_pc \<Rightarrow> bool \<Rightarrow> bool" where
  "pc_ok (MLock (CError e)) cl = (\<not> cl)"
| "pc_ok (MCrit (CError e)) cl = (\<not> cl)"
| "pc_ok (MPayload (CSend m k) flag payload) cl = (flag = FlagData \<and> \<not> cl)"
| "pc_ok (MPayload (CClose msg k) flag payload) cl = (flag = FlagFinal \<and> cl)"
| "pc_ok (MPayload (CError e) flag payload) cl = (flag = FlagError \<and> \<not> cl)"
| "pc_ok (MFlush (CSend m k)) cl = (\<not> cl)"
| "pc_ok (MFlush (CClose msg k)) cl = cl"
| "pc_ok (MUnlock (CClose msg k) err) cl = cl"
| "pc_ok _ cl = True"

text \<open>The stream is past its last frame.\<close>

fun ended :: "'m main_pc \<Rightarrow> bool \<Rightarrow> bool" where
  "ended (MPayload c flag payload) cl = False"
| "ended (MFlush (CError e)) cl = True"
| "ended (MUnlock (CError e) err) cl = True"
| "ended MDone cl = True"
| "ended _ cl = cl"

definition end_inv :: "'m hs \<Rightarrow> bool" where
  "end_inv s \<longleftrightarrow> pc_ok (hs_main s) (hs_closed s) \<and>
     ((\<exists>f\<in>set (hs_log s). terminal f) \<longrightarrow> ended (hs_main s) (hs_closed s)) \<and>
     (\<forall>f\<in>set (butlast (hs_log s)). \<not> terminal f)"

lemma terminal_simps [simp]:
  "\<not> terminal (FlagData, p)" "\<not> terminal (FlagHeartbeat, p)"
  "terminal (FlagFinal, p)" "terminal (FlagError, p)"
  by (simp_all add: terminal_def)

lemma ended_closed: "cl \<Longrightarrow> \<forall>c flag payload. p \<noteq> MPayload c flag payload \<Longrightarrow> ended p cl"
  by (cases "(p, cl)" rule: ended.cases) auto

lemma ended_joined: "ended p cl \<Longrightarrow> cl \<or> joined p"
  by (cases "(p, cl)" rule: ended.cases) (auto simp: joined_def)

lemma ended_gone: "sync_inv s \<Longrightarrow> ended (hs_main s) (hs_closed s) \<Longrightarrow> hb_gone (hs_hb s)"
  using ended_joined [of "hs_main s" "hs_closed s"] by (auto simp: sync_inv_def)

lemma begin_frame_end:
  assumes "end_inv s" and "\<forall>f\<in>set (hs_log s). \<not> terminal f"
    and "\<forall>payload. pc_ok (MPayload c flag payload) (hs_closed s)" and "hs_main s = MCrit c"
  shows "end_inv (begin_frame c flag payload s)"
  using assms
  by (cases c) (auto simp: end_inv_def begin_frame_def butlast_append split: prod.splits option.splits)

lemma end_frame_end:
  assumes "end_inv s" and "hs_main s = MPayload c flag payload"
  shows "end_inv (end_frame c flag payload s)"
  using assms
  by (cases c) (auto simp: end_inv_def end_frame_def butlast_append split: prod.splits option.splits)

lemma run_crit_end:
  assumes "end_inv s" and "hs_main s = MCrit c"
  shows "end_inv (run_crit c s)"
proof (cases "hs_closed s")
  case True
  with assms show ?thesis
    by (cases c) (auto simp: Send_crit_def Close_crit_def end_inv_def)
next
  case False
  with assms have none: "\<forall>f\<in>set (hs_log s). \<not> terminal f"
    by (cases c) (auto simp: end_inv_def)
  have closing: "end_inv (s\<lparr>hs_closed := True\<rparr>)" if "c = CClose msg k" for msg k
    using assms none that by (simp add: end_inv_def)
  show ?thesis
  proof (cases c)
    case (CSend m k)
    show ?thesis using assms False none unfolding CSend
      by (auto simp: Send_crit_def split: sum.splits intro!: begin_frame_end)
        (simp add: end_inv_def)
  next
    case (CClose msg k)
    show ?thesis using assms(2) False none closing [OF CClose] unfolding CClose
      by (auto simp: Close_crit_def Let_def split: sum.splits intro!: begin_frame_end)
        (simp add: end_inv_def)
  next
    case (CError e)
    show ?thesis using assms False none unfolding CError
      by (auto simp: Error_crit_def split: sum.splits intro!: begin_frame_end)
        (simp add: end_inv_def)
  qed
qed

lemma pc_ok_after_stop [simp]: "pc_ok (after_stop a cl) cl"
  by (cases "(a, cl)" rule: after_stop.cases) auto

lemma ended_after_stop: "cl \<Longrightarrow> ended (after_stop a cl) cl"
  by (cases "(a, cl)" rule: after_stop.cases) auto

lemma pc_ok_resume [simp]: "pc_ok (resume c err) cl"
  by (cases c) auto

lemma ended_resume: "ended (MUnlock c err) cl \<Longrightarrow> ended (resume c err) cl"
  by (cases c) auto

lemma end_inv_main:
  assumes "end_inv s" and "step_main s = Some t"
  shows "end_inv t"
proof (cases "hs_main s")
  case (MProg p)
  with assms show ?thesis by (cases p) (auto simp: step_main_def end_inv_def)
next
  case (MLock c)
  with assms show ?thesis
    by (cases c) (auto simp: step_main_def end_inv_def split: if_splits)
next
  case (MCrit c)
  with assms show ?thesis by (auto simp: step_main_def intro: run_crit_end simp del: run_crit.simps)
next
  case (MPayload c flag payload)
  with assms show ?thesis by (auto simp: step_main_def intro: end_frame_end)
next
  case (MFlush c)
  with assms show ?thesis by (cases c) (auto simp: step_main_def end_inv_def)
next
  case (MUnlock c err)
  with assms show ?thesis by (auto simp: step_main_def end_inv_def dest: ended_resume [of c err])
qed (use assms in \<open>auto simp: step_main_def end_inv_def stopHeartbeat_def ended_after_stop
       split: if_splits\<close>)

lemma end_inv_hb:
  assumes "end_inv s" and "sync_inv s" and "step_hb ch s = Some t"
  shows "end_inv t"
proof (cases "hs_hb s = HCrit \<and> \<not> hs_closed s")
  case True
  with ended_gone [OF assms(2)] have "\<not> ended (hs_main s) (hs_closed s)" by (auto simp: hb_gone_def)
  with True assms(1,3) show ?thesis
    by (auto simp: hb_defs end_inv_def butlast_append split: hb_splits)
next
  case False
  with assms(1,3) show ?thesis by (auto simp: hb_defs end_inv_def split: hb_splits)
qed

interpretation ending: inductive_invariant hs_step "\<lambda>s. sync_inv s \<and> end_inv s"
  by unfold_locales
    (auto elim!: hs_stepE intro: sync_inv_main sync_inv_hb end_inv_main end_inv_hb)

lemma hs_reach_end:
  assumes "hs_reach (stream_start c w interval prog) s"
  shows "end_inv s"
proof -
  have "end_inv (stream_start c w interval prog)" by (simp add: end_inv_def stream_start_def)
  with assms show ?thesis
    using ending.always [of "stream_start c w interval prog" s] sync_inv_start
    by (auto simp: hs_reach_def)
qed

text \<open>Past its last frame the stream's bytes do not change any more.\<close>

definition frozen :: "bytes \<Rightarrow> (byte \<times> bytes) list \<Rightarrow> 'm hs \<Rightarrow> bool" where
  "frozen body lg s \<longleftrightarrow> sync_inv s \<and> end_inv s \<and> ended (hs_main s) (hs_closed s) \<and>
     rw_body (hs_w s) = body \<and> hs_log s = lg"

lemma frozen_main:
  assumes "frozen body lg s" and "step_main s = Some t"
  shows "ended (hs_main t) (hs_closed t) \<and> rw_body (hs_w t) = body \<and> hs_log t = lg"
proof (cases "hs_main s")
  case (MProg p)
  with assms show ?thesis by (cases p) (auto simp: step_main_def frozen_def)
next
  case (MLock c)
  with assms show ?thesis
    by (cases c) (auto simp: step_main_def frozen_def end_inv_def split: if_splits)
next
  case (MCrit c)
  with assms show ?thesis
    by (cases c) (auto simp: step_main_def frozen_def end_inv_def crit_defs split: if_splits)
next
  case (MFlush c)
  with assms show ?thesis by (cases c) (auto simp: step_main_def frozen_def)
next
  case (MUnlock c err)
  with assms show ?thesis
    by (auto simp: step_main_def frozen_def dest: ended_resume [of c err])
qed (use assms in \<open>auto simp: step_main_def frozen_def stopHeartbeat_def ended_after_stop
       split: if_splits\<close>)

lemma frozen_hb:
  assumes "frozen body lg s" and "step_hb ch s = Some t"
  shows "ended (hs_main t) (hs_closed t) \<and> rw_body (hs_w t) = body \<and> hs_log t = lg"
  using assms ended_gone [of s]
  by (auto simp: frozen_def hb_gone_def step_hb_def)

lemma frozen_step:
  assumes "frozen body lg s" and "hs_step s t"
  shows "frozen body lg t"
proof -
  have inv: "sync_inv s \<and> end_inv s" using assms(1) by (simp add: frozen_def)
  have "ended (hs_main t) (hs_closed t) \<and> rw_body (hs_w t) = body \<and> hs_log t = lg"
    using assms(2) frozen_main [OF assms(1)] frozen_hb [OF assms(1)] by (auto elim!: hs_stepE)
  with ending.keeps [OF inv assms(2)] show ?thesis by (simp add: frozen_def)
qed

interpretation freeze: inductive_invariant hs_step "frozen body lg" for body lg
  by unfold_locales (rule frozen_step)

section \<open>The wire\<close>

fun partial_frame :: "'m main_pc \<Rightarrow> bytes" where
  "partial_frame (MPayload c flag payload) = frame_header flag payload"
| "partial_frame _ = []"

text \<open>The frames still to come, from the program counter.\<close>

fun resume_plan :: "'m crit \<Rightarrow> error option \<Rightarrow> 'm codec \<Rightarrow> bool \<Rightarrow> (byte \<times> bytes) list" where
  "resume_plan (CSend m k) err c cl = plan (k err) c cl"
| "resume_plan (CClose msg k) err c cl = plan (k err) c cl"
| "resume_plan (CError e) err c cl = []"

fun crit_plan :: "'m crit \<Rightarrow> 'm codec \<Rightarrow> bool \<Rightarrow> (byte \<times> bytes) list" where
  "crit_plan (CSend m k) = plan (SSend m k)"
| "crit_plan (CClose msg k) = plan (SClose msg k)"
| "crit_plan (CError e) = plan (SReturn (Some e))"

fun after_plan :: "'m after \<Rightarrow> 'm codec \<Rightarrow> bool \<Rightarrow> (byte \<times> bytes) list" where
  "after_plan (AClose msg k) = plan (SClose msg k)"
| "after_plan (AReturn e) = plan (SReturn e)"

fun todo :: "'m main_pc \<Rightarrow> 'm codec \<Rightarrow> bool \<Rightarrow> (byte \<times> bytes) list" where
  "todo (MProg p) c cl = plan p c cl"
| "todo (MStop a) c cl = after_plan a c cl"
| "todo (MJoin a) c cl = after_plan a c cl"
| "todo (MLock cr) c cl = crit_plan cr c cl"
| "todo (MCrit cr) c cl = crit_plan cr c cl"
| "todo (MPayload cr flag payload) c cl = (flag, payload) # resume_plan cr None c cl"
| "todo (MFlush cr) c cl = resume_plan cr None c cl"
| "todo (MUnlock cr err) c cl = resume_plan cr err c cl"
| "todo MDone c cl = []"
| "todo MPanicked c cl = []"

definition unflushed :: "'m main_pc \<Rightarrow> hb_pc \<Rightarrow> bool" where
  "unflushed p h \<longleftrightarrow> h = HFlush \<or> (\<exists>c. p = MFlush c) \<or> (\<exists>c flag payload. p = MPayload c flag payload)"

text \<open>\<open>c\<close>, \<open>base\<close> and \<open>prog\<close> are the codec, the bytes already there and the handler.\<close>

definition wire_inv :: "'m codec \<Rightarrow> bytes \<Rightarrow> 'm stream_prog \<Rightarrow> 'm hs \<Rightarrow> bool" where
  "wire_inv c base prog s \<longleftrightarrow> hs_codec s = c \<and> rw_fault (hs_w s) = (\<lambda>_. None) \<and>
     rw_body (hs_w s) = base @ encode_frames (hs_log s) @ partial_frame (hs_main s) \<and>
     no_heartbeats (hs_log s) @ todo (hs_main s) c (hs_closed s) = plan prog c False \<and>
     (unflushed (hs_main s) (hs_hb s) \<or> rw_flushed (hs_w s) = length (rw_body (hs_w s))) \<and>
     (\<forall>p. (FlagHeartbeat, p) \<in> set (hs_log s) \<longrightarrow> p = [])"

lemma no_heartbeats_append [simp]:
  "no_heartbeats (xs @ ys) = no_heartbeats xs @ no_heartbeats ys"
  by (simp add: no_heartbeats_def)

lemma no_heartbeats_single [simp]:
  "no_heartbeats [(flag, p)] = (if flag = FlagHeartbeat then [] else [(flag, p)])"
  "no_heartbeats [] = []"
  by (simp_all add: no_heartbeats_def)

lemma plan_closed [simp]: "plan p c True = []"
  by (induction p) (auto split: option.splits)

lemmas wire_defs = wire_inv_def unflushed_def encode_frame_def rw_Write_ok

lemma begin_frame_wire:
  assumes "wire_inv c base prog s" and "hs_main s = MCrit cr" and "flag \<noteq> FlagHeartbeat"
    and "no_heartbeats (hs_log s) @ (flag, payload) # resume_plan cr None c (hs_closed s) =
      plan prog c False"
  shows "wire_inv c base prog (begin_frame cr flag payload s)"
  using assms by (auto simp: begin_frame_def wire_defs)

lemma end_frame_wire:
  assumes "wire_inv c base prog s" and "hs_main s = MPayload cr flag payload"
    and "flag \<noteq> FlagHeartbeat"
  shows "wire_inv c base prog (end_frame cr flag payload s)"
  using assms by (auto simp: end_frame_def wire_defs)

lemma run_crit_wire:
  assumes "wire_inv c base prog s" and "hs_main s = MCrit cr" and "pc_ok (MCrit cr) (hs_closed s)"
    and "hs_hb s \<noteq> HFlush"
  shows "wire_inv c base prog (run_crit cr s)"
proof -
  have flushed: "rw_flushed (hs_w s) = length (rw_body (hs_w s))"
    using assms by (auto simp: wire_defs)
  have plan: "no_heartbeats (hs_log s) @ crit_plan cr c (hs_closed s) = plan prog c False"
    and c: "hs_codec s = c" using assms by (auto simp: wire_defs)
  show ?thesis
  proof (cases cr)
    case (CSend m k)
    show ?thesis
    proof (cases "hs_closed s \<or> (\<exists>e. marshal_app c m = Inl e)")
      case True
      with assms(1,2) plan flushed show ?thesis
        by (auto simp: CSend c Send_crit_def wire_defs)
    next
      case False
      then obtain b where "marshal_app c m = Inr b" by (cases "marshal_app c m") auto
      with False plan assms(1,2) show ?thesis
        by (auto simp: CSend c Send_crit_def intro!: begin_frame_wire)
    qed
  next
    case (CClose msg k)
    show ?thesis
    proof (cases "hs_closed s")
      case True
      with assms(1,2) plan flushed show ?thesis
        by (auto simp: CClose c Close_crit_def wire_defs)
    next
      case False
      with assms(1,2) plan flushed show ?thesis
        by (auto simp: CClose c Close_crit_def begin_frame_def wire_defs Let_def split: sum.splits)
    qed
  next
    case (CError e)
    with assms(3) have "\<not> hs_closed s" by simp
    with assms(1,2) plan flushed show ?thesis
      by (auto simp: CError c Error_crit_def wire_defs begin_frame_def split: sum.splits)
  qed
qed

lemma after_stop_todo [simp]: "todo (after_stop a cl) c cl = after_plan a c cl"
  by (cases "(a, cl)" rule: after_stop.cases) auto

lemma resume_todo [simp]: "todo (resume cr err) c cl = resume_plan cr err c cl"
  by (cases cr) auto

lemma partial_frame_simps [simp]:
  "partial_frame (after_stop a cl) = []" "partial_frame (resume cr err) = []"
  by (cases "(a, cl)" rule: after_stop.cases; simp) (cases cr; simp)

lemma wire_inv_main:
  assumes "wire_inv c base prog s" and "sync_inv s" and "end_inv s" and "step_main s = Some t"
  shows "wire_inv c base prog t"
proof (cases "hs_main s")
  case (MProg p)
  with assms show ?thesis by (cases p) (auto simp: step_main_def wire_defs)
next
  case (MCrit cr)
  with assms(2) have "hs_hb s \<noteq> HFlush" by (auto simp: sync_inv_def hb_holds_def)
  with MCrit assms show ?thesis
    by (auto simp: step_main_def end_inv_def intro: run_crit_wire simp del: run_crit.simps)
next
  case (MPayload cr flag payload)
  with assms(3) have "flag \<noteq> FlagHeartbeat" by (cases cr) (auto simp: end_inv_def)
  with MPayload assms show ?thesis by (auto simp: step_main_def intro: end_frame_wire)
next
  case (MUnlock cr err)
  with assms show ?thesis by (auto simp: step_main_def wire_defs)
qed (use assms in \<open>auto simp: step_main_def wire_defs stopHeartbeat_def split: if_splits\<close>)

lemma wire_inv_hb:
  assumes "wire_inv c base prog s" and "sync_inv s" and "step_hb ch s = Some t"
  shows "wire_inv c base prog t"
proof (cases "hb_holds (hs_hb s)")
  case True
  with assms(2) have "\<not> main_holds (hs_main s)" by (auto simp: sync_inv_def)
  then have "partial_frame (hs_main s) = []" by (cases "hs_main s") auto
  moreover have "hs_hb s = HCrit \<or> hs_hb s = HFlush" using True by (simp add: hb_holds_def)
  ultimately show ?thesis using assms(1,3)
    by (elim disjE) (auto simp: hb_defs wire_defs split: if_splits)
next
  case False
  with assms(1,3) show ?thesis
    by (auto simp: hb_defs wire_defs hb_holds_def split: hb_splits)
qed

interpretation wire: inductive_invariant hs_step
  "\<lambda>s. sync_inv s \<and> end_inv s \<and> wire_inv c base prog s" for c base prog
  by unfold_locales
    (auto elim!: hs_stepE intro: sync_inv_main sync_inv_hb end_inv_main end_inv_hb
      wire_inv_main wire_inv_hb)

lemma hs_reach_wire:
  assumes "hs_reach (stream_start c w interval prog) s"
    and "rw_fault w = (\<lambda>_. None)" and "rw_flushed w = length (rw_body w)"
  shows "wire_inv c (rw_body w) prog s"
proof -
  let ?s0 = "stream_start c w interval prog"
  have "sync_inv ?s0 \<and> end_inv ?s0 \<and> wire_inv c (rw_body w) prog ?s0"
    using assms(2,3) sync_inv_start [of c w interval prog]
    by (simp add: wire_inv_def end_inv_def stream_start_def)
  then show ?thesis
    using wire.always [of ?s0 s c "rw_body w" prog] assms(1) by (simp add: hs_reach_def)
qed

text \<open>The state in which the request goroutine has returned.\<close>

lemma stream_done:
  assumes "hs_reach (stream_start c w interval prog) s" and "hs_main s = MDone"
    and "rw_fault w = (\<lambda>_. None)" and "rw_flushed w = length (rw_body w)"
  shows "rw_body (hs_w s) = rw_body w @ encode_frames (hs_log s)"
    and "no_heartbeats (hs_log s) = plan prog c False"
    and "rw_flushed (hs_w s) = length (rw_body (hs_w s))"
    and "(FlagHeartbeat, payload) \<in> set (hs_log s) \<Longrightarrow> payload = []"
proof -
  have w: "wire_inv c (rw_body w) prog s" by (rule hs_reach_wire [OF assms(1,3,4)])
  have "hb_gone (hs_hb s)" using hs_reach_sync [OF assms(1)] assms(2) by (auto simp: sync_inv_def)
  then have "\<not> unflushed (hs_main s) (hs_hb s)"
    using assms(2) by (auto simp: unflushed_def hb_gone_def)
  with w assms(2) show "rw_body (hs_w s) = rw_body w @ encode_frames (hs_log s)"
    and "no_heartbeats (hs_log s) = plan prog c False"
    and "rw_flushed (hs_w s) = length (rw_body (hs_w s))"
    and "(FlagHeartbeat, payload) \<in> set (hs_log s) \<Longrightarrow> payload = []"
    by (auto simp: wire_inv_def)
qed

section \<open>Status and header\<close>

definition head_ok :: "header \<Rightarrow> rw \<Rightarrow> bool" where
  "head_ok hdr w \<longleftrightarrow> rw_header w = hdr \<and>
     (rw_status w = None \<or> rw_status w = Some 200 \<and> rw_sent w = hdr)"

lemma head_ok_Write: "rw_Write b w = ((n, e), w') \<Longrightarrow> head_ok hdr w \<Longrightarrow> head_ok hdr w'"
  by (frule rw_Write_frame(1), frule rw_Write_frame(4), drule rw_Write_frame(5))
    (auto simp: head_ok_def)

lemma head_ok_Flush [simp]: "head_ok hdr w \<Longrightarrow> head_ok hdr (rw_Flush w)"
  by (auto simp: head_ok_def rw_Flush_def rw_WriteHeader_def)

lemma head_ok_frames:
  assumes "head_ok hdr (hs_w s)"
  shows "head_ok hdr (hs_w (begin_frame c f p s))" and "head_ok hdr (hs_w (end_frame c f p s))"
    and "head_ok hdr (hs_w (hb_write s))"
  using assms
  by (auto simp: begin_frame_def end_frame_def hb_write_def split: prod.splits option.splits
      dest: head_ok_Write)

lemma head_ok_crit: "head_ok hdr (hs_w s) \<Longrightarrow> head_ok hdr (hs_w (run_crit c s))"
  by (cases c) (auto simp: crit_defs intro: head_ok_frames split: sum.splits)

lemma head_ok_step:
  assumes "head_ok hdr (hs_w s)" and "hs_step s t"
  shows "head_ok hdr (hs_w t)"
  using assms(2)
proof (cases rule: hs_step.cases)
  case main
  with assms(1) show ?thesis
    by (auto simp: step_main_def stopHeartbeat_def head_ok_frames head_ok_crit
        simp del: run_crit.simps split: main_pc.splits stream_prog.splits if_splits)
next
  case (heartbeat ch)
  with assms(1) show ?thesis
    by (auto simp: step_hb_def hb_exit_def head_ok_frames split: hb_pc.splits hb_choice.splits if_splits)
qed

interpretation head: inductive_invariant hs_step "\<lambda>s. head_ok hdr (hs_w s)" for hdr
  by unfold_locales (rule head_ok_step)

section \<open>Termination\<close>

text \<open>
  Every step but a tick of the ticker brings the run closer to its end: the handler's program
  shrinks, or the goroutine advances in one of its calls, or the heartbeat goroutine does.
\<close>

inductive quiet_step :: "'m hs \<Rightarrow> 'm hs \<Rightarrow> bool" where
  quiet_main: "step_main s = Some t \<Longrightarrow> quiet_step s t"
| quiet_hb: "ch \<noteq> TakeTick \<Longrightarrow> step_hb ch s = Some t \<Longrightarrow> quiet_step s t"

definition sub_prog :: "('m stream_prog option \<times> 'm stream_prog option) set" where
  "sub_prog = {(None, Some p) | p. True} \<union> {(Some (k e), Some (SSend m k)) | m k e. True} \<union>
     {(Some (k e), Some (SClose msg k)) | msg k e. True}"

fun crit_prog :: "'m crit \<Rightarrow> 'm stream_prog" where
  "crit_prog (CSend m k) = SSend m k"
| "crit_prog (CClose msg k) = SClose msg k"
| "crit_prog (CError e) = SReturn (Some e)"

fun after_prog :: "'m after \<Rightarrow> 'm stream_prog" where
  "after_prog (AClose msg k) = SClose msg k"
| "after_prog (AReturn e) = SReturn e"

fun pc_rank :: "'m main_pc \<Rightarrow> 'm stream_prog option \<times> nat" where
  "pc_rank (MProg p) = (Some p, 7)"
| "pc_rank (MStop a) = (Some (after_prog a), 6)"
| "pc_rank (MJoin a) = (Some (after_prog a), 5)"
| "pc_rank (MLock c) = (Some (crit_prog c), 4)"
| "pc_rank (MCrit c) = (Some (crit_prog c), 3)"
| "pc_rank (MPayload c flag payload) = (Some (crit_prog c), 2)"
| "pc_rank (MFlush c) = (Some (crit_prog c), 1)"
| "pc_rank (MUnlock c err) = (Some (crit_prog c), 0)"
| "pc_rank MDone = (None, 0)"
| "pc_rank MPanicked = (None, 0)"

primrec hb_rank :: "hb_pc \<Rightarrow> nat" where
  "hb_rank HNone = 0"
| "hb_rank HExited = 0"
| "hb_rank HSelect = 1"
| "hb_rank HFlush = 2"
| "hb_rank HCrit = 3"
| "hb_rank HLock = 4"

lemma wf_sub_prog: "wf (sub_prog :: ('m stream_prog option \<times> 'm stream_prog option) set)"
proof (rule wfUNIVI)
  fix P :: "'m stream_prog option \<Rightarrow> bool" and x
  assume "\<forall>x. (\<forall>y. (y, x) \<in> sub_prog \<longrightarrow> P y) \<longrightarrow> P x"
  then have step: "(\<And>y. (y, x) \<in> sub_prog \<Longrightarrow> P y) \<Longrightarrow> P x" for x by blast
  have none: "P None" by (rule step) (auto simp: sub_prog_def)
  have "P (Some p)" for p
  proof (induction p)
    case (SReturn e) show ?case by (rule step) (auto simp: sub_prog_def none)
  next
    case SPanic show ?case by (rule step) (auto simp: sub_prog_def none)
  next
    case (SSend m k) show ?case by (rule step) (use SSend in \<open>auto simp: sub_prog_def none\<close>)
  next
    case (SClose msg k) show ?case by (rule step) (use SClose in \<open>auto simp: sub_prog_def none\<close>)
  qed
  with none show "P x" by (cases x) auto
qed

definition run_order :: "('m hs \<times> 'm hs) set" where
  "run_order = inv_image (sub_prog <*lex*> less_than <*lex*> less_than)
     (\<lambda>s. (fst (pc_rank (hs_main s)), snd (pc_rank (hs_main s)), hb_rank (hs_hb s)))"

lemma wf_run_order: "wf run_order"
  unfolding run_order_def by (intro wf_inv_image wf_lex_prod wf_sub_prog wf_less_than)

lemma sub_prog_None [simp]: "(None, Some p) \<in> sub_prog"
  by (simp add: sub_prog_def)

lemma frame_rank:
  "fst (pc_rank (hs_main (begin_frame c f p s))) = Some (crit_prog c)"
  "snd (pc_rank (hs_main (begin_frame c f p s))) < 3"
  "fst (pc_rank (hs_main (end_frame c f p s))) = Some (crit_prog c)"
  "snd (pc_rank (hs_main (end_frame c f p s))) < 2"
  by (auto simp: begin_frame_def end_frame_def split: prod.splits option.splits)

lemma run_crit_rank:
  "fst (pc_rank (hs_main (run_crit c s))) = Some (crit_prog c)"
  "snd (pc_rank (hs_main (run_crit c s))) < 3"
  by (cases c; auto simp: crit_defs frame_rank split: sum.splits)+

lemma after_stop_rank:
  "(fst (pc_rank (after_stop a cl)), Some (after_prog a)) \<in> sub_prog \<or>
   fst (pc_rank (after_stop a cl)) = Some (after_prog a) \<and> snd (pc_rank (after_stop a cl)) < 5"
  by (cases "(a, cl)" rule: after_stop.cases) (auto simp: sub_prog_def)

lemma resume_rank: "(fst (pc_rank (resume c err)), Some (crit_prog c)) \<in> sub_prog"
  by (cases c) (auto simp: sub_prog_def)

lemma quiet_main_decreases:
  assumes "step_main s = Some t"
  shows "(t, s) \<in> run_order"
proof (cases "hs_main s")
  case (MProg p)
  with assms show ?thesis by (cases p) (auto simp: step_main_def run_order_def)
next
  case (MStop a)
  with assms after_stop_rank [of a "hs_closed s"] show ?thesis
    by (cases "hs_once s") (auto simp: step_main_def run_order_def stopHeartbeat_def)
next
  case (MJoin a)
  with assms after_stop_rank [of a "hs_closed s"] show ?thesis
    by (auto simp: step_main_def run_order_def split: if_splits)
next
  case (MCrit c)
  with assms run_crit_rank [of c s] show ?thesis
    by (auto simp: step_main_def run_order_def simp del: run_crit.simps)
next
  case (MPayload c flag payload)
  with assms frame_rank(3,4) [of c flag payload s] show ?thesis
    by (auto simp: step_main_def run_order_def)
next
  case (MUnlock c err)
  with assms resume_rank [of c err] show ?thesis by (auto simp: step_main_def run_order_def)
qed (use assms in \<open>auto simp: step_main_def run_order_def split: if_splits\<close>)

lemma quiet_hb_decreases:
  assumes "step_hb ch s = Some t" and "ch \<noteq> TakeTick"
  shows "(t, s) \<in> run_order"
  using assms by (auto simp: hb_defs run_order_def split: hb_splits)

lemma quiet_decreases: "quiet_step s t \<Longrightarrow> (t, s) \<in> run_order"
  by (auto elim!: quiet_step.cases intro: quiet_main_decreases quiet_hb_decreases)

text \<open>Until the request goroutine is done, one of the two can move without a tick.\<close>

lemma quiet_enabled:
  assumes "sync_inv s" and "hs_main s \<noteq> MDone" and "hs_main s \<noteq> MPanicked"
  shows "\<exists>t. quiet_step s t"
proof (cases "step_main s")
  case (Some t)
  then show ?thesis by (blast intro: quiet_main)
next
  case None
  then have "(\<exists>c. hs_main s = MLock c \<and> hs_mu s \<noteq> None) \<or>
      (\<exists>a. hs_main s = MJoin a \<and> \<not> hs_stopped s)"
    using assms(2,3) by (auto simp: step_main_def split: main_pc.splits stream_prog.splits if_splits)
  then have "hb_holds (hs_hb s) \<or> (hs_stop s \<and> \<not> hb_gone (hs_hb s) \<and> hs_mu s \<noteq> Some OMain)"
    using assms(1) by (auto simp: sync_inv_def) (metis owner.exhaust)+
  then have "\<exists>ch t. ch \<noteq> TakeTick \<and> step_hb ch s = Some t"
    using assms(1) by (cases "hs_hb s"; cases "hs_mu s"; cases "the (hs_mu s)")
      (auto simp: step_hb_def hb_holds_def hb_gone_def sync_inv_def split: if_splits
        intro: exI [of _ Continue] exI [of _ TakeStop])
  then show ?thesis by (blast intro: quiet_hb)
qed

section \<open>Panics\<close>

text \<open>After a panic of the handler nobody stops the heartbeat goroutine.\<close>

definition orphaned :: "'m hs \<Rightarrow> bool" where
  "orphaned s \<longleftrightarrow> hs_main s = MPanicked \<and> \<not> hs_closed s \<and> \<not> hs_stop s \<and> \<not> hb_gone (hs_hb s)"

lemma orphaned_step: "orphaned s \<Longrightarrow> hs_step s t \<Longrightarrow> orphaned t"
  by (auto elim!: hs_stepE simp: orphaned_def step_main_def hb_defs hb_gone_def split: hb_splits)

interpretation orphan: inductive_invariant hs_step orphaned
  by unfold_locales (rule orphaned_step)

end
