(* ===== verification/Stream_Client.thy ===== *)
theory Stream_Client
  imports Service
begin

text \<open>
  streaming.go, client side: \<open>streamReader\<close>, its \<open>Recv\<close> loop and \<open>Close\<close>.

  The heartbeat timer and the caller act on the request's context from other goroutines; all
  \<open>Recv\<close> sees of them is whether the context has an error when a read has failed. That
  observation is the argument \<open>ctx\<close>. The loop consumes heartbeat frames and may do so
  for as long as the peer sends them, so it is a partial function.
\<close>

record ('s, 'm) streamReader =
  sr_r :: "'s frame_reader"
  sr_codec :: "'m codec"
  sr_StatusCode :: int
  sr_hasRequest :: bool
  sr_cancelled :: bool
  sr_done :: bool
  sr_hasPending :: bool
  sr_heartbeatTimeout :: int

definition hex_digit :: "nat \<Rightarrow> char" where
  "hex_digit d = ''0123456789abcdef'' ! d"

definition hex_byte :: "byte \<Rightarrow> string" where
  "hex_byte b = (let n = unat b in
     if n < 16 then [hex_digit n] else [hex_digit (n div 16), hex_digit (n mod 16)])"

definition unknown_flag :: "byte \<Rightarrow> error" where
  "unknown_flag flag = ErrText (''unknown frame flag: 0x'' @ hex_byte flag)"

text \<open>What an error frame becomes.\<close>

definition error_frame :: "'m codec \<Rightarrow> int \<Rightarrow> bytes \<Rightarrow> error" where
  "error_frame c status payload =
     (case unmarshal_reply c payload of
        Inl err \<Rightarrow> ErrWrap (''while unmarshalling error frame: '' @ Error err) err
      | Inr reply \<Rightarrow>
          ClientErr (ClientError (r_details reply) (r_message reply) None False
            (r_code reply) status))"

text \<open>What \<open>Recv\<close> does with a frame it has read, other than a heartbeat.\<close>

definition on_frame ::
  "('s, 'm) streamReader \<Rightarrow> byte \<Rightarrow> bytes \<Rightarrow> (error + 'm) \<times> ('s, 'm) streamReader" where
  "on_frame sr flag payload =
     (if flag = FlagData then
        (case unmarshal_app (sr_codec sr) payload of
           Inl e \<Rightarrow> (Inl e, sr\<lparr>sr_done := True\<rparr>)
         | Inr m \<Rightarrow> (Inr m, sr))
      else if flag = FlagFinal then
        (if payload \<noteq> [] then
           (case unmarshal_app (sr_codec sr) payload of
              Inl e \<Rightarrow> (Inl e, sr\<lparr>sr_done := True\<rparr>)
            | Inr m \<Rightarrow> (Inr m, sr\<lparr>sr_hasPending := True\<rparr>))
         else (Inl EOF, sr\<lparr>sr_done := True\<rparr>))
      else if flag = FlagError then
        (Inl (error_frame (sr_codec sr) (sr_StatusCode sr) payload), sr\<lparr>sr_done := True\<rparr>)
      else (Inl (unknown_flag flag), sr\<lparr>sr_done := True\<rparr>))"

text \<open>What \<open>Recv\<close> returns when the read of a frame failed; \<open>ctx\<close>: the request's context has an error.\<close>

definition on_read_error :: "bool \<Rightarrow> int \<Rightarrow> bool \<Rightarrow> error \<Rightarrow> error" where
  "on_read_error ctx heartbeatTimeout hasRequest e =
     (if e = EOF then ErrUnexpectedEOF
      else if 0 < heartbeatTimeout \<and> hasRequest \<and> ctx then ErrHeartbeatTimeout
      else e)"

lemmas recv_defs = on_frame_def on_read_error_def

partial_function (option) Recv_loop ::
  "bool \<Rightarrow> (source, 'm) streamReader \<Rightarrow> ((error + 'm) \<times> (source, 'm) streamReader) option" where
  "Recv_loop ctx sr =
     (case ReadFrame src_read (sr_r sr) of
        None \<Rightarrow> None
      | Some ((flag, payload, err), r') \<Rightarrow>
          (let sr1 = sr\<lparr>sr_r := r'\<rparr> in
           case err of
             Some e \<Rightarrow>
               Some (Inl (on_read_error (ctx \<or> sr_cancelled sr) (sr_heartbeatTimeout sr) (sr_hasRequest sr) e),
                     sr1\<lparr>sr_done := True\<rparr>)
           | None \<Rightarrow>
               (if flag = FlagHeartbeat then Recv_loop ctx sr1
                else Some (on_frame sr1 flag payload))))"

definition Recv :: "bool \<Rightarrow> (source, 'm) streamReader \<Rightarrow> ((error + 'm) \<times> (source, 'm) streamReader) option" where
  "Recv ctx sr =
     (if sr_done sr \<and> \<not> sr_hasPending sr then Some (Inl EOF, sr)
      else if sr_hasPending sr then
        Some (Inl EOF, sr\<lparr>sr_hasPending := False, sr_done := True\<rparr>)
      else Recv_loop ctx sr)"

definition streamReader_Close :: "(source, 'm) streamReader \<Rightarrow> (source, 'm) streamReader" where
  "streamReader_Close sr =
     sr\<lparr>sr_cancelled := True, sr_done := True,
        sr_r := (sr_r sr)\<lparr>fr_r := src_close (fr_r (sr_r sr))\<rparr>\<rparr>"

section \<open>The stream as the caller sees it\<close>

text \<open>
  The caller's loop: call after call until an error, keeping what was received. A call is
  \<open>Recv\<close> in one of its models, with an argument for what the outside contributes to it.
\<close>

fun recv_calls ::
  "('g \<Rightarrow> ('s, 'm) streamReader \<Rightarrow> ((error + 'm) \<times> ('s, 'm) streamReader) option) \<Rightarrow> 'g list \<Rightarrow>
    ('s, 'm) streamReader \<Rightarrow> (error + 'm) list option" where
  "recv_calls call [] sr = Some []"
| "recv_calls call (g # gs) sr =
     (case call g sr of
        None \<Rightarrow> None
      | Some (Inl e, sr') \<Rightarrow> Some [Inl e]
      | Some (Inr m, sr') \<Rightarrow> map_option (\<lambda>ms. Inr m # ms) (recv_calls call gs sr'))"

definition recv_all :: "nat \<Rightarrow> bool \<Rightarrow> (source, 'm) streamReader \<Rightarrow> (error + 'm) list option" where
  "recv_all n ctx sr = recv_calls Recv (replicate n ctx) sr"

text \<open>The specification: what a list of frames means to a receiver.\<close>

fun recv_stream :: "'m codec \<Rightarrow> int \<Rightarrow> (byte \<times> bytes) list \<Rightarrow> (error + 'm) list" where
  "recv_stream c status [] = [Inl ErrUnexpectedEOF]"
| "recv_stream c status ((flag, payload) # fs) =
     (if flag = FlagHeartbeat then recv_stream c status fs
      else if flag = FlagData then
        (case unmarshal_app c payload of Inl e \<Rightarrow> [Inl e] | Inr m \<Rightarrow> Inr m # recv_stream c status fs)
      else if flag = FlagFinal then
        (if payload = [] then [Inl EOF]
         else (case unmarshal_app c payload of Inl e \<Rightarrow> [Inl e] | Inr m \<Rightarrow> [Inr m, Inl EOF]))
      else if flag = FlagError then [Inl (error_frame c status payload)]
      else [Inl (unknown_flag flag)])"

section \<open>The contract of a receiving call\<close>

text \<open>
  \<open>recv_step\<close>: one call gives the head of the specification; after a message the reader is
  positioned (\<open>placed\<close>) at frames with the rest of it, or has the end of the stream pending.
\<close>

definition recv_step ::
  "(('s, 'm) streamReader \<Rightarrow> (byte \<times> bytes) list \<Rightarrow> bool) \<Rightarrow> 'm codec \<Rightarrow> int \<Rightarrow> (byte \<times> bytes) list \<Rightarrow>
    ('s, 'm) streamReader \<Rightarrow> error + 'm \<Rightarrow> bool" where
  "recv_step placed c status fs sr' res \<longleftrightarrow>
     (case res of
        Inl e \<Rightarrow> recv_stream c status fs = [Inl e]
      | Inr m \<Rightarrow>
          (\<exists>gs. placed sr' gs \<and> length gs < length fs \<and>
             recv_stream c status fs = Inr m # recv_stream c status gs)
        \<or> (sr_hasPending sr' \<and> recv_stream c status fs = [Inr m, Inl EOF]))"

lemma recv_step_heartbeat:
  "recv_step placed c status fs sr' res \<Longrightarrow> recv_step placed c status ((FlagHeartbeat, p) # fs) sr' res"
  by (auto simp: recv_step_def split: sum.splits intro: less_SucI)

text \<open>The two readers decode messages alike.\<close>

definition same_stream :: "('s, 'm) streamReader \<Rightarrow> ('s, 'm) streamReader \<Rightarrow> bool" where
  "same_stream sr sr' \<longleftrightarrow> sr_codec sr' = sr_codec sr \<and> sr_StatusCode sr' = sr_StatusCode sr"

lemma same_stream_update [simp]:
  "same_stream sr (sr'\<lparr>sr_r := r\<rparr>) = same_stream sr sr'"
  "same_stream sr (sr'\<lparr>sr_done := d\<rparr>) = same_stream sr sr'"
  "same_stream sr (sr'\<lparr>sr_hasPending := p\<rparr>) = same_stream sr sr'"
  "same_stream sr sr"
  by (simp_all add: same_stream_def)

text \<open>
  \<open>call\<close> handles the frames a reader is positioned at: it skips heartbeats, does with any other
  frame what \<open>on_frame\<close> says, takes the end of the body for an unexpected one, and reports a
  pending end of the stream.
\<close>

locale stream_call =
  fixes call :: "'g \<Rightarrow> ('s, 'm) streamReader \<Rightarrow> ((error + 'm) \<times> ('s, 'm) streamReader) option"
    and placed :: "('s, 'm) streamReader \<Rightarrow> (byte \<times> bytes) list \<Rightarrow> bool"
  assumes call_heartbeat: "placed sr ((FlagHeartbeat, p) # fs) \<Longrightarrow>
      \<exists>g' sr'. call g sr = call g' sr' \<and> placed sr' fs \<and> same_stream sr sr'"
    and call_frame: "placed sr ((flag, p) # fs) \<Longrightarrow> flag \<noteq> FlagHeartbeat \<Longrightarrow>
      \<exists>sr1. call g sr = Some (on_frame sr1 flag p) \<and> same_stream sr sr1 \<and> (flag = FlagData \<longrightarrow> placed sr1 fs)"
    and call_end: "placed sr [] \<Longrightarrow> \<exists>sr'. call g sr = Some (Inl ErrUnexpectedEOF, sr') \<and> same_stream sr sr'"
    and call_pending: "sr_hasPending sr \<Longrightarrow> \<exists>sr'. call g sr = Some (Inl EOF, sr')"
begin

lemma call_step:
  "placed sr fs \<Longrightarrow> \<exists>res sr'. call g sr = Some (res, sr') \<and> same_stream sr sr' \<and>
    recv_step placed (sr_codec sr) (sr_StatusCode sr) fs sr' res"
proof (induction fs arbitrary: sr g)
  case Nil
  with call_end [of sr g] show ?case by (auto simp: recv_step_def)
next
  case (Cons f fs)
  obtain flag p where f: "f = (flag, p)" by (cases f)
  show ?case
  proof (cases "flag = FlagHeartbeat")
    case True
    with Cons.prems f call_heartbeat [of sr p fs g] obtain g' sr' where sr':
      "call g sr = call g' sr'" "placed sr' fs" "same_stream sr sr'" by blast
    from Cons.IH [OF sr'(2), of g'] sr'(1,3) show ?thesis
      unfolding f True by (auto simp: same_stream_def intro!: recv_step_heartbeat)
  next
    case False
    with Cons.prems f call_frame [of sr flag p fs g] obtain sr1 where sr1:
      "call g sr = Some (on_frame sr1 flag p)" "same_stream sr sr1" "flag = FlagData \<longrightarrow> placed sr1 fs" by blast
    from sr1(2) have c: "sr_codec sr1 = sr_codec sr" "sr_StatusCode sr1 = sr_StatusCode sr"
      by (simp_all add: same_stream_def)
    have "same_stream sr (snd (on_frame sr1 flag p))"
      using sr1(2) by (simp add: on_frame_def split: sum.splits)
    moreover have "recv_step placed (sr_codec sr) (sr_StatusCode sr) ((flag, p) # fs)
        (snd (on_frame sr1 flag p)) (fst (on_frame sr1 flag p))"
      using False sr1(3) by (auto simp: recv_step_def on_frame_def c split: sum.splits)
    ultimately show ?thesis using sr1(1) f by (cases "on_frame sr1 flag p") auto
  qed
qed

text \<open>The whole stream.\<close>

lemma calls_stream:
  "placed sr fs \<Longrightarrow> Suc (length fs) < length gs \<Longrightarrow>
    recv_calls call gs sr = Some (recv_stream (sr_codec sr) (sr_StatusCode sr) fs)"
proof (induction gs arbitrary: sr fs)
  case Nil
  then show ?case by simp
next
  case (Cons g gs)
  from call_step [OF Cons.prems(1), of g] obtain res sr' where r:
    "call g sr = Some (res, sr')" "sr_codec sr' = sr_codec sr" "sr_StatusCode sr' = sr_StatusCode sr"
    and step: "recv_step placed (sr_codec sr) (sr_StatusCode sr) fs sr' res"
    by (auto simp: same_stream_def)
  show ?case
  proof (cases res)
    case (Inl e)
    with r step show ?thesis by (simp add: recv_step_def)
  next
    case (Inr m)
    with step consider (more) hs where "placed sr' hs" "length hs < length fs"
        "recv_stream (sr_codec sr) (sr_StatusCode sr) fs =
           Inr m # recv_stream (sr_codec sr) (sr_StatusCode sr) hs"
      | (last) "sr_hasPending sr'"
        "recv_stream (sr_codec sr) (sr_StatusCode sr) fs = [Inr m, Inl EOF]"
      by (auto simp: recv_step_def)
    then show ?thesis
    proof cases
      case more
      then have "recv_calls call gs sr' = Some (recv_stream (sr_codec sr') (sr_StatusCode sr') hs)"
        using Cons.prems(2) by (intro Cons.IH) auto
      with more r Inr show ?thesis by simp
    next
      case last
      from Cons.prems(2) obtain g' gs' where "gs = g' # gs'" by (cases gs) auto
      with last r Inr call_pending [OF last(1), of g'] show ?thesis by auto
    qed
  qed
qed

end

section \<open>Recv keeps the contract\<close>

text \<open>A reader positioned at the frames \<open>fs\<close>, after which the body ends cleanly.\<close>

definition at_frames :: "(source, 'm) streamReader \<Rightarrow> (byte \<times> bytes) list \<Rightarrow> bool" where
  "at_frames sr fs \<longleftrightarrow> src_content (fr_r (sr_r sr)) = encode_frames fs \<and>
     src_err (fr_r (sr_r sr)) = EOF \<and>
     (\<forall>(flag, payload) \<in> set fs. fits (fr_maxPayloadSize (sr_r sr)) payload) \<and>
     \<not> sr_done sr \<and> \<not> sr_hasPending sr"

lemma at_frames_read:
  assumes "at_frames sr ((flag, payload) # fs)"
  shows "\<exists>s'. ReadFrame src_read (sr_r sr) = Some ((flag, payload, None), (sr_r sr)\<lparr>fr_r := s'\<rparr>) \<and>
    at_frames (sr\<lparr>sr_r := (sr_r sr)\<lparr>fr_r := s'\<rparr>\<rparr>) fs"
  using assms src.ReadFrame_encoded [of "sr_r sr" flag payload "encode_frames fs"]
  by (auto simp: at_frames_def)

lemma at_frames_end:
  assumes "at_frames sr []"
  shows "\<exists>s'. ReadFrame src_read (sr_r sr) = Some ((0, [], Some EOF), (sr_r sr)\<lparr>fr_r := s'\<rparr>)"
  using assms src.ReadFrame_end [of "sr_r sr"] by (auto simp: at_frames_def)

lemma at_frames_Recv: "at_frames sr fs \<Longrightarrow> Recv ctx sr = Recv_loop ctx sr"
  by (simp add: Recv_def at_frames_def)

interpretation recv: stream_call Recv at_frames
proof (unfold_locales, goal_cases)
  case (1 sr p fs g)
  from at_frames_read [OF this] obtain s' where s':
    "ReadFrame src_read (sr_r sr) = Some ((FlagHeartbeat, p, None), (sr_r sr)\<lparr>fr_r := s'\<rparr>)"
    "at_frames (sr\<lparr>sr_r := (sr_r sr)\<lparr>fr_r := s'\<rparr>\<rparr>) fs" by blast
  let ?sr = "sr\<lparr>sr_r := (sr_r sr)\<lparr>fr_r := s'\<rparr>\<rparr>"
  have "Recv g sr = Recv g ?sr"
    using s' 1 by (simp add: at_frames_Recv [of sr] at_frames_Recv [of ?sr] Recv_loop.simps [of g sr])
  with s'(2) show ?case by (intro exI [of _ g] exI [of _ ?sr]) simp
next
  case (2 sr flag p fs g)
  from at_frames_read [OF 2(1)] obtain s' where
    "ReadFrame src_read (sr_r sr) = Some ((flag, p, None), (sr_r sr)\<lparr>fr_r := s'\<rparr>)"
    "at_frames (sr\<lparr>sr_r := (sr_r sr)\<lparr>fr_r := s'\<rparr>\<rparr>) fs" by blast
  with 2 show ?case
    by (auto simp: at_frames_Recv [OF 2(1)] Recv_loop.simps [of g sr])
next
  case (3 sr g)
  from at_frames_end [OF this] show ?case
    by (auto simp: at_frames_Recv [OF 3] Recv_loop.simps [of g sr] on_read_error_def)
next
  case (4 sr g)
  then show ?case by (simp add: Recv_def)
qed

text \<open>The whole stream, for every way the response body is cut into chunks.\<close>

lemma recv_all_stream:
  assumes "at_frames sr fs" and "Suc (length fs) < n"
  shows "recv_all n ctx sr = Some (recv_stream (sr_codec sr) (sr_StatusCode sr) fs)"
  using recv.calls_stream [OF assms(1), of "replicate n ctx"] assms(2) by (simp add: recv_all_def)

end
