(* ===== verification/Stream_Timeout.thy ===== *)
theory Stream_Timeout
  imports Stream_Client
begin

text \<open>
  streaming.go, the heartbeat timeout of the client's \<open>Recv\<close>, in time. \<open>Stream_Client\<close> sees
  of the timer only whether the context has an error; here the timer runs. Every pass of the
  loop starts a timer, reads a frame and stops the timer; when the timer fires first it cancels
  the request, and the read in progress fails.

  Times are natural numbers of nanoseconds. A body delivers chunks, each at its time of arrival;
  a read waits for the next one, and waiting is all that takes time. A read that is waiting when
  the request's context ends, by the timer or by the caller, fails with \<open>context.Canceled\<close>, and
  so does every read after that. A chunk and the end of the context at the same instant race in
  the program; here the context wins. A body has finitely many chunks and an end, at any times: a
  peer that sends heartbeats for ever, on which \<open>Recv\<close> never returns, is outside the model.
\<close>

record timed_body =
  tb_chunks :: "(nat \<times> bytes) list"
  tb_end :: nat
  tb_err :: error
  tb_now :: nat
  tb_ctx :: "nat option"
  tb_timer :: "nat option"
  tb_cancelled :: bool

text \<open>The context has ended by the time \<open>t\<close>: it was cancelled, or its time or the timer's has come.\<close>

definition due :: "nat option \<Rightarrow> nat \<Rightarrow> bool" where
  "due d t \<longleftrightarrow> (case d of None \<Rightarrow> False | Some c \<Rightarrow> c \<le> t)"

definition ended_by :: "timed_body \<Rightarrow> nat \<Rightarrow> bool" where
  "ended_by s t \<longleftrightarrow> tb_cancelled s \<or> due (tb_ctx s) t \<or> due (tb_timer s) t"

text \<open>The first instant from \<open>tb_now\<close> on at which the context has ended, given that it has by \<open>t\<close>.\<close>

definition end_time :: "timed_body \<Rightarrow> nat" where
  "end_time s =
     (if tb_cancelled s then tb_now s
      else max (tb_now s) (case (tb_ctx s, tb_timer s) of
          (Some c, Some d) \<Rightarrow> min c d | (Some c, None) \<Rightarrow> c | (None, Some d) \<Rightarrow> d | (None, None) \<Rightarrow> 0))"

definition timed_cancel :: "timed_body \<Rightarrow> (bytes \<times> error option) \<times> timed_body" where
  "timed_cancel s = (([], Some Canceled), s\<lparr>tb_now := end_time s, tb_cancelled := True\<rparr>)"

definition timed_read :: "timed_body read_fn" where
  "timed_read k s = (case tb_chunks s of
     [] \<Rightarrow>
       (let t = max (tb_now s) (tb_end s) in
        if ended_by s t then timed_cancel s else (([], Some (tb_err s)), s\<lparr>tb_now := t\<rparr>))
   | (a, b) # cs \<Rightarrow>
       (let t = max (tb_now s) a in
        if ended_by s t then timed_cancel s
        else if length b \<le> k then ((b, None), s\<lparr>tb_now := t, tb_chunks := cs\<rparr>)
        else ((take k b, None), s\<lparr>tb_now := t, tb_chunks := (a, drop k b) # cs\<rparr>)))"

section \<open>Recv with its timer\<close>

definition start_timer :: "int \<Rightarrow> timed_body frame_reader \<Rightarrow> timed_body frame_reader" where
  "start_timer timeout r =
     (if 0 < timeout
      then r\<lparr>fr_r := (fr_r r)\<lparr>tb_timer := Some (tb_now (fr_r r) + nat timeout)\<rparr>\<rparr>
      else r)"

definition stop_timer :: "timed_body frame_reader \<Rightarrow> timed_body frame_reader" where
  "stop_timer r = r\<lparr>fr_r := (fr_r r)\<lparr>tb_timer := None\<rparr>\<rparr>"

partial_function (option) Recv_timed_loop ::
  "(timed_body, 'm) streamReader \<Rightarrow> ((error + 'm) \<times> (timed_body, 'm) streamReader) option" where
  "Recv_timed_loop sr =
     (case ReadFrame timed_read (start_timer (sr_heartbeatTimeout sr) (sr_r sr)) of
        None \<Rightarrow> None
      | Some ((flag, payload, err), r') \<Rightarrow>
          (let sr1 = sr\<lparr>sr_r := stop_timer r'\<rparr> in
           case err of
             Some e \<Rightarrow>
               Some (Inl (on_read_error
                      (sr_cancelled sr \<or> ended_by (fr_r (sr_r sr1)) (tb_now (fr_r (sr_r sr1))))
                      (sr_heartbeatTimeout sr) (sr_hasRequest sr) e),
                     sr1\<lparr>sr_done := True\<rparr>)
           | None \<Rightarrow>
               (if flag = FlagHeartbeat then Recv_timed_loop sr1
                else Some (on_frame sr1 flag payload))))"

text \<open>A call of \<open>Recv\<close>, \<open>gap\<close> nanoseconds after the last one returned.\<close>

definition Recv_timed ::
  "nat \<Rightarrow> (timed_body, 'm) streamReader \<Rightarrow> ((error + 'm) \<times> (timed_body, 'm) streamReader) option" where
  "Recv_timed gap sr0 =
     (let sr = sr0\<lparr>sr_r := (sr_r sr0)\<lparr>fr_r := (fr_r (sr_r sr0))\<lparr>tb_now := tb_now (fr_r (sr_r sr0)) + gap\<rparr>\<rparr>\<rparr> in
      if sr_done sr \<and> \<not> sr_hasPending sr then Some (Inl EOF, sr)
      else if sr_hasPending sr then Some (Inl EOF, sr\<lparr>sr_hasPending := False, sr_done := True\<rparr>)
      else Recv_timed_loop sr)"

section \<open>The timed body is a reader\<close>

text \<open>
  With the end of its context fixed, a body delivers the chunks that arrive before it and then
  either its own final error or the context's.
\<close>

definition timed_content :: "timed_body \<Rightarrow> bytes" where
  "timed_content s = concat (map snd (takeWhile (\<lambda>(a, b). \<not> ended_by s (max (tb_now s) a)) (tb_chunks s)))"

definition timed_complete :: "timed_body \<Rightarrow> bool" where
  "timed_complete s \<longleftrightarrow>
     list_all (\<lambda>(a, b). \<not> ended_by s (max (tb_now s) a)) (tb_chunks s) \<and>
     \<not> ended_by s (max (tb_now s) (tb_end s))"

definition timed_fin :: "timed_body \<Rightarrow> error" where
  "timed_fin s = (if timed_complete s then tb_err s else Canceled)"

definition timed_rank :: "timed_body \<Rightarrow> nat" where
  "timed_rank s = sum_list (map (\<lambda>(a, b). Suc (length b)) (tb_chunks s))"

lemma due_max: "\<not> due d t \<Longrightarrow> due d (max t u) = due d u"
  by (auto simp: due_def max_def split: option.splits)

lemma ended_by_max: "\<not> ended_by s t \<Longrightarrow> ended_by s (max t u) = ended_by s u"
  by (auto simp: ended_by_def due_max)

lemma ended_by_later:
  "\<not> ended_by s t \<Longrightarrow> tb_now s \<le> t \<Longrightarrow> ended_by s (max t u) = ended_by s (max (tb_now s) u)"
  by (metis ended_by_max max.absorb2 max.assoc max.commute)

lemma ended_by_update [simp]:
  "ended_by (s\<lparr>tb_now := x\<rparr>) t = ended_by s t" "ended_by (s\<lparr>tb_chunks := cs\<rparr>) t = ended_by s t"
  "ended_by (s\<lparr>tb_cancelled := True\<rparr>) t"
  by (simp_all add: ended_by_def)

interpretation timed: sticky_reader timed_read timed_content timed_fin timed_rank
proof (unfold_locales, goal_cases)
  case (1 k s b s')
  then obtain a c cs where cs: "tb_chunks s = (a, c) # cs"
    by (auto simp: timed_read_def timed_cancel_def Let_def split: list.splits if_splits)
  let ?t = "max (tb_now s) a"
  from 1 cs have ne: "\<not> ended_by s ?t"
    by (auto simp: timed_read_def timed_cancel_def Let_def split: if_splits)
  note later = ended_by_later [OF ne, simplified]
  from 1 cs ne show ?case
    by (auto simp: timed_read_def Let_def timed_content_def timed_fin_def timed_complete_def
        timed_rank_def later split: if_splits)
next
  case (2 k s b e s')
  then show ?case
    by (auto simp: timed_read_def timed_cancel_def timed_content_def timed_fin_def timed_complete_def
        Let_def split: list.splits if_splits)
next
  case (3 k s b e s')
  then show ?case
    by (auto simp: timed_read_def timed_cancel_def timed_content_def timed_fin_def timed_complete_def
        Let_def takeWhile_eq_Nil_iff split: list.splits if_splits)
qed

section \<open>When bytes arrive\<close>

definition timed_total :: "timed_body \<Rightarrow> bytes" where
  "timed_total s = concat (map snd (tb_chunks s))"

text \<open>The time at which the first \<open>n\<close> bytes (\<open>n > 0\<close>) have arrived.\<close>

fun arrival :: "(nat \<times> bytes) list \<Rightarrow> nat \<Rightarrow> nat" where
  "arrival [] n = 0"
| "arrival ((a, b) # cs) n = (if n \<le> length b then a else max a (arrival cs (n - length b)))"

text \<open>
  From \<open>s0\<close> on, \<open>c\<close> was read without a failure, and \<open>s\<close> is the state now: the rest is
  there, with the times at which it arrives, and the context had not ended.
\<close>

definition same_body :: "timed_body \<Rightarrow> timed_body \<Rightarrow> bool" where
  "same_body s0 s \<longleftrightarrow> tb_end s = tb_end s0 \<and> tb_err s = tb_err s0 \<and> tb_ctx s = tb_ctx s0 \<and>
     tb_timer s = tb_timer s0 \<and> tb_cancelled s = tb_cancelled s0"

definition read_on :: "timed_body \<Rightarrow> bytes \<Rightarrow> timed_body \<Rightarrow> bool" where
  "read_on s0 c s \<longleftrightarrow>
     timed_total s0 = c @ timed_total s \<and>
     same_body s0 s \<and> tb_now s0 \<le> tb_now s \<and>
     (tb_now s = tb_now s0 \<or> \<not> ended_by s0 (tb_now s)) \<and>
     (\<forall>m > 0. max (tb_now s) (arrival (tb_chunks s) m) = max (tb_now s) (arrival (tb_chunks s0) (length c + m))) \<and>
     (c \<noteq> [] \<longrightarrow> arrival (tb_chunks s0) (length c) \<le> tb_now s) \<and>
     fst ` set (tb_chunks s) \<subseteq> fst ` set (tb_chunks s0) \<and> timed_complete s = timed_complete s0"

lemma read_on_refl: "read_on s [] s"
  by (simp add: read_on_def same_body_def)

lemma timed_read_lazy: "timed_read k s = ((b, Some x), s') \<Longrightarrow> b = []"
  by (auto simp: timed_read_def timed_cancel_def Let_def split: list.splits if_splits)

text \<open>One read.\<close>

lemma timed_read_on:
  assumes "0 < k" and "timed_read k s = ((b, None), s')"
  shows "read_on s b s'" and "length b \<le> k" and "\<not> ended_by s (tb_now s')"
proof -
  from assms(2) obtain a c cs where cs: "tb_chunks s = (a, c) # cs"
    by (auto simp: timed_read_def timed_cancel_def Let_def split: list.splits if_splits)
  let ?t = "max (tb_now s) a"
  from assms cs have ne: "\<not> ended_by s ?t"
    by (auto simp: timed_read_def timed_cancel_def Let_def split: if_splits)
  have shift: "max ?t (arrival cs m) = max ?t (arrival ((a, c) # cs) (length c + m))" if "0 < m" for m
    using that by (simp add: max.assoc)
  have inner: "arrival ((a, drop k c) # cs) m = arrival ((a, c) # cs) (k + m)" if "k < length c" for m
    using that by (auto simp: add.commute)
  have complete: "timed_complete s' = timed_complete s"
    using assms cs ne
    by (auto simp: timed_read_def timed_complete_def Let_def ended_by_later [OF ne, simplified] split: if_splits)
  show "length b \<le> k" "\<not> ended_by s (tb_now s')"
    using assms cs ne by (auto simp: timed_read_def Let_def split: if_splits)
  show "read_on s b s'"
  proof (cases "length c \<le> k")
    case True
    with assms cs ne have "b = c" "s' = s\<lparr>tb_now := ?t, tb_chunks := cs\<rparr>"
      by (auto simp: timed_read_def Let_def)
    with cs ne shift complete show ?thesis by (auto simp: read_on_def same_body_def timed_total_def)
  next
    case False
    with assms cs ne have b: "b = take k c" "s' = s\<lparr>tb_now := ?t, tb_chunks := (a, drop k c) # cs\<rparr>"
      by (auto simp: timed_read_def Let_def)
    from False have k: "k < length c" by simp
    have "max ?t (arrival ((a, drop k c) # cs) m) = max ?t (arrival ((a, c) # cs) (length b + m))" for m
      using inner [OF k, of m] k b by (simp add: min_def)
    with b cs ne k complete show ?thesis by (auto simp: read_on_def same_body_def timed_total_def min_def)
  qed
qed

lemma read_on_trans:
  assumes "read_on s0 c s" and "read_on s b s'" and "\<not> ended_by s (tb_now s')"
  shows "read_on s0 (c @ b) s'"
proof -
  note d = assms(1,2) [unfolded read_on_def]
  have same: "same_body s0 s'" "ended_by s t = ended_by s0 t" for t
    using d by (auto simp: same_body_def ended_by_def)
  have "max (tb_now s') (arrival (tb_chunks s') m) =
      max (tb_now s') (arrival (tb_chunks s0) (length (c @ b) + m))" if "0 < m" for m
  proof -
    have "max (tb_now s') (arrival (tb_chunks s') m) = max (tb_now s') (arrival (tb_chunks s) (length b + m))"
      using d that by blast
    moreover have "max (tb_now s) (arrival (tb_chunks s) (length b + m)) =
        max (tb_now s) (arrival (tb_chunks s0) (length c + (length b + m)))" using d that by simp
    moreover have "tb_now s \<le> tb_now s'" using d by simp
    ultimately show ?thesis by (simp add: add.assoc max_def split: if_splits)
  qed
  moreover have "arrival (tb_chunks s0) (length (c @ b)) \<le> tb_now s'" if "c @ b \<noteq> []"
  proof (cases "b = []")
    case True
    with that d show ?thesis by auto
  next
    case False
    then have "max (tb_now s) (arrival (tb_chunks s) (length b)) =
        max (tb_now s) (arrival (tb_chunks s0) (length c + length b))" using d by simp
    then have "arrival (tb_chunks s0) (length c + length b) \<le> max (tb_now s) (arrival (tb_chunks s) (length b))"
      by (metis max.cobounded2)
    moreover have "tb_now s \<le> tb_now s'" "arrival (tb_chunks s) (length b) \<le> tb_now s'" using False d by auto
    ultimately show ?thesis by simp
  qed
  moreover have "timed_total s0 = (c @ b) @ timed_total s'" using d by simp
  moreover have "tb_now s0 \<le> tb_now s'" "fst ` set (tb_chunks s') \<subseteq> fst ` set (tb_chunks s0)"
    "timed_complete s' = timed_complete s0"
    using d by (blast intro: order_trans)+
  ultimately show ?thesis
    unfolding read_on_def using assms(3) same by blast
qed

interpretation timed_trace: traced_reader timed_read "read_on s0" for s0
proof (unfold_locales, goal_cases)
  case (1 k c s b s')
  from timed_read_on [OF 1(1,3)] read_on_trans [OF 1(2)] show ?case by simp
next
  case (2 k s b x s')
  then show ?case by (rule timed_read_lazy)
qed

lemma ended_by_mono: "ended_by s t \<Longrightarrow> t \<le> u \<Longrightarrow> ended_by s u"
  by (auto simp: ended_by_def due_def split: option.splits)

lemma content_prefix: "\<exists>rest. timed_total s = timed_content s @ rest"
  unfolding timed_total_def timed_content_def
  by (metis concat_append map_append takeWhile_dropWhile_id)

text \<open>Bytes that arrive before the context ends are delivered.\<close>

lemma takeWhile_covers:
  assumes "0 < n" and "n \<le> length (concat (map snd cs))" and "\<not> ended_by s (max t (arrival cs n))"
  shows "n \<le> length (concat (map snd (takeWhile (\<lambda>(a, b). \<not> ended_by s (max t a)) cs)))"
  using assms
proof (induction cs n rule: arrival.induct)
  case (1 n)
  then show ?case by simp
next
  case (2 a b cs n)
  have ne: "\<not> ended_by s (max t a)"
    using 2(4) by (auto dest: ended_by_mono [of _ _ "max t (arrival ((a, b) # cs) n)"] split: if_splits)
  show ?case
  proof (cases "n \<le> length b")
    case True
    with ne show ?thesis by simp
  next
    case False
    have "\<not> ended_by s (max t (arrival cs (n - length b)))"
      using 2(4) False by (auto dest: ended_by_mono [of _ _ "max t (max a (arrival cs (n - length b)))"])
    then have "n - length b \<le> length (concat (map snd (takeWhile (\<lambda>(a, b). \<not> ended_by s (max t a)) cs)))"
      using 2(3) False by (intro 2(1) [OF False]) auto
    with ne show ?thesis by simp
  qed
qed

lemma content_covers:
  "0 < n \<Longrightarrow> n \<le> length (timed_total s) \<Longrightarrow> \<not> ended_by s (max (tb_now s) (arrival (tb_chunks s) n)) \<Longrightarrow>
    n \<le> length (timed_content s)"
  unfolding timed_total_def timed_content_def by (rule takeWhile_covers)

lemma content_frame:
  assumes "timed_total s = encode_frame flag p @ rest"
    and "\<not> ended_by s (max (tb_now s) (arrival (tb_chunks s) (5 + length p)))"
  shows "\<exists>rest'. timed_content s = encode_frame flag p @ rest'"
proof -
  have "5 + length p \<le> length (timed_content s)"
    using assms by (intro content_covers) simp_all
  moreover from content_prefix [of s] obtain more where "timed_total s = timed_content s @ more" ..
  ultimately show ?thesis
    using assms(1) by (metis append_eq_append_conv_if append_take_drop_id length_encode_frame)
qed

section \<open>Streams on schedule\<close>

text \<open>
  \<open>A n\<close> is when \<open>n\<close> bytes have arrived, \<open>fin\<close> when the body ends. A stream is on schedule when
  each frame is complete less than \<open>timeout\<close> after the one before it, up to the frame that ends
  the stream.
\<close>

definition in_time :: "int \<Rightarrow> nat \<Rightarrow> nat \<Rightarrow> bool" where
  "in_time timeout now t \<longleftrightarrow> timeout \<le> 0 \<or> t < now + nat timeout"

fun on_time :: "int \<Rightarrow> nat \<Rightarrow> nat \<Rightarrow> (nat \<Rightarrow> nat) \<Rightarrow> (byte \<times> bytes) list \<Rightarrow> bool" where
  "on_time timeout fin now A [] \<longleftrightarrow> in_time timeout now fin"
| "on_time timeout fin now A ((flag, p) # fs) \<longleftrightarrow>
     (let n = 5 + length p in
      in_time timeout now (A n) \<and>
      (flag \<in> {FlagHeartbeat, FlagData} \<longrightarrow> on_time timeout fin (max now (A n)) (\<lambda>m. A (n + m)) fs))"

lemma in_time_max: "max now t = max now u \<Longrightarrow> in_time timeout now t = in_time timeout now u"
  by (auto simp: in_time_def max_def split: if_splits)

lemma max_both:
  "max (a :: nat) x = max a y \<Longrightarrow> max a u = max a v \<Longrightarrow> max (max a x) u = max (max a x) v"
  by (simp add: max_def split: if_splits)

lemma on_time_cong:
  "(\<And>m. 0 < m \<Longrightarrow> max now (A m) = max now (B m)) \<Longrightarrow> on_time timeout fin now A fs = on_time timeout fin now B fs"
proof (induction fs arbitrary: now A B)
  case Nil
  then show ?case by simp
next
  case (Cons f fs)
  obtain flag p where f: "f = (flag, p)" by (cases f)
  let ?n = "5 + length p"
  have n: "max now (A ?n) = max now (B ?n)" using Cons.prems by simp
  have "max (max now (A ?n)) (A (?n + m)) = max (max now (A ?n)) (B (?n + m))" if "0 < m" for m
    by (rule max_both [OF n Cons.prems]) simp
  then have "on_time timeout fin (max now (A ?n)) (\<lambda>m. A (?n + m)) fs =
      on_time timeout fin (max now (A ?n)) (\<lambda>m. B (?n + m)) fs" by (rule Cons.IH)
  with in_time_max [OF n] show ?case by (simp add: f Let_def n)
qed

lemma on_time_later:
  "on_time timeout fin now A fs \<Longrightarrow> now \<le> now' \<Longrightarrow> on_time timeout fin now' A fs"
proof (induction fs arbitrary: now now' A)
  case Nil
  then show ?case by (auto simp: in_time_def)
next
  case (Cons f fs)
  obtain flag p where f: "f = (flag, p)" by (cases f)
  let ?n = "5 + length p"
  have "in_time timeout now' (A ?n)" using Cons.prems by (auto simp: f in_time_def Let_def)
  moreover have "on_time timeout fin (max now' (A ?n)) (\<lambda>m. A (?n + m)) fs"
    if "flag \<in> {FlagHeartbeat, FlagData}"
  proof (rule Cons.IH)
    show "on_time timeout fin (max now (A ?n)) (\<lambda>m. A (?n + m)) fs"
      using Cons.prems(1) that by (auto simp: f Let_def)
  qed (use Cons.prems(2) in simp)
  ultimately show ?case by (simp add: f Let_def)
qed

text \<open>A reader positioned at frames that arrive on schedule, in a request nobody else cancels.\<close>

definition body_idle :: "timed_body \<Rightarrow> bool" where
  "body_idle s \<longleftrightarrow> tb_ctx s = None \<and> tb_timer s = None \<and> \<not> tb_cancelled s"

definition on_schedule :: "(timed_body, 'm) streamReader \<Rightarrow> (byte \<times> bytes) list \<Rightarrow> bool" where
  "on_schedule sr fs \<longleftrightarrow>
     (let s = fr_r (sr_r sr) in
      timed_total s = encode_frames fs \<and> tb_err s = EOF \<and> body_idle s \<and>
      (\<forall>(flag, p) \<in> set fs. fits (fr_maxPayloadSize (sr_r sr)) p) \<and>
      (\<forall>a \<in> fst ` set (tb_chunks s). a \<le> tb_end s) \<and>
      on_time (sr_heartbeatTimeout sr) (tb_end s) (tb_now s) (arrival (tb_chunks s)) fs \<and>
      \<not> sr_done sr \<and> \<not> sr_hasPending sr)"

lemma start_timer_simps [simp]:
  "tb_chunks (fr_r (start_timer T r)) = tb_chunks (fr_r r)" "tb_now (fr_r (start_timer T r)) = tb_now (fr_r r)"
  "tb_end (fr_r (start_timer T r)) = tb_end (fr_r r)" "tb_err (fr_r (start_timer T r)) = tb_err (fr_r r)"
  "tb_ctx (fr_r (start_timer T r)) = tb_ctx (fr_r r)"
  "tb_cancelled (fr_r (start_timer T r)) = tb_cancelled (fr_r r)"
  "timed_total (fr_r (start_timer T r)) = timed_total (fr_r r)"
  "fr_maxPayloadSize (start_timer T r) = fr_maxPayloadSize r"
  by (simp_all add: start_timer_def timed_total_def)

text \<open>With the timer running, the context ends exactly when the time is up.\<close>

lemma timer_in_time:
  "body_idle (fr_r r) \<Longrightarrow> ended_by (fr_r (start_timer T r)) (max (tb_now (fr_r r)) t) \<longleftrightarrow>
    \<not> in_time T (tb_now (fr_r r)) t"
  by (auto simp: body_idle_def ended_by_def due_def start_timer_def in_time_def)

lemma on_schedule_read:
  assumes "on_schedule sr ((flag, p) # fs)"
  shows "\<exists>r'. ReadFrame timed_read (start_timer (sr_heartbeatTimeout sr) (sr_r sr)) = Some ((flag, p, None), r') \<and>
    (flag \<in> {FlagHeartbeat, FlagData} \<longrightarrow> on_schedule (sr\<lparr>sr_r := stop_timer r'\<rparr>) fs)"
proof -
  let ?T = "sr_heartbeatTimeout sr" and ?s = "fr_r (sr_r sr)" and ?n = "5 + length p"
  let ?r = "start_timer ?T (sr_r sr)"
  note p = assms [unfolded on_schedule_def Let_def]
  have total: "timed_total (fr_r ?r) = encode_frame flag p @ encode_frames fs" using p by simp
  moreover have "\<not> ended_by (fr_r ?r) (max (tb_now (fr_r ?r)) (arrival (tb_chunks (fr_r ?r)) ?n))"
    using p by (simp add: timer_in_time Let_def)
  ultimately obtain rest where "timed_content (fr_r ?r) = encode_frame flag p @ rest"
    using content_frame by blast
  moreover have "fits (fr_maxPayloadSize ?r) p" using p by simp
  ultimately obtain s' where rf: "ReadFrame timed_read ?r = Some ((flag, p, None), ?r\<lparr>fr_r := s'\<rparr>)"
    using timed.ReadFrame_encoded [of ?r flag p] by blast
  from timed_trace.ReadFrame_keeps [OF rf read_on_refl] obtain header where
    h: "length header = 5" "read_on (fr_r ?r) (header @ p) s'" by auto
  then have len: "length (header @ p) = ?n" by simp
  note k = h(2) [unfolded read_on_def len]
  have rest: "timed_total s' = encode_frames fs"
    using k total len by (metis append_eq_append_conv length_encode_frame)
  let ?sr = "sr\<lparr>sr_r := stop_timer (?r\<lparr>fr_r := s'\<rparr>)\<rparr>"
  have "on_schedule ?sr fs" if "flag \<in> {FlagHeartbeat, FlagData}"
  proof -
    have "on_time ?T (tb_end ?s) (max (tb_now ?s) (arrival (tb_chunks ?s) ?n)) (\<lambda>m. arrival (tb_chunks ?s) (?n + m)) fs"
      using p that by (auto simp: Let_def)
    moreover have "max (tb_now ?s) (arrival (tb_chunks ?s) ?n) \<le> tb_now s'" using k len by auto
    ultimately have "on_time ?T (tb_end ?s) (tb_now s') (\<lambda>m. arrival (tb_chunks ?s) (?n + m)) fs"
      by (rule on_time_later)
    then have "on_time ?T (tb_end ?s) (tb_now s') (arrival (tb_chunks s')) fs"
      by (rule iffD2 [OF on_time_cong, rotated]) (use k in simp)
    moreover have "fst ` set (tb_chunks s') \<subseteq> fst ` set (tb_chunks ?s)" using k by simp
    then have "\<forall>a \<in> fst ` set (tb_chunks s'). a \<le> tb_end ?s" using p by blast
    ultimately show ?thesis
      using rest p k by (simp add: on_schedule_def stop_timer_def timed_total_def body_idle_def same_body_def)
  qed
  with rf show ?thesis by blast
qed

lemma on_schedule_end:
  assumes "on_schedule sr []"
  shows "\<exists>r'. ReadFrame timed_read (start_timer (sr_heartbeatTimeout sr) (sr_r sr)) = Some ((0, [], Some EOF), r')"
proof -
  let ?r = "start_timer (sr_heartbeatTimeout sr) (sr_r sr)"
  note p = assms [unfolded on_schedule_def Let_def]
  have "timed_content (fr_r ?r) = []" using content_prefix [of "fr_r ?r"] p by auto
  moreover have ne: "\<not> ended_by (fr_r ?r) (max (tb_now (fr_r (sr_r sr))) (tb_end (fr_r (sr_r sr))))"
    using p by (simp add: timer_in_time)
  have "timed_complete (fr_r ?r)"
    unfolding timed_complete_def list_all_iff
  proof (intro conjI ballI)
    fix x assume "x \<in> set (tb_chunks (fr_r ?r))"
    then have "fst x \<in> fst ` set (tb_chunks (fr_r (sr_r sr)))" by simp
    then have "fst x \<le> tb_end (fr_r (sr_r sr))" using p by blast
    with ne show "case x of (a, b) \<Rightarrow> \<not> ended_by (fr_r ?r) (max (tb_now (fr_r ?r)) a)"
      by (cases x) (auto dest: ended_by_mono [of _ _ "max (tb_now (fr_r (sr_r sr))) (tb_end (fr_r (sr_r sr)))"])
  qed (use ne in simp)
  then have "timed_fin (fr_r ?r) = EOF" using p by (simp add: timed_fin_def)
  ultimately show ?thesis using timed.ReadFrame_end [of ?r] by auto
qed

lemma on_schedule_wait:
  "on_schedule sr fs \<Longrightarrow>
    on_schedule (sr\<lparr>sr_r := (sr_r sr)\<lparr>fr_r := (fr_r (sr_r sr))\<lparr>tb_now := tb_now (fr_r (sr_r sr)) + gap\<rparr>\<rparr>\<rparr>) fs"
  by (auto simp: on_schedule_def Let_def timed_total_def body_idle_def intro: on_time_later)

lemma on_schedule_open: "on_schedule sr fs \<Longrightarrow> \<not> sr_done sr \<and> \<not> sr_hasPending sr"
  by (simp add: on_schedule_def Let_def)

abbreviation wait_first :: "nat \<Rightarrow> (timed_body, 'm) streamReader \<Rightarrow> (timed_body, 'm) streamReader" where
  "wait_first gap sr \<equiv>
     sr\<lparr>sr_r := (sr_r sr)\<lparr>fr_r := (fr_r (sr_r sr))\<lparr>tb_now := tb_now (fr_r (sr_r sr)) + gap\<rparr>\<rparr>\<rparr>"

lemma Recv_timed_open:
  "\<not> sr_done sr \<Longrightarrow> \<not> sr_hasPending sr \<Longrightarrow> Recv_timed gap sr = Recv_timed_loop (wait_first gap sr)"
  by (simp add: Recv_timed_def)

interpretation recv_timed: stream_call Recv_timed on_schedule
proof (unfold_locales, goal_cases)
  case (1 sr p fs g)
  let ?sr = "wait_first g sr"
  from on_schedule_read [OF on_schedule_wait [OF 1]] obtain r' where r':
    "ReadFrame timed_read (start_timer (sr_heartbeatTimeout ?sr) (sr_r ?sr)) = Some ((FlagHeartbeat, p, None), r')"
    "on_schedule (?sr\<lparr>sr_r := stop_timer r'\<rparr>) fs" by blast
  let ?sr' = "?sr\<lparr>sr_r := stop_timer r'\<rparr>"
  have "Recv_timed g sr = Recv_timed_loop ?sr'"
    using r'(1) on_schedule_open [OF 1] by (simp add: Recv_timed_open Recv_timed_loop.simps [of ?sr])
  also have "\<dots> = Recv_timed 0 ?sr'"
    using on_schedule_open [OF r'(2)] by (simp add: Recv_timed_open)
  finally show ?case using r'(2) by (intro exI [of _ 0] exI [of _ ?sr']) simp
next
  case (2 sr flag p fs g)
  let ?sr = "wait_first g sr"
  from on_schedule_read [OF on_schedule_wait [OF 2(1)]] obtain r' where
    "ReadFrame timed_read (start_timer (sr_heartbeatTimeout ?sr) (sr_r ?sr)) = Some ((flag, p, None), r')"
    "flag = FlagData \<longrightarrow> on_schedule (?sr\<lparr>sr_r := stop_timer r'\<rparr>) fs" by blast
  with 2(2) on_schedule_open [OF 2(1)] show ?case
    by (intro exI [of _ "?sr\<lparr>sr_r := stop_timer r'\<rparr>"])
      (simp add: Recv_timed_open Recv_timed_loop.simps [of ?sr])
next
  case (3 sr g)
  let ?sr = "wait_first g sr"
  from on_schedule_end [OF on_schedule_wait [OF 3]] obtain r' where
    "ReadFrame timed_read (start_timer (sr_heartbeatTimeout ?sr) (sr_r ?sr)) = Some ((0, [], Some EOF), r')" by blast
  with on_schedule_open [OF 3] show ?case
    by (simp add: Recv_timed_open Recv_timed_loop.simps [of ?sr] on_read_error_def)
next
  case (4 sr g)
  then show ?case by (simp add: Recv_timed_def)
qed

section \<open>How long Recv waits\<close>

text \<open>One frame: with the timer running, the read is over when the timer fires at the latest.\<close>

lemma ReadFrame_wait:
  assumes "0 < timeout"
  shows "\<exists>flag p e r' c. ReadFrame timed_read (start_timer timeout r) = Some ((flag, p, e), r') \<and>
    tb_now (fr_r r') \<le> tb_now (fr_r r) + nat timeout \<and> timed_total (fr_r r) = c @ timed_total (fr_r r') \<and>
    (e = None \<longrightarrow> c = encode_frame flag p)"
proof -
  let ?r = "start_timer timeout r"
  let ?D = "tb_now (fr_r r) + nat timeout"
  obtain flag p e r' where rf: "ReadFrame timed_read ?r = Some ((flag, p, e), r')"
    using timed.ReadFrame_decode [of ?r] by (metis surj_pair)
  note keeps = timed_trace.ReadFrame_keeps [OF rf read_on_refl]
  have timer: "tb_timer (fr_r ?r) = Some ?D" using assms by (simp add: start_timer_def)
  have kept: "tb_now s \<le> ?D \<and> timed_total (fr_r r) = c @ timed_total s" if "read_on (fr_r ?r) c s" for c s
  proof -
    have "timed_total (fr_r ?r) = c @ timed_total s" using that by (simp add: read_on_def)
    moreover have "tb_now s \<le> ?D" using that timer by (auto simp: read_on_def ended_by_def due_def)
    ultimately show ?thesis by simp
  qed
  have stopped: "tb_now s' \<le> ?D \<and> (\<exists>c. timed_total (fr_r r) = c @ timed_total s')"
    if stop: "timed_trace.stopped (fr_r ?r) s'" for s'
  proof -
    from stop obtain k c s x where s: "read_on (fr_r ?r) c s" "timed_read k s = (([], Some x), s')"
      by (auto simp: timed_trace.stopped_def)
    note b = kept [OF s(1)]
    have t: "tb_timer s = Some ?D" using s(1) timer by (simp add: read_on_def same_body_def)
    have "timed_total s' = timed_total s"
      using s(2) by (auto simp: timed_read_def timed_cancel_def timed_total_def Let_def split: list.splits if_splits)
    moreover have "tb_now s' \<le> ?D"
      using s(2) b t
      by (auto simp: timed_read_def timed_cancel_def end_time_def ended_by_def due_def Let_def
          split: list.splits if_splits option.splits)
    ultimately show ?thesis using b by auto
  qed
  show ?thesis
  proof (cases e)
    case None
    with keeps obtain header where h: "length header = 5" "read_on (fr_r ?r) (header @ p) (fr_r r')" by auto
    from timed.ReadFrame_decode [of ?r] rf None obtain rest where
      "timed_content (fr_r ?r) = encode_frame flag p @ rest"
      by (metis decode_frame_complete fst_conv option.inject prod.collapse)
    with content_prefix [of "fr_r ?r"] obtain more where "timed_total (fr_r r) = encode_frame flag p @ more" by auto
    moreover note k = kept [OF h(2)]
    ultimately have "header @ p = encode_frame flag p"
      using h(1) by (metis append_eq_append_conv length_append length_encode_frame)
    with k rf None show ?thesis by auto
  next
    case (Some x)
    with keeps kept stopped rf show ?thesis by force
  qed
qed

lemma on_frame_reader: "sr_r (snd (on_frame sr flag p)) = sr_r sr"
  by (simp add: on_frame_def split: sum.splits)

abbreviation heartbeats :: "bytes list \<Rightarrow> (byte \<times> bytes) list" where
  "heartbeats ps \<equiv> map (Pair FlagHeartbeat) ps"

lemma Recv_timed_loop_wait:
  "0 < sr_heartbeatTimeout sr \<Longrightarrow> \<exists>res sr' ps c. Recv_timed_loop sr = Some (res, sr') \<and>
    timed_total (fr_r (sr_r sr)) = encode_frames (heartbeats ps) @ c @ timed_total (fr_r (sr_r sr')) \<and>
    tb_now (fr_r (sr_r sr')) \<le> tb_now (fr_r (sr_r sr)) + nat (sr_heartbeatTimeout sr) * Suc (length ps)"
proof (induction "length (timed_total (fr_r (sr_r sr)))" arbitrary: sr rule: less_induct)
  case less
  let ?T = "sr_heartbeatTimeout sr"
  from ReadFrame_wait [OF less.prems, of "sr_r sr"] obtain flag p e r' c where
    rf: "ReadFrame timed_read (start_timer ?T (sr_r sr)) = Some ((flag, p, e), r')"
    and now: "tb_now (fr_r r') \<le> tb_now (fr_r (sr_r sr)) + nat ?T"
    and rest: "timed_total (fr_r (sr_r sr)) = c @ timed_total (fr_r r')" "e = None \<longrightarrow> c = encode_frame flag p"
    by blast
  let ?sr = "sr\<lparr>sr_r := stop_timer r'\<rparr>"
  have stop: "tb_now (fr_r (stop_timer r')) = tb_now (fr_r r')"
    "timed_total (fr_r (stop_timer r')) = timed_total (fr_r r')"
    by (simp_all add: stop_timer_def timed_total_def)
  show ?case
  proof (cases "e = None \<and> flag = FlagHeartbeat")
    case True
    then have "length (timed_total (fr_r (sr_r ?sr))) < length (timed_total (fr_r (sr_r sr)))"
      using rest stop by simp
    from less.hyps [OF this] less.prems obtain res sr' ps c' where
      "Recv_timed_loop ?sr = Some (res, sr')"
      "timed_total (fr_r r') = encode_frames (heartbeats ps) @ c' @ timed_total (fr_r (sr_r sr'))"
      "tb_now (fr_r (sr_r sr')) \<le> tb_now (fr_r r') + nat ?T * Suc (length ps)"
      using stop by auto
    with True rf now rest show ?thesis
      by (intro exI [of _ res] exI [of _ sr'] exI [of _ "p # ps"] exI [of _ c'])
        (auto simp: Recv_timed_loop.simps [of sr])
  next
    case False
    with rf obtain res sr' where "Recv_timed_loop sr = Some (res, sr')" "sr_r sr' = stop_timer r'"
      using on_frame_reader [of ?sr flag p]
      by (cases e; cases "on_frame ?sr flag p") (auto simp: Recv_timed_loop.simps [of sr] Let_def)
    with now rest stop show ?thesis
      by (intro exI [of _ res] exI [of _ sr'] exI [of _ "[]"] exI [of _ c]) auto
  qed
qed

section \<open>Silence\<close>

text \<open>The bytes that arrive before \<open>t\<close>, and whether the body is still open then.\<close>

definition arrived_before :: "nat \<Rightarrow> timed_body \<Rightarrow> bytes" where
  "arrived_before t s = concat (map snd (takeWhile (\<lambda>(a, b). a < t) (tb_chunks s)))"

definition open_at :: "nat \<Rightarrow> timed_body \<Rightarrow> bool" where
  "open_at t s \<longleftrightarrow> \<not> (list_all (\<lambda>(a, b). a < t) (tb_chunks s) \<and> tb_end s < t)"

text \<open>Bytes that are not yet a frame: a part of a header, or a header and a part of its payload.\<close>

definition incomplete :: "int \<Rightarrow> bytes \<Rightarrow> bool" where
  "incomplete mx c \<longleftrightarrow> length c < 5 \<or>
     (let len = Uint32 (take 4 (drop 1 c)) in
      \<not> (0 < mx \<and> mx < uint len) \<and> length c < 5 + unat len)"

lemma decode_incomplete:
  "incomplete mx c \<Longrightarrow> fin \<noteq> EOF \<Longrightarrow> decode_frame mx fin c = ((0, [], Some ErrUnexpectedEOF), [])"
  by (auto simp: incomplete_def decode_frame_def Let_def)

lemma silence_read:
  assumes "0 < timeout" and "body_idle (fr_r r)"
    and "incomplete (fr_maxPayloadSize r) (arrived_before (tb_now (fr_r r) + nat timeout) (fr_r r))"
    and "open_at (tb_now (fr_r r) + nat timeout) (fr_r r)"
  shows "\<exists>r'. ReadFrame timed_read (start_timer timeout r) = Some ((0, [], Some ErrUnexpectedEOF), r') \<and>
    tb_cancelled (fr_r r') \<and> tb_now (fr_r r') = tb_now (fr_r r) + nat timeout"
proof -
  let ?r = "start_timer timeout r" and ?D = "tb_now (fr_r r) + nat timeout"
  have ended: "ended_by (fr_r ?r) (max (tb_now (fr_r r)) t) \<longleftrightarrow> ?D \<le> t" for t
    using timer_in_time [OF assms(2), of timeout t] assms(1) by (auto simp: in_time_def)
  have content: "timed_content (fr_r ?r) = arrived_before ?D (fr_r r)"
    by (simp add: timed_content_def arrived_before_def ended not_le)
  have fin: "\<not> timed_complete (fr_r ?r)"
    using assms(4) by (simp add: timed_complete_def open_at_def ended not_le)
  then have "timed_fin (fr_r ?r) = Canceled" by (simp add: timed_fin_def)
  with timed.ReadFrame_decode [of ?r] decode_incomplete [OF assms(3), of Canceled] content
  obtain s' where rf: "ReadFrame timed_read ?r = Some ((0, [], Some ErrUnexpectedEOF), ?r\<lparr>fr_r := s'\<rparr>)"
    by auto
  have timer: "tb_timer (fr_r ?r) = Some ?D" using assms(1) by (simp add: start_timer_def)
  from timed_trace.ReadFrame_keeps [OF rf read_on_refl] have "timed_trace.stopped (fr_r ?r) s'"
    by (auto simp: size_error_def)
  then obtain k c s x where s: "read_on (fr_r ?r) c s" "timed_read k s = (([], Some x), s')"
    by (auto simp: timed_trace.stopped_def)
  have same: "tb_ctx s = None" "tb_timer s = Some ?D" "\<not> tb_cancelled s" "tb_now s \<le> ?D"
    "ended_by s = ended_by (fr_r ?r)"
    using s(1) timer assms(2) by (auto simp: read_on_def same_body_def body_idle_def ended_by_def due_def)
  have "tb_cancelled s'"
  proof (rule ccontr)
    assume "\<not> tb_cancelled s'"
    with s(2) have "tb_chunks s = []" "\<not> ended_by s (max (tb_now s) (tb_end s))"
      by (auto simp: timed_read_def timed_cancel_def Let_def split: list.splits if_splits)
    then have "timed_complete s" by (simp add: timed_complete_def)
    with fin s(1) show False by (simp add: read_on_def)
  qed
  moreover from this s(2) same have "tb_now s' = ?D"
    by (auto simp: timed_read_def timed_cancel_def end_time_def Let_def split: list.splits if_splits)
  ultimately show ?thesis using rf by auto
qed

end
