(* ===== verification/Stream_Clock.thy ===== *)
theory Stream_Clock
  imports Stream_Run Stream_Timeout
begin

text \<open>
  streaming.go, the heartbeats of \<open>HandleStream\<close> in time: the ticker ticks, and the two goroutines
  of \<open>Stream_Server\<close> run between its ticks.

  Times are natural numbers of nanoseconds. A goroutine that can go on does so before time
  passes, except that the handler's own code takes any time, and that writing a payload and
  flushing take time, together at most \<open>W\<close> while the mutex is held. The ticker's channel holds one
  tick; a tick that finds it full is dropped, as in package time. Marshalling a message and writing
  the five bytes of a header take no time of their own. The time noted of a frame (\<open>ck_times\<close>) is
  that of its complete write; the flush follows within \<open>W\<close>.
\<close>

record 'm clocked =
  ck_hs :: "'m hs"
  ck_now :: nat
  ck_tick :: nat
  ck_pending :: bool
  ck_held :: nat
  ck_times :: "nat list"

text \<open>A write or a flush is in progress.\<close>

fun main_writing :: "'m main_pc \<Rightarrow> bool" where
  "main_writing (MPayload c flag payload) = True"
| "main_writing (MFlush c) = True"
| "main_writing _ = False"

definition busy :: "'m hs \<Rightarrow> bool" where
  "busy s \<longleftrightarrow> main_writing (hs_main s) \<or> hs_hb s = HFlush"

text \<open>A goroutine can go on with something else.\<close>

fun main_prompt :: "'m hs \<Rightarrow> 'm main_pc \<Rightarrow> bool" where
  "main_prompt s (MStop a) = True"
| "main_prompt s (MJoin a) = hs_stopped s"
| "main_prompt s (MLock c) = (hs_mu s = None)"
| "main_prompt s (MCrit c) = True"
| "main_prompt s (MUnlock c err) = True"
| "main_prompt s _ = False"

fun hb_prompt :: "'m hs \<Rightarrow> bool \<Rightarrow> hb_pc \<Rightarrow> bool" where
  "hb_prompt s pending HSelect = (pending \<or> hs_stop s)"
| "hb_prompt s pending HLock = (hs_mu s = None)"
| "hb_prompt s pending HCrit = True"
| "hb_prompt s pending _ = False"

definition prompt :: "'m clocked \<Rightarrow> bool" where
  "prompt ck \<longleftrightarrow> main_prompt (ck_hs ck) (hs_main (ck_hs ck)) \<or>
     hb_prompt (ck_hs ck) (ck_pending ck) (hs_hb (ck_hs ck))"

text \<open>A step of a goroutine: when it completes a frame its time is noted.\<close>

definition advance :: "'m hs \<Rightarrow> 'm clocked \<Rightarrow> 'm clocked" where
  "advance t ck =
     ck\<lparr>ck_hs := t, ck_held := (if hs_mu t = None then 0 else ck_held ck),
        ck_times := ck_times ck @ (if hs_log t = hs_log (ck_hs ck) then [] else [ck_now ck])\<rparr>"

definition pass :: "nat \<Rightarrow> 'm clocked \<Rightarrow> 'm clocked" where
  "pass I ck =
     ck\<lparr>ck_now := ck_now ck + 1,
        ck_held := (if busy (ck_hs ck) then ck_held ck + 1 else ck_held ck),
        ck_pending := (ck_pending ck \<or> ck_now ck + 1 = ck_tick ck),
        ck_tick := (if ck_now ck + 1 = ck_tick ck then ck_tick ck + I else ck_tick ck)\<rparr>"

inductive clock_step :: "nat \<Rightarrow> nat \<Rightarrow> 'm clocked \<Rightarrow> 'm clocked \<Rightarrow> bool" for I W where
  clock_main: "step_main (ck_hs ck) = Some t \<Longrightarrow> clock_step I W ck (advance t ck)"
| clock_hb: "step_hb ch (ck_hs ck) = Some t \<Longrightarrow> (ch = TakeTick \<longrightarrow> ck_pending ck) \<Longrightarrow>
    clock_step I W ck (advance t (ck\<lparr>ck_pending := ck_pending ck \<and> ch \<noteq> TakeTick\<rparr>))"
| clock_pass: "\<not> prompt ck \<Longrightarrow> (busy (ck_hs ck) \<longrightarrow> ck_held ck < W) \<Longrightarrow> clock_step I W ck (pass I ck)"

inductive_cases clock_stepE: "clock_step I W ck ck'"

definition clock_start :: "nat \<Rightarrow> 'm hs \<Rightarrow> 'm clocked" where
  "clock_start I s =
     \<lparr>ck_hs = s, ck_now = 0, ck_tick = I, ck_pending = False, ck_held = 0, ck_times = []\<rparr>"

definition clock_reach :: "nat \<Rightarrow> nat \<Rightarrow> 'm hs \<Rightarrow> 'm clocked \<Rightarrow> bool" where
  "clock_reach I W s ck \<longleftrightarrow> (clock_step I W)\<^sup>*\<^sup>* (clock_start I s) ck"

section \<open>A timed run is a run\<close>

lemma clock_step_run: "clock_step I W ck ck' \<Longrightarrow> ck_hs ck' = ck_hs ck \<or> hs_step (ck_hs ck) (ck_hs ck')"
  by (auto elim!: clock_stepE simp: advance_def pass_def intro: hs_step.intros)

lemma clock_reach_run:
  assumes "clock_reach I W s ck"
  shows "hs_reach s (ck_hs ck)"
  using assms unfolding clock_reach_def
proof (induction rule: rtranclp_induct)
  case base
  then show ?case by (simp add: clock_start_def hs_reach_def)
next
  case (step ck ck')
  with clock_step_run [OF step.hyps(2)] show ?case
    by (auto simp: hs_reach_def intro: rtranclp.rtrancl_into_rtrancl)
qed

section \<open>The stopped heartbeat\<close>

text \<open>
  The heartbeat goroutine is asked to stop, and is gone, only when the stream is about to get its
  last frame or has got it.
\<close>

definition stop_inv :: "'m hs \<Rightarrow> bool" where
  "stop_inv s \<longleftrightarrow> hs_hb s \<noteq> HNone \<and> (hs_hb s = HExited \<longrightarrow> hs_stop s \<or> hs_closed s) \<and>
     (hs_stop s \<longrightarrow> \<not> hs_closed s \<longrightarrow> (\<exists>a. hs_main s = MJoin a) \<or> joined (hs_main s))"

lemma stop_inv_main:
  assumes "stop_inv s" and "sync_inv s" and "end_inv s" and "step_main s = Some t"
  shows "stop_inv t"
proof (cases "hs_main s")
  case (MProg p)
  with assms show ?thesis by (cases p) (auto simp: step_main_def stop_inv_def)
next
  case (MStop a)
  with assms show ?thesis
    by (auto simp: step_main_def stop_inv_def stopHeartbeat_def sync_inv_def)
next
  case (MJoin a)
  then show ?thesis
    using assms by (cases "(a, hs_closed s)" rule: after_stop.cases)
      (auto simp: step_main_def stop_inv_def joined_def split: if_splits)
next
  case (MCrit c)
  with assms have t: "t = run_crit c s" by (simp add: step_main_def)
  show ?thesis unfolding t using assms(1) MCrit
    by (auto simp: stop_inv_def run_crit_closed simp del: run_crit.simps)
next
  case (MPayload c flag payload)
  with assms have t: "t = end_frame c flag payload s" by (simp add: step_main_def)
  show ?thesis unfolding t using assms(1) MPayload by (auto simp: stop_inv_def)
next
  case (MUnlock c err)
  with assms show ?thesis
    by (cases c) (auto simp: step_main_def stop_inv_def end_inv_def)
qed (use assms in \<open>auto simp: step_main_def stop_inv_def split: if_splits\<close>)

lemma stop_inv_hb:
  assumes "stop_inv s" and "step_hb ch s = Some t"
  shows "stop_inv t"
  using assms by (auto simp: hb_defs stop_inv_def split: hb_splits)

interpretation stopping: inductive_invariant hs_step "\<lambda>s. sync_inv s \<and> end_inv s \<and> stop_inv s"
  by unfold_locales
    (auto elim!: hs_stepE intro: sync_inv_main sync_inv_hb end_inv_main end_inv_hb stop_inv_main stop_inv_hb)

section \<open>How far apart frames are\<close>

text \<open>Every time is at least the one before it and at most \<open>G\<close> more.\<close>

fun gaps_ok :: "nat \<Rightarrow> nat \<Rightarrow> nat list \<Rightarrow> bool" where
  "gaps_ok G prev [] = True"
| "gaps_ok G prev (t # ts) \<longleftrightarrow> prev \<le> t \<and> t \<le> prev + G \<and> gaps_ok G t ts"

lemma gaps_ok_snoc:
  "gaps_ok G prev (ts @ [t]) \<longleftrightarrow>
    gaps_ok G prev ts \<and> last (prev # ts) \<le> t \<and> t \<le> last (prev # ts) + G"
  by (induction ts arbitrary: prev) auto

abbreviation last_time :: "'m clocked \<Rightarrow> nat" where
  "last_time ck \<equiv> last (0 # ck_times ck)"

text \<open>
  How much time has passed since the last frame: before a frame of the current section is
  complete at most \<open>max I W\<close> and the time in that section, after it the time in that section.
\<close>

definition since_last :: "nat \<Rightarrow> 'm clocked \<Rightarrow> bool" where
  "since_last M ck \<longleftrightarrow>
     (if (\<exists>c flag payload. hs_main (ck_hs ck) = MPayload c flag payload)
      then ck_now ck \<le> last_time ck + M + ck_held ck
      else if (\<exists>c. hs_main (ck_hs ck) = MFlush c) \<or> hs_hb (ck_hs ck) = HFlush
      then ck_now ck \<le> last_time ck + ck_held ck
      else ck_now ck \<le> last_time ck + M)"

definition clock_inv :: "nat \<Rightarrow> nat \<Rightarrow> 'm clocked \<Rightarrow> bool" where
  "clock_inv I W ck \<longleftrightarrow>
     length (ck_times ck) = length (hs_log (ck_hs ck)) \<and> gaps_ok (max I W + W) 0 (ck_times ck) \<and>
     last_time ck \<le> ck_now ck \<and> ck_now ck < ck_tick ck \<and> ck_tick ck \<le> ck_now ck + I \<and>
     ck_held ck \<le> W \<and>
     (hs_hb (ck_hs ck) = HSelect \<or> hs_hb (ck_hs ck) = HFlush \<longrightarrow> \<not> ck_pending ck \<longrightarrow>
        ck_tick ck \<le> last_time ck + I) \<and>
     (\<not> ended (hs_main (ck_hs ck)) (hs_closed (ck_hs ck)) \<longrightarrow> since_last (max I W) ck)"

text \<open>What the untimed invariants give.\<close>

definition base_inv :: "'m hs \<Rightarrow> bool" where
  "base_inv s \<longleftrightarrow> sync_inv s \<and> end_inv s \<and> stop_inv s \<and> rw_fault (hs_w s) = (\<lambda>_. None)"

lemma clock_inv_pass:
  assumes "clock_inv I W ck" and "base_inv (ck_hs ck)" and "0 < I"
    and "\<not> prompt ck" and "busy (ck_hs ck) \<longrightarrow> ck_held ck < W"
  shows "clock_inv I W (pass I ck)"
proof -
  let ?s = "ck_hs ck"
  have "since_last (max I W) (pass I ck)"
    if live: "\<not> ended (hs_main ?s) (hs_closed ?s)"
  proof (cases "busy ?s")
    case True
    have "hs_hb ?s = HFlush \<Longrightarrow> \<not> main_writing (hs_main ?s)"
      using assms(2) by (cases "hs_main ?s") (auto simp: base_inv_def sync_inv_def hb_holds_def)
    with True live assms(1) show ?thesis
      by (cases "hs_main ?s") (auto simp: clock_inv_def since_last_def busy_def pass_def)
  next
    case False
    have "\<not> hs_closed ?s"
      using live False ended_closed [of True "hs_main ?s"] by (force simp: busy_def)
    moreover have "(\<exists>p. hs_main ?s = MProg p) \<or> (\<exists>a. hs_main ?s = MJoin a \<and> \<not> hs_stopped ?s) \<or>
        (\<exists>c. hs_main ?s = MLock c \<and> hs_mu ?s \<noteq> None) \<or> hs_main ?s = MPanicked"
      using assms(4) live False by (cases "hs_main ?s") (auto simp: prompt_def busy_def)
    ultimately have "\<not> main_holds (hs_main ?s)" "joined (hs_main ?s) \<Longrightarrow> hs_mu ?s \<noteq> None"
      "\<not> hs_closed ?s" "hs_main ?s = MJoin a \<Longrightarrow> \<not> hs_stopped ?s" for a
      by auto
    moreover from this have "hs_mu ?s \<noteq> None \<Longrightarrow> hb_holds (hs_hb ?s)"
      using assms(2) by (cases "hs_mu ?s"; cases "the (hs_mu ?s)") (auto simp: base_inv_def sync_inv_def)
    ultimately have "hs_hb ?s = HSelect \<and> \<not> ck_pending ck"
      using assms(2,4) False
      by (cases "hs_hb ?s")
        (auto simp: prompt_def busy_def base_inv_def sync_inv_def stop_inv_def hb_gone_def hb_holds_def)
    with assms(1) False live show ?thesis
      by (auto simp: clock_inv_def since_last_def busy_def pass_def)
  qed
  with assms(1,3,5) show ?thesis
    by (auto simp: clock_inv_def pass_def)
qed

text \<open>On a writer that does not fail, what a step does to the log and where it leads.\<close>

lemma begin_frame_ok:
  "rw_fault (hs_w s) = (\<lambda>_. None) \<Longrightarrow>
    (payload \<noteq> [] \<longrightarrow> hs_log (begin_frame c flag payload s) = hs_log s \<and>
       hs_main (begin_frame c flag payload s) = MPayload c flag payload) \<and>
    (payload = [] \<longrightarrow> hs_log (begin_frame c flag payload s) = hs_log s @ [(flag, payload)] \<and>
       hs_main (begin_frame c flag payload s) = MFlush c)"
  by (simp add: begin_frame_def rw_Write_ok)

lemma end_frame_ok:
  "rw_fault (hs_w s) = (\<lambda>_. None) \<Longrightarrow>
    hs_log (end_frame c flag payload s) = hs_log s @ [(flag, payload)] \<and>
    hs_main (end_frame c flag payload s) = MFlush c"
  by (simp add: end_frame_def rw_Write_ok)

definition crit_step :: "'m crit \<Rightarrow> 'm hs \<Rightarrow> 'm hs \<Rightarrow> bool" where
  "crit_step c s t \<longleftrightarrow>
     hs_log t = hs_log s \<and> ((\<exists>flag p. hs_main t = MPayload c flag p) \<or> (\<exists>e. hs_main t = MUnlock c e)) \<or>
     (\<exists>f. hs_log t = hs_log s @ [f] \<and> hs_main t = MFlush c)"

lemma crit_step_begin:
  "rw_fault (hs_w s) = (\<lambda>_. None) \<Longrightarrow> crit_step c s (begin_frame c flag p s)"
  using begin_frame_ok [of s p c flag] by (cases "p = []") (auto simp: crit_step_def)

lemma crit_step_unlock: "hs_log t = hs_log s \<Longrightarrow> hs_main t = MUnlock c e \<Longrightarrow> crit_step c s t"
  by (simp add: crit_step_def)

lemma crit_step_closing:
  "rw_fault (hs_w s) = (\<lambda>_. None) \<Longrightarrow> crit_step c s (begin_frame c flag p (s\<lparr>hs_closed := True\<rparr>))"
  using crit_step_begin [of "s\<lparr>hs_closed := True\<rparr>" c flag p] by (simp add: crit_step_def)

lemma run_crit_step: "rw_fault (hs_w s) = (\<lambda>_. None) \<Longrightarrow> crit_step c s (run_crit c s)"
  by (cases c)
    (auto simp: crit_defs crit_step_begin crit_step_closing crit_step_unlock split: sum.splits)

text \<open>A step that completes no frame.\<close>

lemma clock_inv_quiet:
  assumes "clock_inv I W ck" and "hs_log t = hs_log (ck_hs ck)"
    and "\<not> ended (hs_main t) (hs_closed t) \<Longrightarrow>
      \<not> ended (hs_main (ck_hs ck)) (hs_closed (ck_hs ck)) \<and>
      ((\<exists>c flag payload. hs_main t = MPayload c flag payload) \<and> \<not> busy (ck_hs ck) \<or> \<not> busy t \<or>
       busy (ck_hs ck) \<and> hs_mu t \<noteq> None \<and> (\<forall>c flag payload. hs_main t \<noteq> MPayload c flag payload))"
    and "\<forall>c flag payload. hs_main (ck_hs ck) \<noteq> MPayload c flag payload"
    and "hs_hb t = HSelect \<or> hs_hb t = HFlush \<Longrightarrow> \<not> pending \<Longrightarrow>
      (hs_hb (ck_hs ck) = HSelect \<or> hs_hb (ck_hs ck) = HFlush) \<and> \<not> ck_pending ck"
  shows "clock_inv I W (advance t (ck\<lparr>ck_pending := pending\<rparr>))"
proof -
  have "since_last (max I W) (advance t (ck\<lparr>ck_pending := pending\<rparr>))"
    if live: "\<not> ended (hs_main t) (hs_closed t)"
  proof -
    have "since_last (max I W) ck" using assms(1) assms(3) [OF live] by (simp add: clock_inv_def)
    then have "ck_now ck \<le> last_time ck + max I W" "busy (ck_hs ck) \<Longrightarrow> ck_now ck \<le> last_time ck + ck_held ck"
      using assms(1,4) by (auto simp: since_last_def busy_def clock_inv_def split: if_splits
          elim!: main_writing.elims)
    with assms(2) assms(3) [OF live] show ?thesis
      by (auto simp: since_last_def advance_def busy_def elim!: main_writing.elims)
  qed
  with assms(1,2,5) show ?thesis by (auto simp: clock_inv_def advance_def)
qed

text \<open>A step that completes one.\<close>

lemma clock_inv_frame:
  assumes "clock_inv I W ck" and "hs_log t = hs_log (ck_hs ck) @ [f]"
    and "\<not> ended (hs_main (ck_hs ck)) (hs_closed (ck_hs ck))"
    and "\<forall>c flag p. hs_main t \<noteq> MPayload c flag p"
  shows "clock_inv I W (advance t (ck\<lparr>ck_pending := pending\<rparr>))"
proof -
  have "since_last (max I W) ck" "ck_held ck \<le> W" using assms(1,3) by (simp_all add: clock_inv_def)
  then have "ck_now ck \<le> last_time ck + (max I W + W)"
    by (auto simp: since_last_def split: if_splits)
  with assms(1) have "gaps_ok (max I W + W) 0 (ck_times ck @ [ck_now ck])"
    by (simp add: gaps_ok_snoc clock_inv_def)
  with assms(1,2,4) show ?thesis
    by (simp add: clock_inv_def advance_def since_last_def)
qed

lemma clock_inv_main:
  assumes "clock_inv I W ck" and "base_inv (ck_hs ck)" and "step_main (ck_hs ck) = Some t"
  shows "clock_inv I W (advance t ck)"
proof -
  let ?s = "ck_hs ck"
  have fault: "rw_fault (hs_w ?s) = (\<lambda>_. None)" and sync: "sync_inv ?s"
    using assms(2) by (simp_all add: base_inv_def)
  note quiet = clock_inv_quiet [OF assms(1), where pending = "ck_pending ck", simplified]
  note frame = clock_inv_frame [OF assms(1), where pending = "ck_pending ck", simplified]
  have hb: "hs_hb t = hs_hb ?s"
    using assms(3)
    by (auto simp: step_main_def stopHeartbeat_def simp del: run_crit.simps
        split: main_pc.splits stream_prog.splits if_splits)
  show ?thesis
  proof (cases "ended (hs_main ?s) (hs_closed ?s)")
    case True
    with assms(2) have "frozen (rw_body (hs_w ?s)) (hs_log ?s) ?s" by (simp add: frozen_def base_inv_def)
    from frozen_main [OF this assms(3)] True hb show ?thesis
      by (intro quiet) auto
  next
    case live: False
    have mu: "hs_hb ?s = HFlush \<Longrightarrow> hs_mu ?s = Some OHeartbeat" and holds: "main_holds (hs_main ?s) \<Longrightarrow> hs_hb ?s \<noteq> HFlush"
      using sync by (auto simp: sync_inv_def hb_holds_def)
    have outside: ?thesis
      if "hs_log t = hs_log ?s" "\<not> main_writing (hs_main ?s)" "\<not> main_writing (hs_main t)"
        "hs_hb ?s = HFlush \<Longrightarrow> hs_mu t = hs_mu ?s"
      using that mu live hb by (intro quiet) (auto simp: busy_def)
    show ?thesis
    proof (cases "hs_main ?s")
      case (MCrit c)
      with assms(3) have t: "t = run_crit c ?s" by (simp add: step_main_def)
      have "\<not> busy ?s" using holds MCrit by (simp add: busy_def)
      from run_crit_step [OF fault, of c, folded t] show ?thesis
        unfolding crit_step_def
      proof (elim disjE conjE exE)
        fix flag p assume "hs_log t = hs_log ?s" "hs_main t = MPayload c flag p"
        with live MCrit hb \<open>\<not> busy ?s\<close> show ?thesis by (intro quiet) auto
      next
        fix e assume "hs_log t = hs_log ?s" "hs_main t = MUnlock c e"
        with holds MCrit show ?thesis by (intro outside) auto
      next
        fix f assume "hs_log t = hs_log ?s @ [f]" "hs_main t = MFlush c"
        with live show ?thesis by (intro frame) auto
      qed
    next
      case (MPayload c flag payload)
      with assms(3) end_frame_ok [OF fault, of c flag payload] live show ?thesis
        by (intro frame) (auto simp: step_main_def)
    next
      case (MFlush c)
      with holds assms(3) live hb show ?thesis
        by (intro quiet) (auto simp: step_main_def busy_def)
    next
      case (MUnlock c err)
      then have "\<not> main_writing (resume c err)" by (cases c) simp_all
      with MUnlock holds assms(3) show ?thesis by (intro outside) (auto simp: step_main_def)
    next
      case (MProg p)
      with assms(3) show ?thesis by (intro outside; cases p; auto simp: step_main_def)
    next
      case (MJoin a)
      have "\<not> main_writing (after_stop a cl)" for cl by (cases "(a, cl)" rule: after_stop.cases) simp_all
      with MJoin assms(3) show ?thesis by (intro outside) (auto simp: step_main_def split: if_splits)
    next
      case (MStop a)
      have "\<not> main_writing (after_stop a cl)" for cl by (cases "(a, cl)" rule: after_stop.cases) simp_all
      with MStop assms(3) show ?thesis
        by (intro outside) (auto simp: step_main_def stopHeartbeat_def split: if_splits)
    next
      case (MLock c)
      with assms(3) mu show ?thesis by (intro outside) (auto simp: step_main_def split: if_splits)
    qed (use assms(3) in \<open>simp_all add: step_main_def\<close>)
  qed
qed

lemma clock_inv_hb:
  assumes "clock_inv I W ck" and "base_inv (ck_hs ck)" and "step_hb ch (ck_hs ck) = Some t"
  shows "clock_inv I W (advance t (ck\<lparr>ck_pending := ck_pending ck \<and> ch \<noteq> TakeTick\<rparr>))"
proof -
  let ?s = "ck_hs ck"
  have fault: "rw_fault (hs_w ?s) = (\<lambda>_. None)" and sync: "sync_inv ?s"
    using assms(2) by (simp_all add: base_inv_def)
  note quiet = clock_inv_quiet [OF assms(1)] and frame = clock_inv_frame [OF assms(1)]
  have pc: "hs_main t = hs_main ?s" "hs_closed t = hs_closed ?s"
    using assms(3) by (auto simp: hb_defs split: hb_splits)
  show ?thesis
  proof (cases "hb_holds (hs_hb ?s)")
    case True
    with sync have nowrite: "\<not> main_writing (hs_main ?s)" "\<forall>c flag p. hs_main ?s \<noteq> MPayload c flag p"
      by (cases "hs_main ?s"; auto simp: sync_inv_def)+
    show ?thesis
    proof (cases "hs_hb ?s = HCrit \<and> \<not> hs_closed ?s")
      case True
      with ended_gone [OF sync] have "\<not> ended (hs_main ?s) (hs_closed ?s)" by (auto simp: hb_gone_def)
      with True nowrite assms(3) fault show ?thesis
        by (intro frame) (auto simp: hb_defs rw_Write_ok split: if_splits)
    next
      case False
      with \<open>hb_holds (hs_hb ?s)\<close> nowrite pc assms(3) show ?thesis
        by (intro quiet) (auto simp: hb_defs hb_holds_def busy_def split: if_splits)
    qed
  next
    case False
    with assms(3) have "hs_log t = hs_log ?s" "hs_hb ?s \<noteq> HFlush" "hs_hb t \<noteq> HFlush" "hs_hb t \<noteq> HSelect"
      "hs_mu t = None \<Longrightarrow> hs_mu ?s = None"
      by (auto simp: hb_defs hb_holds_def split: hb_splits)
    moreover have "hs_mu ?s = None \<Longrightarrow> \<not> main_holds (hs_main ?s)" using sync by (auto simp: sync_inv_def)
    ultimately show ?thesis using assms(1) pc
      by (auto simp: clock_inv_def advance_def since_last_def)
  qed
qed

lemma fault_crit:
  "rw_fault (hs_w s) = (\<lambda>_. None) \<Longrightarrow> rw_fault (hs_w (run_crit c s)) = (\<lambda>_. None)"
  by (cases c) (simp_all add: crit_defs begin_frame_def rw_Write_ok split: sum.splits)

lemma fault_main: "step_main s = Some t \<Longrightarrow> rw_fault (hs_w s) = (\<lambda>_. None) \<Longrightarrow> rw_fault (hs_w t) = (\<lambda>_. None)"
  by (auto simp: step_main_def stopHeartbeat_def end_frame_def rw_Write_ok fault_crit simp del: run_crit.simps
      split: main_pc.splits stream_prog.splits if_splits)

lemma fault_hb: "step_hb ch s = Some t \<Longrightarrow> rw_fault (hs_w s) = (\<lambda>_. None) \<Longrightarrow> rw_fault (hs_w t) = (\<lambda>_. None)"
  by (auto simp: hb_defs rw_Write_ok split: hb_splits)

lemma base_inv_step:
  assumes "base_inv s" and "hs_step s t"
  shows "base_inv t"
proof -
  have "sync_inv t \<and> end_inv t \<and> stop_inv t"
    using assms by (intro stopping.keeps [OF _ assms(2)]) (simp add: base_inv_def)
  moreover have "rw_fault (hs_w t) = (\<lambda>_. None)"
    using assms fault_main fault_hb by (auto simp: base_inv_def elim!: hs_stepE)
  ultimately show ?thesis by (simp add: base_inv_def)
qed

interpretation clock: inductive_invariant "clock_step I W"
  "\<lambda>ck. 0 < I \<and> base_inv (ck_hs ck) \<and> clock_inv I W ck" for I W
proof (unfold_locales, intro conjI, goal_cases)
  case (2 ck ck')
  then show ?case using clock_step_run [OF 2(2)] base_inv_step by auto
next
  case (3 ck ck')
  from 3(2) show ?case
  proof (cases rule: clock_step.cases)
    case (clock_hb ch t)
    show ?thesis unfolding clock_hb(1) by (rule clock_inv_hb) (use 3(1) clock_hb(2) in auto)
  qed (use 3(1) clock_inv_main [of I W ck] clock_inv_pass [of I W ck] in simp_all)
qed simp

text \<open>
  The frames of every timed run are at most \<open>max I W + W\<close> apart, and so is the last one from now
  while there is a frame to come.
\<close>

lemma clock_reach_gaps:
  assumes "clock_reach I W (stream_start c w interval prog) ck" and "I = nat interval" and "0 < interval"
    and "rw_fault w = (\<lambda>_. None)"
  shows "gaps_ok (max I W + W) 0 (ck_times ck)" and "length (ck_times ck) = length (hs_log (ck_hs ck))"
    and "ended (hs_main (ck_hs ck)) (hs_closed (ck_hs ck)) \<or> ck_now ck \<le> last_time ck + (max I W + W)"
proof -
  let ?s = "stream_start c w interval prog"
  have "base_inv ?s"
    using assms(3,4) sync_inv_start [of c w interval prog]
    by (simp add: base_inv_def stop_inv_def end_inv_def stream_start_def)
  moreover have "clock_inv I W (clock_start I ?s)"
    using assms(2,3) by (simp add: clock_inv_def clock_start_def since_last_def stream_start_def)
  ultimately have "clock_inv I W ck"
    using clock.always [OF assms(1) [unfolded clock_reach_def]] assms(2,3) by (simp add: clock_start_def)
  then show "gaps_ok (max I W + W) 0 (ck_times ck)" "length (ck_times ck) = length (hs_log (ck_hs ck))"
    "ended (hs_main (ck_hs ck)) (hs_closed (ck_hs ck)) \<or> ck_now ck \<le> last_time ck + (max I W + W)"
    by (auto simp: clock_inv_def since_last_def split: if_splits)
qed

section \<open>Delivery\<close>

text \<open>
  \<open>A n\<close> is when \<open>n\<close> bytes have arrived at the client. Every frame arrives after it is complete at
  the server, and at most \<open>D\<close> later.
\<close>

fun arrives :: "nat \<Rightarrow> (nat \<Rightarrow> nat) \<Rightarrow> nat list \<Rightarrow> (byte \<times> bytes) list \<Rightarrow> bool" where
  "arrives D A [] [] = True"
| "arrives D A (t # ts) ((flag, p) # fs) \<longleftrightarrow>
     (let n = 5 + length p in t \<le> A n \<and> A n \<le> t + D \<and> arrives D (\<lambda>m. A (n + m)) ts fs)"
| "arrives D A _ _ = False"

lemma arrives_on_time:
  assumes "arrives D A ts fs" and "gaps_ok G prev ts" and "prev \<le> now" and "int (G + D) < timeout"
    and "\<exists>f \<in> set fs. terminal f"
  shows "on_time timeout fin now A fs"
  using assms
proof (induction D A ts fs arbitrary: prev now rule: arrives.induct)
  case (2 D A t ts flag p fs)
  let ?n = "5 + length p"
  have t: "t \<le> A ?n" "A ?n \<le> t + D" "t \<le> prev + G" using 2 by (auto simp: Let_def)
  have "on_time timeout fin (max now (A ?n)) (\<lambda>m. A (?n + m)) fs" if "flag \<in> {FlagHeartbeat, FlagData}"
    using 2 that t by (intro 2(1) [of ?n t]) (auto simp: Let_def)
  with t 2(4,5) show ?case by (auto simp: in_time_def Let_def)
qed auto

section \<open>Schedules\<close>

text \<open>A timed run by the moves it makes.\<close>

datatype clock_choice = GoMain | GoHeartbeat hb_choice | Pass

fun clock_move :: "nat \<Rightarrow> nat \<Rightarrow> clock_choice \<Rightarrow> 'm clocked \<Rightarrow> 'm clocked option" where
  "clock_move I W GoMain ck = (case step_main (ck_hs ck) of None \<Rightarrow> None | Some t \<Rightarrow> Some (advance t ck))"
| "clock_move I W (GoHeartbeat ch) ck =
     (if ch = TakeTick \<and> \<not> ck_pending ck then None
      else (case step_hb ch (ck_hs ck) of None \<Rightarrow> None
            | Some t \<Rightarrow> Some (advance t (ck\<lparr>ck_pending := ck_pending ck \<and> ch \<noteq> TakeTick\<rparr>))))"
| "clock_move I W Pass ck =
     (if prompt ck \<or> (busy (ck_hs ck) \<and> W \<le> ck_held ck) then None else Some (pass I ck))"

primrec clock_run :: "nat \<Rightarrow> nat \<Rightarrow> clock_choice list \<Rightarrow> 'm clocked \<Rightarrow> 'm clocked option" where
  "clock_run I W [] ck = Some ck"
| "clock_run I W (m # ms) ck = (case clock_move I W m ck of None \<Rightarrow> None | Some ck' \<Rightarrow> clock_run I W ms ck')"

lemma clock_move_step: "clock_move I W m ck = Some ck' \<Longrightarrow> clock_step I W ck ck'"
  by (cases m) (auto split: option.splits if_splits intro: clock_step.intros)

lemma clock_run_steps: "clock_run I W ms ck = Some ck' \<Longrightarrow> (clock_step I W)\<^sup>*\<^sup>* ck ck'"
  by (induction ms arbitrary: ck)
    (auto split: option.splits intro: converse_rtranclp_into_rtranclp dest: clock_move_step)

end
