(* ===== verification/Client.thy ===== *)
theory Client
  imports Stream_Client
begin

text \<open>
  client.go: the four ways to make a call (\<open>Do\<close>, \<open>DoStream\<close>, \<open>DoBytes\<close>,
  \<open>DoContent\<close>) and the classification of what comes back. The transport,
  \<open>http.Client.Do\<close>, is an argument: it gives an error or a response. Each operation
  also returns the response body as it leaves it, so that closing it can be stated.
\<close>

record Client =
  cl_MaxFramePayload :: int
  cl_HeartbeatTimeout :: int

definition DefaultMaxFramePayload :: int where
  "DefaultMaxFramePayload = 4 * MegaByte"

definition DefaultHeartbeatTimeout :: int where
  "DefaultHeartbeatTimeout = 60 * 1000000000"

section \<open>The clients of the package\<close>

text \<open>
  The field \<open>Client\<close> of a \<open>duh.Client\<close> is an \<open>http.Client\<close>, of which the package sets the transport:
  that of net/http with limits on idle connections, or that of golang.org/x/net/http2 allowed to
  speak plain HTTP, whose dialer for TLS connections is replaced by a plain one. \<open>dial\<close> is
  \<open>net.Dialer.DialContext\<close>, \<open>'cfg\<close> the TLS configurations.
\<close>

record http_Transport =
  IdleConnTimeout :: int
  MaxIdleConns :: int
  MaxIdleConnsPerHost :: int
  MaxConnsPerHost :: int

record ('conn, 'cfg) http2_Transport =
  AllowHTTP :: bool
  DialTLSContext :: "(string \<Rightarrow> string \<Rightarrow> error + 'conn) \<Rightarrow> string \<Rightarrow> string \<Rightarrow> 'cfg \<Rightarrow> error + 'conn"

datatype ('conn, 'cfg) round_tripper = Transport1 http_Transport | Transport2 "('conn, 'cfg) http2_Transport"

record ('conn, 'cfg) http_Client = Client +
  cl_Transport :: "('conn, 'cfg) round_tripper"

definition HTTP1Client :: "('conn, 'cfg) http_Client" where
  "HTTP1Client =
     \<lparr>cl_MaxFramePayload = 0, cl_HeartbeatTimeout = 0,
      cl_Transport = Transport1 \<lparr>IdleConnTimeout = 90 * 1000000000, MaxIdleConns = 100,
        MaxIdleConnsPerHost = 10, MaxConnsPerHost = 0\<rparr>\<rparr>"

definition HTTP2Client :: "('conn, 'cfg) http_Client" where
  "HTTP2Client =
     \<lparr>cl_MaxFramePayload = 0, cl_HeartbeatTimeout = 0,
      cl_Transport = Transport2 \<lparr>AllowHTTP = True, DialTLSContext = (\<lambda>dial network addr cfg. dial network addr)\<rparr>\<rparr>"

definition DefaultClient :: "('conn, 'cfg) http_Client" where
  "DefaultClient = HTTP1Client"

type_synonym transport = "request \<Rightarrow> error + response"

section \<open>The errors of the client\<close>

definition NewClientError :: "string \<Rightarrow> error option \<Rightarrow> details \<Rightarrow> error" where
  "NewClientError msg err details =
     (let err' = (if msg \<noteq> [] then
                    (case err of Some e \<Rightarrow> Some (Errorf msg e) | None \<Rightarrow> Some (ErrText msg))
                  else err)
      in ClientErr (ClientError details [] err' False (Itoa CodeClientError) CodeClientError))"

definition NewReplyError :: "request \<Rightarrow> response \<Rightarrow> reply \<Rightarrow> error" where
  "NewReplyError req resp reply =
     (let base = [DetailsHttpCode \<mapsto> Itoa (resp_StatusCode resp),
                  DetailsCodeText \<mapsto> CodeText (resp_StatusCode resp),
                  DetailsHttpUrl \<mapsto> req_url req,
                  DetailsHttpMethod \<mapsto> req_method req];
          d1 = base ++ (case r_details reply of Some m \<Rightarrow> m | None \<Rightarrow> Map.empty);
          ra = hget (resp_header resp) ''Retry-After'';
          d2 = (if resp_StatusCode resp = CodeTooManyRequests \<and> ra \<noteq> []
                then d1(DetailsHttpRetryAfter \<mapsto> ra) else d1)
      in ClientErr (ClientError (Some d2) (r_message reply) None False
           (r_code reply) (resp_StatusCode resp)))"

text \<open>The details an unparsed response is reported with.\<close>

definition raw_details :: "request \<Rightarrow> response \<Rightarrow> bytes \<Rightarrow> details" where
  "raw_details req resp body =
     Some [DetailsHttpCode \<mapsto> Itoa (resp_StatusCode resp),
           DetailsHttpBody \<mapsto> string_of_bytes body,
           DetailsHttpUrl \<mapsto> req_url req,
           DetailsHttpStatus \<mapsto> resp_Status resp,
           DetailsHttpMethod \<mapsto> req_method req]"

definition NewInfraError :: "request \<Rightarrow> response \<Rightarrow> bytes \<Rightarrow> error" where
  "NewInfraError req resp body =
     ClientErr (ClientError (raw_details req resp body) (string_of_bytes body) None True
       (Itoa (resp_StatusCode resp)) (resp_StatusCode resp))"

definition transport_error :: "request \<Rightarrow> error \<Rightarrow> error" where
  "transport_error req err =
     NewClientError ''during client.Do(): %w'' (Some err)
       (Some [DetailsHttpUrl \<mapsto> req_url req, DetailsHttpMethod \<mapsto> req_method req])"

definition read_error :: "request \<Rightarrow> response \<Rightarrow> error \<Rightarrow> error" where
  "read_error req resp err =
     ClientErr (ClientError
       (Some [DetailsHttpUrl \<mapsto> req_url req, DetailsHttpMethod \<mapsto> req_method req,
              DetailsHttpStatus \<mapsto> resp_Status resp])
       [] (Some (ErrWrap (''while reading response body: '' @ Error err) err)) False
       (Itoa CodeClientError) CodeClientError)"

definition parse_error :: "bytes \<Rightarrow> error \<Rightarrow> error" where
  "parse_error body err =
     NewClientError '''' (Some (ErrWrap (''while parsing response body '' @ [CHR 0x27] @
       string_of_bytes body @ [CHR 0x27] @ '': '' @ Error err) err)) None"

section \<open>handleErrorResponse\<close>

definition unmarshalForMediaType :: "'m lib \<Rightarrow> string \<Rightarrow> 'm codec option" where
  "unmarshalForMediaType lib contentType =
     (let mt = normalizeMediaType (lib_uni lib) contentType in
      if mt = ContentTypeJSON then Some (lib_json lib)
      else if mt = ContentTypeProtoBuf then Some (lib_proto lib) else None)"

definition classify_response :: "'m lib \<Rightarrow> request \<Rightarrow> response \<Rightarrow> bytes \<Rightarrow> error" where
  "classify_response lib req resp body =
     (case unmarshalForMediaType lib (hget (resp_header resp) ''Content-Type'') of
        Some c \<Rightarrow>
          (case unmarshal_reply c body of
             Inl _ \<Rightarrow> NewInfraError req resp body
           | Inr reply \<Rightarrow> NewReplyError req resp reply)
      | None \<Rightarrow>
          (if hget (resp_header resp) HeaderDUHVersion \<noteq> [] then
             (case unmarshal_reply (lib_json lib) body of
                Inr reply \<Rightarrow> NewReplyError req resp reply
              | Inl _ \<Rightarrow>
                  (case unmarshal_reply (lib_proto lib) body of
                     Inr reply \<Rightarrow> NewReplyError req resp reply
                   | Inl _ \<Rightarrow> NewInfraError req resp body))
           else if resp_StatusCode resp div 100 = 5 \<or> resp_StatusCode resp = CodeNotFound
           then NewInfraError req resp body
           else ClientErr (ClientError (raw_details req resp body) (string_of_bytes body) None False
                  (Itoa (resp_StatusCode resp)) (resp_StatusCode resp))))"

definition handleErrorResponse ::
  "'m lib \<Rightarrow> request \<Rightarrow> response \<Rightarrow> (error \<times> source) option" where
  "handleErrorResponse lib req resp =
     (case ReadFrom (lib_room lib) src_read [] (resp_body resp) of
        None \<Rightarrow> None
      | Some ((body, err), s) \<Rightarrow>
          Some (case err of
                  Some e \<Rightarrow> read_error req resp e
                | None \<Rightarrow> classify_response lib req resp body, src_close s))"

section \<open>Calls\<close>

definition Do ::
  "'m lib \<Rightarrow> transport \<Rightarrow> request \<Rightarrow> ((error + 'm) \<times> source option) option" where
  "Do lib tr req =
     (case tr req of
        Inl err \<Rightarrow> Some (Inl (transport_error req err), None)
      | Inr resp \<Rightarrow>
          (if resp_StatusCode resp \<noteq> CodeOK
           then map_option (\<lambda>(e, s). (Inl e, Some s)) (handleErrorResponse lib req resp)
           else
             (case ReadFrom (lib_room lib) src_read [] (resp_body resp) of
                None \<Rightarrow> None
              | Some ((body, err), s) \<Rightarrow>
                  Some (case err of
                          Some e \<Rightarrow> Inl (read_error req resp e)
                        | None \<Rightarrow>
                            (case unmarshalForMediaType lib
                                    (hget (resp_header resp) ''Content-Type'') of
                               None \<Rightarrow> Inl (NewInfraError req resp body)
                             | Some c \<Rightarrow>
                                 (case unmarshal_app c body of
                                    Inl e \<Rightarrow> Inl (parse_error body e)
                                  | Inr m \<Rightarrow> Inr m)),
                        Some (src_close s)))))"

text \<open>
  \<open>DoStream\<close> cancels the request's context before it reads the body of a response that
  is not a stream. What a body delivers once its context is cancelled is net/http's; it is the
  argument \<open>cancelled\<close>.
\<close>

definition DoStream ::
  "'m lib \<Rightarrow> Client \<Rightarrow> (source \<Rightarrow> source) \<Rightarrow> transport \<Rightarrow> request \<Rightarrow>
    (error \<times> source option + (source, 'm) streamReader) option" where
  "DoStream lib c cancelled tr req =
     (case tr req of
        Inl err \<Rightarrow> Some (Inl (transport_error req err, None))
      | Inr resp \<Rightarrow>
          (let resp' = resp\<lparr>resp_body := cancelled (resp_body resp)\<rparr>;
               mt = normalizeMediaType (lib_uni lib) (hget (resp_header resp) ''Content-Type'') in
           if resp_StatusCode resp \<noteq> CodeOK
           then map_option (\<lambda>(e, s). Inl (e, Some s)) (handleErrorResponse lib req resp')
           else if mt = ContentStreamJSON \<or> mt = ContentStreamProtoBuf then
             Some (Inr
               \<lparr>sr_r = NewReader (resp_body resp)
                  (if cl_MaxFramePayload c = 0 then DefaultMaxFramePayload
                   else cl_MaxFramePayload c),
                sr_codec = (if mt = ContentStreamJSON then lib_json lib else lib_proto lib),
                sr_StatusCode = resp_StatusCode resp, sr_hasRequest = True, sr_cancelled = False,
                sr_done = False, sr_hasPending = False,
                sr_heartbeatTimeout =
                  (if cl_HeartbeatTimeout c = 0 then DefaultHeartbeatTimeout
                   else cl_HeartbeatTimeout c)\<rparr>)
           else
             (case ReadFrom (lib_room lib) src_read [] (resp_body resp') of
                None \<Rightarrow> None
              | Some ((body, err), s) \<Rightarrow>
                  Some (Inl (NewInfraError req resp body, Some (src_close s))))))"

definition DoBytes ::
  "'m lib \<Rightarrow> transport \<Rightarrow> request \<Rightarrow> (error \<times> source option + source) option" where
  "DoBytes lib tr req =
     (case tr req of
        Inl err \<Rightarrow> Some (Inl (transport_error req err, None))
      | Inr resp \<Rightarrow>
          (if resp_StatusCode resp \<noteq> CodeOK
           then map_option (\<lambda>(e, s). Inl (e, Some s)) (handleErrorResponse lib req resp)
           else if normalizeMediaType (lib_uni lib) (hget (resp_header resp) ''Content-Type'')
             \<noteq> ContentOctetStream
           then (case ReadFrom (lib_room lib) src_read [] (resp_body resp) of
                   None \<Rightarrow> None
                 | Some ((body, err), s) \<Rightarrow>
                     Some (Inl (NewInfraError req resp body, Some (src_close s))))
           else Some (Inr (resp_body resp))))"

text \<open>\<open>DoContent\<close> appends to the caller's buffer, also when reading fails.\<close>

definition DoContent ::
  "'m lib \<Rightarrow> transport \<Rightarrow> request \<Rightarrow> bytes \<Rightarrow> ((error + header) \<times> bytes \<times> source option) option" where
  "DoContent lib tr req buf =
     (case tr req of
        Inl err \<Rightarrow> Some (Inl (transport_error req err), buf, None)
      | Inr resp \<Rightarrow>
          (if resp_StatusCode resp \<noteq> CodeOK
           then map_option (\<lambda>(e, s). (Inl e, buf, Some s)) (handleErrorResponse lib req resp)
           else
             (case ReadFrom (lib_room lib) src_read buf (resp_body resp) of
                None \<Rightarrow> None
              | Some ((buf', err), s) \<Rightarrow>
                  Some (case err of
                          Some e \<Rightarrow> Inl (read_error req resp e)
                        | None \<Rightarrow> Inr (resp_header resp), buf', Some (src_close s)))))"

section \<open>Lemmas\<close>

text \<open>What a server wrote, as a client receives it: any chunking of the same bytes.\<close>

definition delivered :: "rw \<Rightarrow> response \<Rightarrow> bool" where
  "delivered w resp \<longleftrightarrow>
     rw_status (rw_finish w) = Some (resp_StatusCode resp) \<and>
     src_content (resp_body resp) = rw_body w \<and> src_err (resp_body resp) = EOF \<and>
     list_all (\<lambda>k. hget (resp_header resp) k = hget (rw_sent (rw_finish w)) k)
       [''Content-Type'', HeaderDUHVersion, ''Retry-After'']"

lemma delivered_committed:
  assumes "delivered w resp" and "rw_status w = Some code"
  shows "resp_StatusCode resp = code" and "src_content (resp_body resp) = rw_body w"
    and "src_err (resp_body resp) = EOF"
    and "hget (resp_header resp) ''Content-Type'' = hget (rw_sent w) ''Content-Type''"
    and "hget (resp_header resp) HeaderDUHVersion = hget (rw_sent w) HeaderDUHVersion"
  using assms by (auto simp: delivered_def rw_finish_def)

lemma copy_body:
  "\<exists>s. ReadFrom room src_read acc body =
     Some ((acc @ src_content body, if src_err body = EOF then None else Some (src_err body)), s)"
  by (rule src.ReadFrom_all)

lemma handleErrorResponse_eq:
  "\<exists>s. handleErrorResponse lib req resp =
     Some (if src_err (resp_body resp) = EOF
           then classify_response lib req resp (src_content (resp_body resp))
           else read_error req resp (src_err (resp_body resp)), src_close s)"
  using copy_body [of "lib_room lib" "[]" "resp_body resp"]
  by (auto simp: handleErrorResponse_def)

lemma unmarshalForMediaType_simps [simp]:
  "unmarshalForMediaType lib ContentTypeJSON = Some (lib_json lib)"
  "unmarshalForMediaType lib ContentTypeProtoBuf = Some (lib_proto lib)"
  by (simp_all add: unmarshalForMediaType_def)

lemma transport_error_eq:
  "transport_error req err =
     ClientErr (ClientError (Some [DetailsHttpUrl \<mapsto> req_url req, DetailsHttpMethod \<mapsto> req_method req])
       [] (Some (ErrWrap (''during client.Do(): '' @ Error err) err)) False
       (Itoa CodeClientError) CodeClientError)"
  using Errorf_w [of "''during client.Do(): ''" err]
  by (simp add: transport_error_def NewClientError_def)

text \<open>
  The client error a service's reply is reported as, under the response's status; \<open>ra\<close> is the
  response's header Retry-After, empty when there is none. Every detail of the reply is kept, but
  on a 429 that header takes the place of the detail http.retry-after.
\<close>

definition service_error_of :: "reply \<Rightarrow> int \<Rightarrow> string \<Rightarrow> error \<Rightarrow> bool" where
  "service_error_of reply status ra err \<longleftrightarrow>
     (case err of
        ClientErr e \<Rightarrow> ce_code e = r_code reply \<and> ce_httpCode e = status \<and>
          ce_msg e = r_message reply \<and> ce_err e = None \<and> \<not> ce_isInfraError e \<and>
          (case ce_details e of
             None \<Rightarrow> False
           | Some d \<Rightarrow>
               (\<forall>k v. (case r_details reply of None \<Rightarrow> None | Some m \<Rightarrow> m k) = Some v \<longrightarrow>
                  d k = Some (if k = DetailsHttpRetryAfter \<and> status = 429 \<and> ra \<noteq> [] then ra else v)) \<and>
               (status = 429 \<and> ra \<noteq> [] \<longrightarrow> d DetailsHttpRetryAfter = Some ra))
      | _ \<Rightarrow> False)"

lemma NewReplyError_service:
  "service_error_of reply (resp_StatusCode resp) (hget (resp_header resp) ''Retry-After'') (NewReplyError req resp reply)"
  by (auto simp: service_error_of_def NewReplyError_def Let_def map_add_Some_iff CodeTooManyRequests_def
      split: option.splits)

text \<open>The encoder a request's Accept header selects for the reply.\<close>

definition reply_codec :: "'m lib \<Rightarrow> request \<Rightarrow> (string \<times> 'm codec) option" where
  "reply_codec lib r =
     (if accept_type lib r \<in> set json_types then Some (ContentTypeJSON, lib_json lib)
      else if accept_type lib r = ContentTypeProtoBuf then Some (ContentTypeProtoBuf, lib_proto lib)
      else None)"

lemma Reply_codec:
  "reply_codec lib r = Some (ct, c) \<Longrightarrow> marshal c resp = Inr b \<Longrightarrow>
    Reply lib w r code resp = Some (send_reply code ct b w, r)"
  by (auto simp: reply_codec_def Reply_json_ok Reply_proto_ok split: if_splits)

text \<open>A reply on the wire, as the client's \<open>Do\<close> finds it.\<close>

lemma send_reply_delivered:
  assumes "fresh w" and "final_status code" and "delivered (send_reply code ct b w) resp"
  shows "resp_StatusCode resp = code" and "src_content (resp_body resp) = b"
    and "src_err (resp_body resp) = EOF" and "hget (resp_header resp) ''Content-Type'' = ct"
    and "hget (resp_header resp) HeaderDUHVersion = DUHVersion"
  using send_reply_sent [OF _ assms(2), of w ct b] send_reply_body [of w code ct b]
    delivered_committed [OF assms(3), of code] assms(1)
  by (simp_all add: service_headers_def fresh_def)

text \<open>The streams of the package's clients: frames of at most 4 MB, a heartbeat timeout of a minute.\<close>

lemma package_client_stream:
  assumes "c = Client.Client.truncate HTTP1Client \<or> c = Client.Client.truncate HTTP2Client"
    and "DoStream lib c cancelled tr req = Some (Inr sr)"
  shows "fr_maxPayloadSize (sr_r sr) = 4 * MegaByte \<and> sr_heartbeatTimeout sr = 60 * 1000000000"
  using assms
  by (auto simp: HTTP1Client_def HTTP2Client_def Client.Client.defs DoStream_def Let_def NewReader_def
      DefaultMaxFramePayload_def DefaultHeartbeatTimeout_def
      split: sum.splits if_splits option.splits)

section \<open>Replies received\<close>

lemma reply_received:
  assumes "fresh w" and "reply_codec lib r = Some (ct, c)" and "marshal_app c m = Inr b"
    and "unmarshal_app c b = Inr m"
    and "Reply lib w r CodeOK (App m) = Some (w', r')" and "delivered w' resp"
    and "tr req = Inr resp"
  shows "\<exists>s. Do lib tr req = Some (Inr m, Some s) \<and> src_closed s"
proof -
  have w': "w' = send_reply CodeOK ct b w" using Reply_codec [OF assms(2), of "App m" b] assms(3,5) by simp
  have fs: "final_status CodeOK" by (simp add: final_status_def CodeOK_def)
  note d = send_reply_delivered [OF assms(1) fs assms(6) [unfolded w']]
  have "unmarshalForMediaType lib ct = Some c"
    using assms(2) by (auto simp: reply_codec_def split: if_splits)
  with copy_body [of "lib_room lib" "[]" "resp_body resp"] d assms(4,7) show ?thesis
    by (auto simp: Do_def src_close_def)
qed

lemma error_received:
  assumes "fresh w" and "As_Error err = Some e" and "final_status (duh_HTTPCode e)"
    and "duh_HTTPCode e \<noteq> CodeOK"
    and "reply_codec lib r = Some (ct, c)" and "marshal_reply c (duh_ProtoMessage e) = Inr b"
    and "unmarshal_reply c b = Inr (duh_ProtoMessage e)"
    and "ReplyError lib w r err = Some (w', r')" and "delivered w' resp" and "tr req = Inr resp"
  shows "\<exists>err' s. Do lib tr req = Some (Inl err', Some s) \<and> src_closed s \<and>
    service_error_of (duh_ProtoMessage e) (duh_HTTPCode e) (hget (resp_header resp) ''Retry-After'') err'"
proof -
  have w': "w' = send_reply (duh_HTTPCode e) ct b w"
    using Reply_codec [OF assms(5), of "Rep (duh_ProtoMessage e)" b] assms(2,6,8)
    by (simp add: ReplyError_def)
  note d = send_reply_delivered [OF assms(1,3) assms(9) [unfolded w']]
  have "unmarshalForMediaType lib ct = Some c"
    using assms(5) by (auto simp: reply_codec_def split: if_splits)
  then have "classify_response lib req resp b = NewReplyError req resp (duh_ProtoMessage e)"
    using d(4) assms(7) by (simp add: classify_response_def)
  moreover have "service_error_of (duh_ProtoMessage e) (duh_HTTPCode e) (hget (resp_header resp) ''Retry-After'')
      (NewReplyError req resp (duh_ProtoMessage e))"
    using NewReplyError_service [of "duh_ProtoMessage e" resp req] d(1) by simp
  ultimately show ?thesis
    using handleErrorResponse_eq [of lib req resp] d(1-3) assms(4,10)
    by (auto simp: Do_def src_close_def)
qed

text \<open>A call has released the response body it got, if it got one.\<close>

definition released :: "transport \<Rightarrow> request \<Rightarrow> source option \<Rightarrow> bool" where
  "released tr req body \<longleftrightarrow>
     (case tr req of Inl _ \<Rightarrow> body = None | Inr _ \<Rightarrow> (case body of None \<Rightarrow> False | Some s \<Rightarrow> src_closed s))"

section \<open>The type of a client error\<close>

text \<open>
  A \<open>*duh.ClientError\<close> is made in one of two ways. A call that failed on the client's side
  wraps its cause under the code 452; one that a response was received for carries the status of
  that response and says which request it answers.
\<close>

definition local_failure :: "ClientError \<Rightarrow> bool" where
  "local_failure e \<longleftrightarrow> ce_code e = ''452'' \<and> ce_httpCode e = 452 \<and> \<not> ce_isInfraError e \<and>
     ce_msg e = [] \<and> ce_err e \<noteq> None"

text \<open>
  The details name the request and the status; a reply of the service may itself have a detail
  of one of those names, which is then the one that is kept.
\<close>

definition request_details :: "request \<Rightarrow> response \<Rightarrow> string \<rightharpoonup> string" where
  "request_details req resp =
     [DetailsHttpCode \<mapsto> Itoa (resp_StatusCode resp), DetailsHttpUrl \<mapsto> req_url req,
      DetailsHttpMethod \<mapsto> req_method req]"

definition reply_detail :: "'m lib \<Rightarrow> response \<Rightarrow> string \<Rightarrow> string \<Rightarrow> bool" where
  "reply_detail lib resp k v \<longleftrightarrow>
     (\<exists>c reply m. c \<in> {lib_json lib, lib_proto lib} \<and>
        unmarshal_reply c (src_content (resp_body resp)) = Inr reply \<and> r_details reply = Some m \<and> m k = Some v)"

definition remote_failure :: "'m lib \<Rightarrow> request \<Rightarrow> response \<Rightarrow> ClientError \<Rightarrow> bool" where
  "remote_failure lib req resp e \<longleftrightarrow> ce_err e = None \<and> ce_httpCode e = resp_StatusCode resp \<and>
     (ce_isInfraError e \<longrightarrow> ce_code e = Itoa (resp_StatusCode resp)) \<and>
     (case ce_details e of
        None \<Rightarrow> False
      | Some d \<Rightarrow>
          (\<forall>k v. request_details req resp k = Some v \<longrightarrow>
             d k = Some v \<or> \<not> ce_isInfraError e \<and> (\<exists>v'. d k = Some v' \<and> reply_detail lib resp k v')))"

definition call_error :: "'m lib \<Rightarrow> request \<Rightarrow> error + response \<Rightarrow> error \<Rightarrow> bool" where
  "call_error lib req answer err \<longleftrightarrow>
     (case err of
        ClientErr e \<Rightarrow> local_failure e \<or> (case answer of Inl _ \<Rightarrow> False | Inr resp \<Rightarrow> remote_failure lib req resp e)
      | _ \<Rightarrow> False)"

lemma NewInfraError_typed [typed_errors]: "call_error lib req (Inr resp) (NewInfraError req resp body)"
  by (simp add: call_error_def NewInfraError_def remote_failure_def raw_details_def request_details_def detail_keys)

lemma NewReplyError_typed [typed_errors]:
  assumes "c \<in> {lib_json lib, lib_proto lib}" and "unmarshal_reply c (src_content (resp_body resp)) = Inr reply"
  shows "call_error lib req (Inr resp) (NewReplyError req resp reply)"
proof -
  have "m k = Some v \<Longrightarrow> r_details reply = Some m \<Longrightarrow> reply_detail lib resp k v" for m k v
    using assms by (auto simp: reply_detail_def)
  then show ?thesis
    by (auto simp: call_error_def NewReplyError_def remote_failure_def request_details_def Let_def map_add_def
        detail_keys split: option.splits if_splits)
qed

lemma transport_error_typed [typed_errors]: "call_error lib req answer (transport_error req err)"
  by (simp add: call_error_def transport_error_eq local_failure_def CodeClientError_def go_simps)

lemma read_error_typed [typed_errors]: "call_error lib req answer (read_error req resp err)"
  by (simp add: call_error_def read_error_def local_failure_def CodeClientError_def go_simps)

lemma parse_error_typed [typed_errors]: "call_error lib req answer (parse_error body err)"
  by (simp add: call_error_def parse_error_def NewClientError_def local_failure_def CodeClientError_def go_simps)

lemma classify_response_typed [typed_errors]:
  "call_error lib req (Inr resp) (classify_response lib req resp (src_content (resp_body resp)))"
proof -
  have raw: "call_error lib req (Inr resp) (ClientErr (ClientError (raw_details req resp body) (string_of_bytes body) None
      False (Itoa (resp_StatusCode resp)) (resp_StatusCode resp)))" for body
    by (simp add: call_error_def remote_failure_def raw_details_def request_details_def detail_keys)
  have codec: "unmarshalForMediaType lib ct = Some c \<Longrightarrow> c \<in> {lib_json lib, lib_proto lib}" for ct c
    by (auto simp: unmarshalForMediaType_def Let_def split: if_splits)
  show ?thesis
    by (auto simp: classify_response_def raw NewInfraError_typed split: option.splits sum.splits
        dest!: codec intro: NewReplyError_typed)
qed

lemma handleErrorResponse_typed:
  "handleErrorResponse lib req resp = Some (err, s) \<Longrightarrow> call_error lib req (Inr resp) err"
  using handleErrorResponse_eq [of lib req resp] by (auto simp: typed_errors)

end
