(* ===== verification/Stream_Link.thy ===== *)
theory Stream_Link
  imports Client Stream_Run
begin

text \<open>
  Server and client of a stream together: \<open>HandleStream\<close>, run to its end in any
  interleaving, a transport that delivers what was written, \<open>DoStream\<close> and the caller's
  receive loop.
\<close>

section \<open>Handlers\<close>

text \<open>
  The usual handler: send the messages in order, stop at the first error, then do
  \<open>finish\<close>.
\<close>

primrec send_all :: "'m list \<Rightarrow> 'm stream_prog \<Rightarrow> 'm stream_prog" where
  "send_all [] finish = finish"
| "send_all (m # ms) finish =
     SSend m (\<lambda>e. case e of Some err \<Rightarrow> SReturn (Some err) | None \<Rightarrow> send_all ms finish)"

text \<open>Messages a codec can encode and gets back.\<close>

definition roundtrips :: "'m codec \<Rightarrow> 'm \<Rightarrow> bool" where
  "roundtrips c m \<longleftrightarrow>
     (case marshal_app c m of Inl _ \<Rightarrow> False | Inr b \<Rightarrow> unmarshal_app c b = Inr m)"

definition wire_size :: "'m codec \<Rightarrow> 'm \<Rightarrow> nat" where
  "wire_size c m = (case marshal_app c m of Inl _ \<Rightarrow> 0 | Inr b \<Rightarrow> length b)"

section \<open>Lemmas\<close>

lemma recv_stream_no_heartbeats: "recv_stream c st (no_heartbeats fs) = recv_stream c st fs"
  by (induction c st fs rule: recv_stream.induct)
    (auto simp: no_heartbeats_def split: sum.splits)

lemma plan_send_all:
  assumes "\<forall>m\<in>set ms. roundtrips c m"
  shows "plan (send_all ms finish) c False =
    map (\<lambda>m. (FlagData, projr (marshal_app c m))) ms @ plan finish c False"
  using assms by (induction ms) (auto simp: roundtrips_def split: sum.splits)

lemma recv_send_all:
  assumes "\<forall>m\<in>set ms. roundtrips c m"
  shows "recv_stream c st (map (\<lambda>m. (FlagData, projr (marshal_app c m))) ms @ fs) =
    map Inr ms @ recv_stream c st fs"
  using assms by (induction ms) (auto simp: roundtrips_def split: sum.splits)

definition stream_codec :: "'m lib \<Rightarrow> request \<Rightarrow> 'm codec" where
  "stream_codec lib r =
     (if normalizeMediaType (lib_uni lib) (hget (req_header r) ''Accept'') = ContentStreamJSON
      then lib_json lib else lib_proto lib)"

lemma HandleStream_start:
  assumes "HandleStream lib w r handler conf = Inr s0"
  shows "\<exists>mt. (mt = ContentStreamJSON \<or> mt = ContentStreamProtoBuf) \<and>
    stream_codec lib r = (if mt = ContentStreamJSON then lib_json lib else lib_proto lib) \<and>
    s0 = stream_start (stream_codec lib r)
      (setServiceHeaders (rw_SetHeader ''Content-Type'' mt w)) (heartbeat_interval conf) (handler r)"
  using assms
  by (auto simp: HandleStream_def stream_codec_def Let_def split: if_splits)

lemma stream_head:
  assumes "hs_reach (stream_start c w interval prog) s" and "rw_status w = None"
  shows "rw_status (rw_finish (hs_w s)) = Some 200"
    and "rw_sent (rw_finish (hs_w s)) = rw_header w"
proof -
  have "head_ok (rw_header w) (hs_w (stream_start c w interval prog))"
    using assms(2) by (simp add: head_ok_def stream_start_def)
  with assms(1) have "head_ok (rw_header w) (hs_w s)"
    unfolding hs_reach_def by (rule head.always)
  then show "rw_status (rw_finish (hs_w s)) = Some 200"
    "rw_sent (rw_finish (hs_w s)) = rw_header w"
    by (auto simp: head_ok_def rw_finish_def rw_WriteHeader_def)
qed

text \<open>Heartbeats have no payload: the frames of a stream fit when the handler's do.\<close>

lemma log_fits:
  assumes "no_heartbeats fs = asked" and "\<And>p. (FlagHeartbeat, p) \<in> set fs \<Longrightarrow> p = []"
    and "\<forall>(flag, p) \<in> set asked. fits mx p"
  shows "\<forall>(flag, p) \<in> set fs. fits mx p"
proof clarify
  fix flag p assume f: "(flag, p) \<in> set fs"
  show "fits mx p"
  proof (cases "flag = FlagHeartbeat")
    case True
    with f have "p = []" using assms(2) by simp
    then show ?thesis by (simp add: fits_def linear)
  next
    case False
    with f have "(flag, p) \<in> set (no_heartbeats fs)" by (simp add: no_heartbeats_def)
    with assms(1,3) show ?thesis by auto
  qed
qed

lemma stream_received:
  assumes "HandleStream lib w r handler conf = Inr s0" and "fresh w"
    and "hs_reach s0 s" and "hs_main s = MDone"
    and "delivered (hs_w s) resp" and "tr req = Inr resp"
    and "\<forall>(flag, payload) \<in> set (plan (handler r) (stream_codec lib r) False).
      fits (if cl_MaxFramePayload cl = 0 then DefaultMaxFramePayload else cl_MaxFramePayload cl) payload"
    and "length (hs_log s) + 1 < n"
  shows "\<exists>sr. DoStream lib cl cancelled tr req = Some (Inr sr) \<and>
    recv_all n ctx sr =
      Some (recv_stream (stream_codec lib r) 200 (plan (handler r) (stream_codec lib r) False))"
proof -
  let ?c = "stream_codec lib r"
  let ?max = "if cl_MaxFramePayload cl = 0 then DefaultMaxFramePayload else cl_MaxFramePayload cl"
  from HandleStream_start [OF assms(1)] obtain mt where
    mt: "mt = ContentStreamJSON \<or> mt = ContentStreamProtoBuf"
    and c: "?c = (if mt = ContentStreamJSON then lib_json lib else lib_proto lib)"
    and s0: "s0 = stream_start ?c (setServiceHeaders (rw_SetHeader ''Content-Type'' mt w))
      (heartbeat_interval conf) (handler r)" by blast
  let ?w = "setServiceHeaders (rw_SetHeader ''Content-Type'' mt w)"
  have w: "rw_fault ?w = (\<lambda>_. None)" "rw_flushed ?w = length (rw_body ?w)" "rw_body ?w = []"
    "rw_status ?w = None" using assms(2) by (simp_all add: fresh_def)
  note reach = assms(3) [unfolded s0]
  note finish = stream_done [OF reach assms(4) w(1,2)] and head = stream_head [OF reach w(4)]
  have resp: "resp_StatusCode resp = 200" "hget (resp_header resp) ''Content-Type'' = mt"
    "src_content (resp_body resp) = encode_frames (hs_log s)" "src_err (resp_body resp) = EOF"
    using assms(5) finish(1) w(3) by (auto simp: delivered_def head)
  have norm: "normalizeMediaType (lib_uni lib) mt = mt" using mt by auto
  let ?sr = "\<lparr>sr_r = NewReader (resp_body resp) ?max, sr_codec = ?c, sr_StatusCode = 200,
    sr_hasRequest = True, sr_cancelled = False, sr_done = False, sr_hasPending = False,
    sr_heartbeatTimeout = (if cl_HeartbeatTimeout cl = 0 then DefaultHeartbeatTimeout
      else cl_HeartbeatTimeout cl)\<rparr>"
  have "DoStream lib cl cancelled tr req = Some (Inr ?sr)"
    using mt by (auto simp: DoStream_def assms(6) resp norm c CodeOK_def Let_def)
  moreover have "\<forall>(flag, payload) \<in> set (hs_log s). fits ?max payload"
    by (rule log_fits [OF finish(2,4) assms(7)])
  then have "at_frames ?sr (hs_log s)"
    by (auto simp: at_frames_def NewReader_def resp)
  moreover have "recv_stream ?c 200 (hs_log s) = recv_stream ?c 200 (plan (handler r) ?c False)"
    by (metis finish(2) recv_stream_no_heartbeats)
  ultimately show ?thesis
    using recv_all_stream [of ?sr "hs_log s" n ctx] assms(8) by simp
qed

lemma roundtrips_size:
  "roundtrips c m \<Longrightarrow> wire_size c m \<le> 4000000 \<Longrightarrow>
    fits DefaultMaxFramePayload (projr (marshal_app c m))"
  by (auto simp: fits_def wire_size_def roundtrips_def DefaultMaxFramePayload_def
      MegaByte_def Kilobyte_def split: sum.splits)

text \<open>The usual handler, received in full.\<close>

lemma sent_messages_received:
  assumes "HandleStream lib w r handler conf = Inr s0" and "fresh w"
    and "handler r = send_all ms (SClose None SReturn)"
    and "\<forall>m \<in> set ms. roundtrips (stream_codec lib r) m \<and> wire_size (stream_codec lib r) m \<le> 4000000"
    and "hs_reach s0 s" and "hs_main s = MDone"
    and "delivered (hs_w s) resp" and "tr req = Inr resp" and "cl_MaxFramePayload cl = 0"
    and "length (hs_log s) + 1 < n"
  shows "\<exists>sr. DoStream lib cl cancelled tr req = Some (Inr sr) \<and>
    recv_all n ctx sr = Some (map Inr ms @ [Inl EOF])"
proof -
  let ?c = "stream_codec lib r"
  have rt: "\<forall>m \<in> set ms. roundtrips ?c m" using assms(4) by blast
  note p = plan_send_all [OF rt, of "SClose None SReturn"]
  have fits: "\<forall>(flag, payload) \<in> set (plan (handler r) ?c False).
      fits (if cl_MaxFramePayload cl = 0 then DefaultMaxFramePayload else cl_MaxFramePayload cl) payload"
    using assms(4,9) unfolding assms(3) p
    by (auto simp: close_payload_def roundtrips_size) (simp_all add: fits_def DefaultMaxFramePayload_def
        MegaByte_def Kilobyte_def)
  have "recv_stream ?c 200 (plan (handler r) ?c False) = map Inr ms @ [Inl EOF]"
    unfolding assms(3) p recv_send_all [OF rt] by (simp add: close_payload_def)
  with stream_received [OF assms(1,2,5-7), where tr = tr and req = req and cl = cl and n = n
      and cancelled = cancelled and ctx = ctx, OF assms(8) fits assms(10)] show ?thesis by simp
qed

section \<open>Running without heartbeats\<close>

text \<open>The request goroutine alone, at most \<open>n\<close> steps.\<close>

primrec run_main :: "nat \<Rightarrow> 'm hs \<Rightarrow> 'm hs" where
  "run_main 0 s = s"
| "run_main (Suc n) s = (case step_main s of Some t \<Rightarrow> run_main n t | None \<Rightarrow> s)"

lemma run_main_reach: "hs_reach s (run_main n s)"
proof (induction n arbitrary: s)
  case 0
  then show ?case by (simp add: hs_reach_def)
next
  case (Suc n)
  show ?case
  proof (cases "step_main s")
    case None
    then show ?thesis by (simp add: hs_reach_def)
  next
    case (Some t)
    then have "hs_step s t" by (rule hs_step.main)
    with Suc.IH [of t] Some show ?thesis
      by (auto simp: hs_reach_def intro: converse_rtranclp_into_rtranclp)
  qed
qed

text \<open>The same with the heartbeat goroutine leaving in between.\<close>

lemma run_stop_reach:
  assumes "step_hb TakeStop (run_main n s) = Some t"
  shows "hs_reach s (run_main m t)"
proof -
  have "hs_step (run_main n s) t" using assms by (rule hs_step.heartbeat)
  then show ?thesis
    using run_main_reach [of s n] run_main_reach [of t m]
    unfolding hs_reach_def by (meson rtranclp.rtrancl_into_rtrancl rtranclp_trans)
qed

end
