(* ===== verification/Client_Properties.thy ===== *)
theory Client_Properties
  imports Client Sample
begin

text \<open>
  Properties of client.go, alone and together with the server side: what a service replied is
  what the caller gets, and how everything else is classified.
\<close>

section \<open>Round trips\<close>

text \<open>C6: A message a handler replies with, in the encoding the client accepts, is returned by Do
  unchanged, for every way the body is cut into chunks.\<close>

theorem reply_reaches_client:
  assumes "fresh w" and "reply_codec lib r = Some (ct, c)" and "marshal_app c m = Inr b"
    and "unmarshal_app c b = Inr m"
    and "Reply lib w r CodeOK (App m) = Some (w', r')" and "delivered w' resp"
    and "tr req = Inr resp"
  shows "\<exists>s. Do lib tr req = Some (Inr m, Some s) \<and> src_closed s"
  by (rule reply_received [where tr = tr and req = req, OF assms])

text \<open>The sample reply and how it arrives, used by the witnesses below.\<close>

definition sample_response :: "int \<Rightarrow> string \<Rightarrow> bytes \<Rightarrow> response" where
  "sample_response code ct b =
     \<lparr>resp_StatusCode = code, resp_Status = ''status'',
      resp_header = hset (hset Map.empty HeaderDUHVersion DUHVersion) ''Content-Type'' ct,
      resp_body = sample_source b\<rparr>"

lemma sample_response_simps [simp]:
  "resp_StatusCode (sample_response code ct b) = code"
  "resp_body (sample_response code ct b) = sample_source b"
  "hget (resp_header (sample_response code ct b)) ''Content-Type'' = ct"
  "hget (resp_header (sample_response code ct b)) HeaderDUHVersion = DUHVersion"
  "hget (resp_header (sample_response code ct b)) ''Retry-After'' = []"
  by (simp_all add: sample_response_def http_simps)

lemma fresh_new_rw [simp]: "fresh (new_rw flusher)"
  by (simp add: fresh_def new_rw_def)

lemma rw_header_new_rw [simp]: "rw_header (new_rw flusher) = Map.empty" "rw_status (new_rw flusher) = None"
  by (simp_all add: new_rw_def)

lemma sample_delivered:
  assumes "final_status code"
  shows "delivered (send_reply code ct b (new_rw True)) (sample_response code ct b)"
proof -
  note s = send_reply_sent [OF rw_header_new_rw(2) assms, of ct b]
  have "rw_sent (send_reply code ct b (new_rw True)) =
      rw_header (setServiceHeaders (rw_SetHeader ''Content-Type'' ct (new_rw True)))"
    using assms by (simp add: send_reply_def rw_Write_def new_rw_def rw_WriteHeader_def Let_def
        final_status_def)
  then have "hget (rw_sent (send_reply code ct b (new_rw True))) ''Retry-After'' = []"
    by (simp add: setServiceHeaders_def http_simps)
  then show ?thesis using s send_reply_body [of "new_rw True" code ct b]
    by (simp add: delivered_def rw_finish_def service_headers_def) (simp add: new_rw_def)
qed

lemma sample_accept: "reply_codec sample_lib (sample_request Map.empty b) = Some (ContentTypeJSON, sample_codec)"
  by (simp add: reply_codec_def accept_type_def normalizeMediaType_ascii is_ascii_def trim_def json_types_def)

theorem reply_reaches_client_witness:
  "\<exists>s. Do sample_lib (\<lambda>_. Inr (sample_response 200 ContentTypeJSON (bytes_of_string ''ok'')))
     (sample_request Map.empty []) = Some (Inr ''ok'', Some s) \<and> src_closed s"
proof -
  let ?b = "bytes_of_string ''ok''"
  have m: "marshal_app sample_codec ''ok'' = Inr ?b" "unmarshal_app sample_codec ?b = Inr ''ok''"
    by (simp_all only: sample_codec_simps string_of_bytes_of_string)
  have r: "Reply sample_lib (new_rw True) (sample_request Map.empty []) CodeOK (App ''ok'') =
      Some (send_reply 200 ContentTypeJSON ?b (new_rw True), sample_request Map.empty [])"
    using Reply_codec [OF sample_accept, of "App ''ok''" ?b] m(1) by (simp add: CodeOK_def)
  have "final_status 200" by (simp add: final_status_def)
  from reply_reaches_client [OF fresh_new_rw sample_accept m r sample_delivered [OF this],
      of "\<lambda>_. Inr (sample_response 200 ContentTypeJSON ?b)" "sample_request Map.empty []"]
  show ?thesis by simp
qed

text \<open>C5: An error a service replies with through ReplyError, under an HTTP status from 400 to 999,
  reaches the caller of Do as a client error with the same application code, HTTP status and
  message, not marked as infrastructure. It has every detail of the service's error; only on a
  429 with a header Retry-After is the detail http.retry-after the value of that header.\<close>

theorem service_error_reaches_client:
  assumes "fresh w" and "As_Error err = Some e" and "400 \<le> duh_HTTPCode e" and "duh_HTTPCode e \<le> 999"
    and "reply_codec lib r = Some (ct, c)" and "marshal_reply c (duh_ProtoMessage e) = Inr b"
    and "unmarshal_reply c b = Inr (duh_ProtoMessage e)"
    and "ReplyError lib w r err = Some (w', r')" and "delivered w' resp" and "tr req = Inr resp"
  shows "\<exists>err' s. Do lib tr req = Some (Inl err', Some s) \<and> src_closed s \<and>
    service_error_of (duh_ProtoMessage e) (duh_HTTPCode e) (hget (resp_header resp) ''Retry-After'') err'"
proof -
  have "final_status (duh_HTTPCode e)" "duh_HTTPCode e \<noteq> CodeOK"
    using assms(3) by (simp_all add: final_status_def CodeOK_def)
  from error_received [where tr = tr and req = req, OF assms(1,2) this assms(5-10)] show ?thesis .
qed

theorem service_error_reaches_client_witness:
  "\<exists>err' s. Do sample_lib (\<lambda>_. Inr (sample_response 404 ContentTypeJSON
       (bytes_of_string ''404'' @ [0] @ bytes_of_string ''gone''))) (sample_request Map.empty []) =
     Some (Inl err', Some s) \<and> src_closed s \<and>
     service_error_of \<lparr>r_code = ''404'', r_message = ''gone'', r_details = None\<rparr> 404 [] err'"
proof -
  let ?e = "DService (serviceError None (Some (ErrText ''gone'')) ''404'' 404)"
  let ?err = "NewServiceError 404 ''gone'' None None"
  let ?b = "bytes_of_string ''404'' @ [0] @ bytes_of_string ''gone''"
  have As: "As_Error ?err = Some ?e"
    by (simp add: NewServiceError_def NewServiceErrorWithCode_def go_simps)
  have p: "duh_ProtoMessage ?e = \<lparr>r_code = ''404'', r_message = ''gone'', r_details = None\<rparr>"
    by (simp add: service_ProtoMessage_def service_Message_def)
  have m: "marshal_reply sample_codec (duh_ProtoMessage ?e) = Inr ?b"
    unfolding p by (simp add: sample_marshal_reply_def bytes_of_string_def)
  have r: "ReplyError sample_lib (new_rw True) (sample_request Map.empty []) ?err =
      Some (send_reply 404 ContentTypeJSON ?b (new_rw True), sample_request Map.empty [])"
    using Reply_codec [OF sample_accept, of "Rep (duh_ProtoMessage ?e)" ?b] m
    by (simp add: ReplyError_def go_simps)
  have fs: "final_status (duh_HTTPCode ?e)" by (simp add: final_status_def)
  show ?thesis
    using service_error_reaches_client [OF fresh_new_rw As _ _ sample_accept m _ r sample_delivered,
        of "\<lambda>_. Inr (sample_response 404 ContentTypeJSON ?b)" "sample_request Map.empty []"]
      sample_reply_roundtrip [of "duh_ProtoMessage ?e"] m fs
    by (simp add: CodeOK_def service_ProtoMessage_def service_Message_def)
qed

text \<open>C34: Content written with WriteContent is appended unchanged to the buffer the caller of
  DoContent passes, and the headers it gets back carry the content type.\<close>

theorem content_reaches_client:
  assumes "fresh w" and "delivered (WriteContent w ct body) resp" and "tr req = Inr resp"
  shows "\<exists>s. DoContent lib tr req buf = Some (Inr (resp_header resp), buf @ body, Some s) \<and>
    src_closed s \<and> hget (resp_header resp) ''Content-Type'' = ct"
proof -
  have fs: "final_status CodeOK" by (simp add: final_status_def CodeOK_def)
  have w: "WriteContent w ct body = send_reply CodeOK ct body w"
    by (simp add: WriteContent_def send_reply_def)
  note d = send_reply_delivered [OF assms(1) fs assms(2) [unfolded w]]
  with copy_body [of "lib_room lib" buf "resp_body resp"] assms(3) show ?thesis
    by (auto simp: DoContent_def src_close_def)
qed

theorem content_reaches_client_witness:
  "\<exists>s. DoContent sample_lib (\<lambda>_. Inr (sample_response 200 ''image/png'' [1, 2]))
     (sample_request Map.empty []) [9] =
     Some (Inr (resp_header (sample_response 200 ''image/png'' [1, 2])), [9, 1, 2], Some s) \<and> src_closed s"
proof -
  have "final_status 200" by (simp add: final_status_def)
  from sample_delivered [OF this, of "''image/png''" "[1, 2]"]
  have "delivered (WriteContent (new_rw True) ''image/png'' [1, 2]) (sample_response 200 ''image/png'' [1, 2])"
    by (simp add: WriteContent_def send_reply_def CodeOK_def)
  from content_reaches_client [OF fresh_new_rw this,
      of "\<lambda>_. Inr (sample_response 200 ''image/png'' [1, 2])" "sample_request Map.empty []" sample_lib "[9]"]
  show ?thesis by simp
qed

section \<open>Classification\<close>

text \<open>
  A response of the service: it carries the version header, and its body is a reply in the
  encoding its content type announces or, if the content type announces neither, in JSON or else
  in protobuf.
\<close>

definition service_reply :: "'m lib \<Rightarrow> response \<Rightarrow> reply \<Rightarrow> bool" where
  "service_reply lib resp reply \<longleftrightarrow> hget (resp_header resp) HeaderDUHVersion \<noteq> [] \<and>
     (let body = src_content (resp_body resp) in
      case unmarshalForMediaType lib (hget (resp_header resp) ''Content-Type'') of
        Some c \<Rightarrow> unmarshal_reply c body = Inr reply
      | None \<Rightarrow>
          (case unmarshal_reply (lib_json lib) body of
             Inr rep \<Rightarrow> rep = reply
           | Inl _ \<Rightarrow> unmarshal_reply (lib_proto lib) body = Inr reply))"

text \<open>
  A response of the infrastructure: no version header, a status 404 or 5xx, and no reply in the
  encoding its content type announces.
\<close>

definition infra_response :: "'m lib \<Rightarrow> response \<Rightarrow> bool" where
  "infra_response lib resp \<longleftrightarrow> hget (resp_header resp) HeaderDUHVersion = [] \<and>
     (resp_StatusCode resp = 404 \<or> 500 \<le> resp_StatusCode resp \<and> resp_StatusCode resp \<le> 599) \<and>
     (case unmarshalForMediaType lib (hget (resp_header resp) ''Content-Type'') of
        Some c \<Rightarrow> (\<exists>e. unmarshal_reply c (src_content (resp_body resp)) = Inl e)
      | None \<Rightarrow> True)"

lemma classify_service:
  "service_reply lib resp reply \<Longrightarrow>
    classify_response lib req resp (src_content (resp_body resp)) = NewReplyError req resp reply"
  by (auto simp: service_reply_def classify_response_def Let_def split: option.splits sum.splits)

lemma classify_infra:
  assumes "infra_response lib resp"
  shows "classify_response lib req resp (src_content (resp_body resp)) =
    NewInfraError req resp (src_content (resp_body resp))"
proof -
  have "resp_StatusCode resp div 100 = 5 \<or> resp_StatusCode resp = CodeNotFound"
    using assms by (auto simp: infra_response_def CodeNotFound_def)
  with assms show ?thesis by (auto simp: infra_response_def classify_response_def split: option.splits)
qed


definition sample_proxy :: "int \<Rightarrow> bytes \<Rightarrow> response" where
  "sample_proxy code b =
     \<lparr>resp_StatusCode = code, resp_Status = ''status'', resp_header = hset Map.empty ''Content-Type'' ''text/html'',
      resp_body = sample_source b\<rparr>"

lemma sample_proxy_infra:
  "500 \<le> code \<and> code \<le> 599 \<or> code = 404 \<Longrightarrow> infra_response sample_lib (sample_proxy code b)"
  by (auto simp: infra_response_def sample_proxy_def http_simps unmarshalForMediaType_def
      normalizeMediaType_ascii is_ascii_def trim_def is_space_def lower_char_def ContentTypeJSON_def
      ContentTypeProtoBuf_def)


text \<open>C40: Each of the four calls returns for every transport result and for every body that ends,
  with io.EOF or with any other error, however it is cut into chunks. A response body it does not
  hand to the caller is closed: on every path of Do and DoContent, and on every path of DoStream
  and DoBytes that ends in an error.\<close>

theorem calls_return_and_close:
  "(\<exists>res body. Do lib tr req = Some (res, body) \<and> released tr req body) \<and>
   (\<exists>res buf' body. DoContent lib tr req buf = Some (res, buf', body) \<and> released tr req body) \<and>
   (\<exists>res. DoStream lib c cancelled tr req = Some res \<and>
      (case res of Inl (err, body) \<Rightarrow> released tr req body | Inr sr \<Rightarrow> \<exists>resp. tr req = Inr resp)) \<and>
   (\<exists>res. DoBytes lib tr req = Some res \<and>
      (case res of Inl (err, body) \<Rightarrow> released tr req body | Inr s \<Rightarrow> \<exists>resp. tr req = Inr resp \<and> s = resp_body resp))"
proof (cases "tr req")
  case (Inl err)
  then show ?thesis by (simp add: Do_def DoContent_def DoStream_def DoBytes_def released_def)
next
  case (Inr resp)
  let ?resp = "resp\<lparr>resp_body := cancelled (resp_body resp)\<rparr>"
  note rel = released_def src_close_def Inr
  obtain e s where h: "handleErrorResponse lib req resp = Some (e, src_close s)"
    using handleErrorResponse_eq [of lib req resp] by blast
  obtain e' s' where h': "handleErrorResponse lib req ?resp = Some (e', src_close s')"
    using handleErrorResponse_eq [of lib req ?resp] by blast
  note copies = copy_body [of "lib_room lib" "[]" "resp_body resp"]
    copy_body [of "lib_room lib" "[]" "resp_body ?resp"]
  have "\<exists>res body. Do lib tr req = Some (res, body) \<and> released tr req body"
    using copies(1) h by (auto simp: Do_def rel)
  moreover have "\<exists>res buf' body. DoContent lib tr req buf = Some (res, buf', body) \<and> released tr req body"
    using copy_body [of "lib_room lib" buf "resp_body resp"] h by (auto simp: DoContent_def rel)
  moreover have "\<exists>res. DoStream lib c cancelled tr req = Some res \<and>
      (case res of Inl (err, body) \<Rightarrow> released tr req body | Inr sr \<Rightarrow> \<exists>resp. tr req = Inr resp)"
    using copies(2) h' by (auto simp: DoStream_def Let_def rel)
  moreover have "\<exists>res. DoBytes lib tr req = Some res \<and>
      (case res of Inl (err, body) \<Rightarrow> released tr req body | Inr s \<Rightarrow> \<exists>resp. tr req = Inr resp \<and> s = resp_body resp)"
    using copies(1) h by (auto simp: DoBytes_def rel)
  ultimately show ?thesis by blast
qed

text \<open>C16: Every error of the four calls is a client error, and one of two kinds: either the call
  failed on this side, and the error has code and HTTP code 452 and wraps its cause; or a response
  came back, and the error has the status of that response as its HTTP code, has the status, the
  URL and the method of the request in its details (unless the service's reply has a detail of
  that name itself), and has that status as its code whenever it is an infrastructure error.
  DoStream reads the body of a request it has cancelled.\<close>

theorem client_errors_typed:
  assumes "Do lib tr req = Some (Inl err, body) \<or> DoStream lib c cancelled tr req = Some (Inl (err, body)) \<or>
    DoBytes lib tr req = Some (Inl (err, body)) \<or> DoContent lib tr req buf = Some (Inl err, buf', body)"
  shows "\<exists>e. err = ClientErr e \<and>
    (local_failure e \<or> (\<exists>resp. tr req = Inr resp \<and>
       (remote_failure lib req resp e \<or>
        remote_failure lib req (resp\<lparr>resp_body := cancelled (resp_body resp)\<rparr>) e)))"
proof (cases "tr req")
  case (Inl x)
  have "call_error lib req (Inl x) err"
    using assms Inl by (auto simp: Do_def DoStream_def DoBytes_def DoContent_def transport_error_typed)
  then show ?thesis by (auto simp: call_error_def split: error.splits)
next
  case (Inr resp)
  let ?resp = "resp\<lparr>resp_body := cancelled (resp_body resp)\<rparr>"
  note typed = read_error_typed parse_error_typed NewInfraError_typed
  have infra: "call_error lib req (Inr ?resp) (NewInfraError req ?resp b)" for b by (rule NewInfraError_typed)
  from assms have "call_error lib req (Inr resp) err \<or> call_error lib req (Inr ?resp) err"
  proof (elim disjE)
    assume "Do lib tr req = Some (Inl err, body)"
    with Inr show ?thesis
      by (auto simp: Do_def typed dest: handleErrorResponse_typed split: if_splits option.splits sum.splits)
  next
    assume "DoStream lib c cancelled tr req = Some (Inl (err, body))"
    with Inr infra show ?thesis
      by (auto simp: DoStream_def Let_def typed dest: handleErrorResponse_typed
          split: if_splits option.splits sum.splits)
  next
    assume "DoBytes lib tr req = Some (Inl (err, body))"
    with Inr show ?thesis
      by (auto simp: DoBytes_def typed dest: handleErrorResponse_typed split: if_splits option.splits sum.splits)
  next
    assume "DoContent lib tr req buf = Some (Inl err, buf', body)"
    with Inr show ?thesis
      by (auto simp: DoContent_def typed dest: handleErrorResponse_typed split: if_splits option.splits sum.splits)
  qed
  with Inr show ?thesis by (auto simp: call_error_def split: error.splits)
qed

theorem client_errors_typed_witness:
  "\<exists>e s. Do sample_lib (\<lambda>_. Inr (sample_proxy 503 [97])) (sample_request Map.empty []) = Some (Inl (ClientErr e), s) \<and>
     remote_failure sample_lib (sample_request Map.empty []) (sample_proxy 503 [97]) e"
proof -
  let ?req = "sample_request Map.empty []" and ?resp = "sample_proxy 503 [97]"
  let ?err = "NewInfraError ?req ?resp [97]"
  from handleErrorResponse_eq [of sample_lib ?req ?resp] classify_infra [OF sample_proxy_infra [of 503 "[97]"], of ?req]
  obtain s where d: "Do sample_lib (\<lambda>_. Inr ?resp) ?req = Some (Inl ?err, Some s)"
    by (auto simp: Do_def sample_proxy_def CodeOK_def)
  note typed = client_errors_typed [where tr = "\<lambda>_. Inr ?resp" and cancelled = "\<lambda>b. b"]
  from typed [OF disjI1 [OF d]] obtain e where
    "?err = ClientErr e" "local_failure e \<or> remote_failure sample_lib ?req ?resp e" by auto
  moreover have "?err = ClientErr e \<Longrightarrow> \<not> local_failure e" for e
    by (auto simp: NewInfraError_def local_failure_def)
  ultimately show ?thesis using d by auto
qed

text \<open>DoStream cancels the request before it reads the body of an error response. If the
  cancellation cuts the body off, the reply the service sent is lost and the caller gets a
  client error 452 instead.\<close>

theorem DoStream_cancels_before_reading:
  assumes "tr req = Inr resp" and "resp_StatusCode resp \<noteq> CodeOK"
    and "src_err (cancelled (resp_body resp)) = Canceled"
  shows "\<exists>e s. DoStream lib c cancelled tr req = Some (Inl (ClientErr e, s)) \<and>
    ce_httpCode e = CodeClientError \<and> ce_code e = ''452'' \<and> \<not> ce_isInfraError e"
  using handleErrorResponse_eq [of lib req "resp\<lparr>resp_body := cancelled (resp_body resp)\<rparr>"] assms
  by (auto simp: DoStream_def Let_def read_error_def CodeClientError_def go_simps)

theorem DoStream_cancels_before_reading_witness:
  "\<exists>e s. DoStream sample_lib \<lparr>cl_MaxFramePayload = 0, cl_HeartbeatTimeout = 0\<rparr>
      (\<lambda>_. \<lparr>src_chunks = [], src_eager = False, src_err = Canceled, src_closed = False\<rparr>)
      (\<lambda>_. Inr (sample_response 404 ContentTypeJSON (bytes_of_string ''404'' @ [0])))
      (sample_request Map.empty []) = Some (Inl (ClientErr e, s)) \<and>
    ce_httpCode e = CodeClientError \<and> ce_code e = ''452'' \<and> \<not> ce_isInfraError e"
  by (rule DoStream_cancels_before_reading [of _ _ "sample_response 404 ContentTypeJSON (bytes_of_string ''404'' @ [0])"])
    (simp_all add: CodeOK_def)

end
