(* ===== verification/Stream_Properties.thy ===== *)
theory Stream_Properties
  imports Stream_Link Client_Properties
begin

text \<open>
  Properties of structured streams (streaming.go): the two goroutines of the server in every
  interleaving, the client's reader, and both ends together. The witnesses run a handler that
  sends one message and closes the stream.
\<close>

section \<open>A sample run\<close>

definition sample_stream_request :: request where
  "sample_stream_request = sample_request (hset Map.empty ''Accept'' ContentStreamJSON) []"

definition sample_handler :: "request \<Rightarrow> string stream_prog" where
  "sample_handler r = send_all [''a''] (SClose None SReturn)"

definition sample_start :: "string hs" where
  "sample_start = stream_start sample_codec
     (setServiceHeaders (rw_SetHeader ''Content-Type'' ContentStreamJSON (new_rw True))) (- 1)
     (sample_handler sample_stream_request)"

definition sample_end :: "string hs" where
  "sample_end = run_main 20 sample_start"

lemma sample_HandleStream:
  "HandleStream sample_lib (new_rw True) sample_stream_request sample_handler (Some (- 1)) = Inr sample_start"
  by (simp add: HandleStream_def sample_stream_request_def sample_start_def heartbeat_interval_def Let_def)
    (simp add: new_rw_def)

lemma sample_reach: "hs_reach sample_start sample_end"
  unfolding sample_end_def by (rule run_main_reach)

lemma sample_end_simps [simp]:
  "hs_main sample_end = MDone" "hs_log sample_end = [(FlagData, bytes_of_string ''a''), (FlagFinal, [])]"
  "rw_body (hs_w sample_end) = [0, 0, 0, 0, 1, 97, 1, 0, 0, 0, 0]"
  by (simp_all add: sample_end_def sample_start_def sample_handler_def stream_start_def eval_nat_numeral
      step_main_def Send_crit_def Close_crit_def begin_frame_def end_frame_def stopHeartbeat_def
      close_payload_def rw_Write_def new_rw_def Let_def flag_defs frame_header_def PutUint32_def
      bytes_of_string_def)

section \<open>The server\<close>

text \<open>C2: However the heartbeat goroutine interleaves with the handler, when HandleStream returns
  the response is a 200 whose body is a sequence of complete frames, all flushed; without the
  heartbeats it is exactly the sequence of frames the handler asked for.\<close>

theorem stream_refines_plan:
  assumes "HandleStream lib w r handler conf = Inr s0" and "fresh w"
    and "hs_reach s0 s" and "hs_main s = MDone"
  shows "rw_body (hs_w s) = encode_frames (hs_log s) \<and>
    no_heartbeats (hs_log s) = plan (handler r) (stream_codec lib r) False \<and>
    rw_flushed (hs_w s) = length (rw_body (hs_w s)) \<and>
    rw_status (rw_finish (hs_w s)) = Some 200"
proof -
  from HandleStream_start [OF assms(1)] obtain mt where
    s0: "s0 = stream_start (stream_codec lib r) (setServiceHeaders (rw_SetHeader ''Content-Type'' mt w))
      (heartbeat_interval conf) (handler r)" by blast
  note reach = assms(3) [unfolded s0]
  show ?thesis
    using stream_done [OF reach assms(4)] stream_head [OF reach] assms(2) by (simp add: fresh_def)
qed

theorem stream_refines_plan_witness:
  "plan (sample_handler sample_stream_request) (stream_codec sample_lib sample_stream_request) False =
      [(FlagData, bytes_of_string ''a''), (FlagFinal, [])] \<and>
    rw_status (rw_finish (hs_w sample_end)) = Some 200"
proof -
  note p = stream_refines_plan [OF sample_HandleStream fresh_new_rw sample_reach sample_end_simps(1)]
  then have "plan (sample_handler sample_stream_request) (stream_codec sample_lib sample_stream_request) False =
      no_heartbeats (hs_log sample_end)" by simp
  also have "\<dots> = [(FlagData, bytes_of_string ''a''), (FlagFinal, [])]" by (simp add: no_heartbeats_def)
  finally show ?thesis using p by blast
qed

text \<open>C3: At every moment of every run on a connection that does not fail, the body is a sequence
  of complete frames followed by at most the header of the frame the handler is writing: no
  heartbeat is ever written into the middle of another frame, and the handler's frames so far
  are a prefix of its plan.\<close>

theorem stream_never_interleaves:
  assumes "HandleStream lib w r handler conf = Inr s0" and "fresh w" and "hs_reach s0 s"
  shows "rw_body (hs_w s) = encode_frames (hs_log s) @ partial_frame (hs_main s) \<and>
    (\<exists>rest. no_heartbeats (hs_log s) @ rest = plan (handler r) (stream_codec lib r) False)"
proof -
  let ?c = "stream_codec lib r"
  from HandleStream_start [OF assms(1)] obtain mt where
    s0: "s0 = stream_start ?c (setServiceHeaders (rw_SetHeader ''Content-Type'' mt w))
      (heartbeat_interval conf) (handler r)" by blast
  have "wire_inv ?c [] (handler r) s"
    using hs_reach_wire [OF assms(3) [unfolded s0]] assms(2) by (simp add: fresh_def)
  then show ?thesis by (auto simp: wire_inv_def)
qed

theorem stream_never_interleaves_witness:
  "rw_body (hs_w (run_main 4 sample_start)) =
    encode_frames (hs_log (run_main 4 sample_start)) @ partial_frame (hs_main (run_main 4 sample_start))"
  using stream_never_interleaves [OF sample_HandleStream fresh_new_rw run_main_reach, of 4] by simp

text \<open>C9: Once a final or error frame is in the response, it is the last frame and no byte is
  written any more, neither by further calls of the handler nor by a heartbeat, also when
  writes fail.\<close>

theorem stream_ends_with_terminal_frame:
  assumes "hs_reach (stream_start c w interval prog) s" and "\<exists>f \<in> set (hs_log s). terminal f"
    and "hs_reach s t"
  shows "hs_log t = hs_log s \<and> rw_body (hs_w t) = rw_body (hs_w s) \<and> terminal (last (hs_log s)) \<and>
    (\<forall>f \<in> set (butlast (hs_log s)). \<not> terminal f)"
proof -
  have inv: "sync_inv s" "end_inv s" using assms(1) by (rule hs_reach_sync, rule hs_reach_end)
  then have "frozen (rw_body (hs_w s)) (hs_log s) s" using assms(2) by (auto simp: frozen_def end_inv_def)
  from freeze.always [OF assms(3) [unfolded hs_reach_def] this]
  have "hs_log t = hs_log s \<and> rw_body (hs_w t) = rw_body (hs_w s)" by (simp add: frozen_def)
  moreover have b: "\<forall>f \<in> set (butlast (hs_log s)). \<not> terminal f" using inv(2) by (simp add: end_inv_def)
  moreover from assms(2) obtain f where f: "f \<in> set (hs_log s)" "terminal f" by blast
  then have "hs_log s = butlast (hs_log s) @ [last (hs_log s)]" by (cases "hs_log s") auto
  with f b have "terminal (last (hs_log s))" by (metis Un_iff empty_iff empty_set set_ConsD set_append)
  ultimately show ?thesis by blast
qed

theorem stream_ends_with_terminal_frame_witness:
  "terminal (last (hs_log sample_end)) \<and> hs_log sample_end = [(FlagData, bytes_of_string ''a''), (FlagFinal, [])]"
  using stream_ends_with_terminal_frame [OF sample_reach [unfolded sample_start_def], of sample_end]
  by (simp add: hs_reach_def)

text \<open>C28: When HandleStream returns, the heartbeat goroutine has ended and the mutex is free; and
  at every moment at most one of the two goroutines is inside its critical section.\<close>

theorem heartbeat_joined:
  assumes "hs_reach (stream_start c w interval prog) s"
  shows "(hs_main s = MDone \<longrightarrow> hb_gone (hs_hb s) \<and> hs_mu s = None) \<and>
    \<not> (main_holds (hs_main s) \<and> hb_holds (hs_hb s))"
proof -
  from hs_reach_sync [OF assms] have inv: "sync_inv s" .
  have "hs_mu s = None" if "hs_main s = MDone"
  proof -
    from inv that have "hb_gone (hs_hb s)" "hs_mu s \<noteq> Some OMain"
      "hs_mu s = Some OHeartbeat \<longleftrightarrow> hb_holds (hs_hb s)" by (auto simp: sync_inv_def)
    then have "hs_mu s \<noteq> Some OMain" "hs_mu s \<noteq> Some OHeartbeat" by (auto simp: hb_gone_def hb_holds_def)
    then show ?thesis by (metis not_Some_eq owner.exhaust)
  qed
  with inv show ?thesis by (auto simp: sync_inv_def)
qed

theorem heartbeat_joined_witness:
  "hb_gone (hs_hb sample_end) \<and> hs_mu sample_end = None"
  using heartbeat_joined [OF sample_reach [unfolded sample_start_def]] by simp

text \<open>C8: HandleStream returns unless its handler panics: there is no infinite run without
  heartbeat ticks, and in every reachable state that is not the end of the request goroutine one
  of the goroutines can make a step other than a tick, so there is no deadlock.\<close>

theorem HandleStream_terminates:
  "wf {(t, s :: 'm hs). quiet_step s t} \<and>
   (\<forall>c w interval prog (s :: 'm hs). hs_reach (stream_start c w interval prog) s \<longrightarrow>
      hs_main s = MDone \<or> hs_main s = MPanicked \<or> (\<exists>t. quiet_step s t))"
proof -
  have "wf {(t, s :: 'm hs). quiet_step s t}"
    by (rule wf_subset [OF wf_run_order]) (auto intro: quiet_decreases)
  then show ?thesis using quiet_enabled hs_reach_sync by blast
qed

theorem HandleStream_terminates_witness:
  "hs_main sample_start = MDone \<or> hs_main sample_start = MPanicked \<or> (\<exists>t. quiet_step sample_start t)"
  using HandleStream_terminates [where ?'m = "char list"]
  unfolding sample_start_def hs_reach_def by blast

text \<open>If the handler panics while the heartbeat goroutine runs and the stream is not closed,
  nobody ever stops that goroutine: in every later state it is still alive and keeps the writer
  of the finished request.\<close>

theorem panic_leaks_heartbeat:
  assumes "hs_main s = MProg SPanic" and "\<not> hs_closed s" and "\<not> hs_stop s" and "\<not> hb_gone (hs_hb s)"
    and "step_main s = Some t" and "hs_reach t u"
  shows "hs_main u = MPanicked \<and> \<not> hb_gone (hs_hb u)"
proof -
  have "orphaned t" using assms(1-5) by (auto simp: orphaned_def step_main_def)
  with orphan.always [of t u] assms(6) show ?thesis by (simp add: orphaned_def hs_reach_def)
qed

theorem panic_leaks_heartbeat_witness:
  "\<not> hb_gone (hs_hb (run_main 1 (stream_start sample_codec (new_rw True) 1 SPanic)))"
  using panic_leaks_heartbeat [of "stream_start sample_codec (new_rw True) 1 SPanic"
      "run_main 1 (stream_start sample_codec (new_rw True) 1 SPanic)"
      "run_main 1 (stream_start sample_codec (new_rw True) 1 SPanic)"]
  by (simp add: stream_start_def step_main_def hb_gone_def hs_reach_def)

section \<open>The client\<close>

text \<open>C10: On any data, final, error and heartbeat frames that fit its limit, in any order and for
  every chunking of the body, the caller's receive loop yields what the frames mean: heartbeats are skipped, data frames are messages in order,
  a final frame ends the stream (after its message, if it has one), an error frame is a client
  error, and a body that ends without a final or error frame is an unexpected EOF.\<close>

theorem recv_refines_frames:
  assumes "src_content (fr_r (sr_r sr)) = encode_frames fs" and "src_err (fr_r (sr_r sr)) = EOF"
    and "\<forall>(flag, payload) \<in> set fs. flag \<in> {FlagData, FlagFinal, FlagError, FlagHeartbeat} \<and>
      fits (fr_maxPayloadSize (sr_r sr)) payload"
    and "\<not> sr_done sr" and "\<not> sr_hasPending sr" and "Suc (length fs) < n"
  shows "recv_all n ctx sr = Some (recv_stream (sr_codec sr) (sr_StatusCode sr) fs)"
  using assms by (intro recv_all_stream) (auto simp: at_frames_def)

definition sample_reader :: "bytes list \<Rightarrow> (source, string) streamReader" where
  "sample_reader chunks =
     \<lparr>sr_r = NewReader \<lparr>src_chunks = chunks, src_eager = False, src_err = EOF, src_closed = False\<rparr> 100,
      sr_codec = sample_codec, sr_StatusCode = 200, sr_hasRequest = True, sr_cancelled = False,
      sr_done = False, sr_hasPending = False, sr_heartbeatTimeout = DefaultHeartbeatTimeout\<rparr>"

theorem recv_refines_frames_witness:
  "recv_all 5 False (sample_reader [[3, 0, 0], [0, 0, 0, 0, 0, 0, 1, 97, 1, 0], [0, 0, 1, 98]]) =
     Some [Inr (string_of_bytes [97]), Inr (string_of_bytes [98]), Inl EOF]"
  using recv_refines_frames [of "sample_reader [[3, 0, 0], [0, 0, 0, 0, 0, 0, 1, 97, 1, 0], [0, 0, 1, 98]]"
      "[(FlagHeartbeat, []), (FlagData, [97]), (FlagFinal, [98])]" 5 False]
  by (simp add: sample_reader_def NewReader_def src_content_def encode_frame_def frame_header_def
      PutUint32_def flag_defs fits_def)

text \<open>After Recv has returned any error, also io.EOF, every further call returns io.EOF without
  touching the connection.\<close>

theorem Recv_error_is_final:
  fixes sr :: "(source, 'm) streamReader"
  assumes "Recv ctx sr = Some (Inl e, sr')"
  shows "Recv ctx' sr' = Some (Inl EOF, sr')"
proof -
  let ?P = "\<lambda>ctx sr (res :: error + 'm, sr'). \<forall>e. res = Inl e \<longrightarrow> \<not> sr_hasPending sr \<longrightarrow> sr_done sr' \<and> \<not> sr_hasPending sr'"
  have loop: "sr_done sr' \<and> \<not> sr_hasPending sr'"
    if r: "Recv_loop ctx sr = Some (Inl e, sr')" and np: "\<not> sr_hasPending sr"
  proof -
    have "?P ctx sr (Inl e, sr')"
    proof (rule Recv_loop.raw_induct [where P = ?P, OF _ r], goal_cases)
      case (1 loop ctx sr y)
      obtain res t where y: "y = (res, t)" by (cases y)
      show ?case using 1(1) [of ctx _ y] 1(2) unfolding y
        by (fastforce simp: Let_def recv_defs split: option.splits prod.splits if_splits sum.splits)
    qed
    with np show ?thesis by simp
  qed
  have "sr_done sr' \<and> \<not> sr_hasPending sr'"
    using assms loop by (auto simp: Recv_def split: if_splits)
  then show ?thesis by (simp add: Recv_def)
qed

theorem Recv_error_is_final_witness:
  "\<exists>sr'. Recv False (sample_reader []) = Some (Inl ErrUnexpectedEOF, sr') \<and> Recv False sr' = Some (Inl EOF, sr')"
proof -
  have "\<exists>sr'. Recv False (sample_reader []) = Some (Inl ErrUnexpectedEOF, sr')"
    by (simp add: Recv_def Recv_loop.simps on_read_error_def sample_reader_def NewReader_def ReadFrame_def ReadFull_def
        read_loop.simps src_read_def headerSize_def)
  then obtain sr' where "Recv False (sample_reader []) = Some (Inl ErrUnexpectedEOF, sr')" ..
  with Recv_error_is_final [OF this, of False] show ?thesis by (auto simp: sample_reader_def)
qed

text \<open>A handler that closes the stream with a message the codec encodes as no bytes (an empty
  protobuf message) sends the same final frame as one that closes it without a message: the
  client sees the end of the stream and never that message.\<close>

theorem empty_final_message_is_lost:
  assumes "marshal_app c m = Inr []"
  shows "plan (SClose (Some m) SReturn) c False = plan (SClose None SReturn) c False \<and>
    recv_stream c 200 (plan (SClose (Some m) SReturn) c False) = [Inl EOF]"
  using assms by (simp add: close_payload_def)

theorem empty_final_message_is_lost_witness:
  "recv_stream sample_codec 200 (plan (SClose (Some []) SReturn) sample_codec False) = [Inl EOF]"
  using empty_final_message_is_lost [of sample_codec "[]"]
  by (metis bytes_of_string_def list.map_disc_iff sample_codec_simps(1))

section \<open>Both ends\<close>

text \<open>C1: Messages a handler sends before it closes the stream reach the caller of DoStream in
  order and complete, followed by io.EOF, whatever heartbeats come between and however the body
  is chunked, if the codec gives each message back, the client has the default frame limit and no
  message exceeds it.\<close>

theorem stream_end_to_end:
  assumes "HandleStream lib w r handler conf = Inr s0" and "fresh w"
    and "handler r = send_all ms (SClose None SReturn)"
    and "\<forall>m \<in> set ms. roundtrips (stream_codec lib r) m \<and> wire_size (stream_codec lib r) m \<le> 4000000"
    and "hs_reach s0 s" and "hs_main s = MDone"
    and "delivered (hs_w s) resp" and "tr req = Inr resp" and "cl_MaxFramePayload cl = 0"
    and "length (hs_log s) + 1 < n"
  shows "\<exists>sr. DoStream lib cl cancelled tr req = Some (Inr sr) \<and>
    recv_all n ctx sr = Some (map Inr ms @ [Inl EOF])"
  by (rule sent_messages_received [where handler = handler and r = r and tr = tr and req = req, OF assms])

definition sample_stream_response :: "bytes \<Rightarrow> response" where
  "sample_stream_response b =
     \<lparr>resp_StatusCode = 200, resp_Status = ''200 OK'',
      resp_header = hset (hset Map.empty HeaderDUHVersion DUHVersion) ''Content-Type'' ContentStreamJSON,
      resp_body = sample_source b\<rparr>"

lemma sample_stream_delivered:
  assumes "hs_reach (stream_start c (setServiceHeaders
      (rw_SetHeader ''Content-Type'' ContentStreamJSON (new_rw True))) interval prog) s"
    and "rw_body (hs_w s) = b"
  shows "delivered (hs_w s) (sample_stream_response b)"
proof -
  have "hget (rw_header (setServiceHeaders
      (rw_SetHeader ''Content-Type'' ContentStreamJSON (new_rw True)))) ''Retry-After'' = []"
    by (simp add: setServiceHeaders_def http_simps)
  moreover have "service_headers (rw_header (setServiceHeaders
      (rw_SetHeader ''Content-Type'' ContentStreamJSON (new_rw True))))" by simp
  ultimately show ?thesis using stream_head [OF assms(1)] assms(2)
    by (simp add: delivered_def sample_stream_response_def http_simps service_headers_def)
qed

lemma sample_stream_codec [simp]: "stream_codec sample_lib sample_stream_request = sample_codec"
  by (simp add: stream_codec_def)

theorem stream_end_to_end_witness:
  "\<exists>sr. DoStream sample_lib \<lparr>cl_MaxFramePayload = 0, cl_HeartbeatTimeout = 0\<rparr> (\<lambda>s. s)
      (\<lambda>_. Inr (sample_stream_response [0, 0, 0, 0, 1, 97, 1, 0, 0, 0, 0])) sample_stream_request =
        Some (Inr sr) \<and>
    recv_all 9 False sr = Some [Inr ''a'', Inl EOF]"
proof -
  have d: "delivered (hs_w sample_end) (sample_stream_response [0, 0, 0, 0, 1, 97, 1, 0, 0, 0, 0])"
    by (rule sample_stream_delivered [OF sample_reach [unfolded sample_start_def]]) simp
  have h: "sample_handler sample_stream_request = send_all [''a''] (SClose None SReturn)"
    by (simp add: sample_handler_def)
  have m: "\<forall>m \<in> set [''a'']. roundtrips (stream_codec sample_lib sample_stream_request) m \<and>
      wire_size (stream_codec sample_lib sample_stream_request) m \<le> 4000000"
    by (simp add: roundtrips_def wire_size_def)
  show ?thesis
    using stream_end_to_end [OF sample_HandleStream fresh_new_rw h m sample_reach sample_end_simps(1) d,
        where tr = "\<lambda>_. Inr (sample_stream_response [0, 0, 0, 0, 1, 97, 1, 0, 0, 0, 0])" and n = 9
          and cl = "\<lparr>cl_MaxFramePayload = 0, cl_HeartbeatTimeout = 0\<rparr>"]
    by simp
qed

text \<open>C7: When a handler fails after sending messages, the caller of a client with the default frame
  limit gets those messages and then a client error that carries the code, message and details of
  the reply built from the handler's error, with HTTP status 200, if the codec gives each message
  and that reply back and the encoding of each takes at most 4,000,000 bytes.\<close>

theorem stream_error_end_to_end:
  assumes "HandleStream lib w r handler conf = Inr s0" and "fresh w"
    and "handler r = send_all ms (SReturn (Some err))"
    and "\<forall>m \<in> set ms. roundtrips (stream_codec lib r) m \<and> wire_size (stream_codec lib r) m \<le> 4000000"
    and "marshal_reply (stream_codec lib r) (buildErrorReply err) = Inr b" and "length b \<le> 4000000"
    and "unmarshal_reply (stream_codec lib r) b = Inr (buildErrorReply err)"
    and "hs_reach s0 s" and "hs_main s = MDone"
    and "delivered (hs_w s) resp" and "tr req = Inr resp" and "cl_MaxFramePayload cl = 0"
    and "length (hs_log s) + 1 < n"
  shows "\<exists>sr. DoStream lib cl cancelled tr req = Some (Inr sr) \<and>
    recv_all n ctx sr = Some (map Inr ms @ [Inl (ClientErr (ClientError
      (r_details (buildErrorReply err)) (r_message (buildErrorReply err)) None False
      (r_code (buildErrorReply err)) 200))])"
proof -
  let ?c = "stream_codec lib r"
  have rt: "\<forall>m \<in> set ms. roundtrips ?c m" using assms(4) by blast
  note p = plan_send_all [OF rt, of "SReturn (Some err)"]
  have fits: "\<forall>(flag, payload) \<in> set (plan (handler r) ?c False).
      fits (if cl_MaxFramePayload cl = 0 then DefaultMaxFramePayload else cl_MaxFramePayload cl) payload"
    using assms(4-6,12) unfolding assms(3) p
    by (auto simp: roundtrips_size) (simp_all add: fits_def DefaultMaxFramePayload_def
        MegaByte_def Kilobyte_def)
  have "recv_stream ?c 200 (plan (handler r) ?c False) = map Inr ms @
      [Inl (ClientErr (ClientError (r_details (buildErrorReply err)) (r_message (buildErrorReply err))
        None False (r_code (buildErrorReply err)) 200))]"
    unfolding assms(3) p recv_send_all [OF rt] using assms(5,7) by (simp add: error_frame_def)
  with stream_received [OF assms(1,2,8-10), where tr = tr and req = req and cl = cl and n = n
      and cancelled = cancelled and ctx = ctx, OF assms(11) fits assms(13)] show ?thesis by simp
qed

definition sample_failure :: "request \<Rightarrow> string stream_prog" where
  "sample_failure r = send_all [''a''] (SReturn (Some (ErrText ''failed'')))"

theorem stream_error_end_to_end_witness:
  "\<exists>sr. DoStream sample_lib \<lparr>cl_MaxFramePayload = 0, cl_HeartbeatTimeout = 0\<rparr> (\<lambda>s. s)
      (\<lambda>_. Inr (sample_stream_response (rw_body (hs_w (run_main 20 (stream_start sample_codec
        (setServiceHeaders (rw_SetHeader ''Content-Type'' ContentStreamJSON (new_rw True))) (- 1)
        (sample_failure sample_stream_request))))))) sample_stream_request = Some (Inr sr) \<and>
    recv_all 9 False sr = Some [Inr ''a'', Inl (ClientErr (ClientError None ''failed'' None False ''500'' 200))]"
proof -
  let ?st = "stream_start sample_codec
    (setServiceHeaders (rw_SetHeader ''Content-Type'' ContentStreamJSON (new_rw True))) (- 1)
    (sample_failure sample_stream_request)"
  let ?s = "run_main 20 ?st" and ?b = "[53, 48, 48, 0, 102, 97, 105, 108, 101, 100] :: bytes"
  have start: "HandleStream sample_lib (new_rw True) sample_stream_request sample_failure (Some (- 1)) = Inr ?st"
    by (simp add: HandleStream_def sample_stream_request_def heartbeat_interval_def Let_def)
      (simp add: new_rw_def)
  have rep: "buildErrorReply (ErrText ''failed'') = \<lparr>r_code = ''500'', r_message = ''failed'', r_details = None\<rparr>"
    by (simp add: buildErrorReply_def CodeInternalError_def go_simps)
  have enc: "sample_marshal_reply \<lparr>r_code = ''500'', r_message = ''failed'', r_details = None\<rparr> = Inr ?b"
    by (simp add: sample_marshal_reply_def bytes_of_string_def)
  have fin: "hs_main ?s = MDone" and lg: "length (hs_log ?s) = 2"
    by (simp_all add: sample_failure_def stream_start_def eval_nat_numeral
      step_main_def Send_crit_def Error_crit_def begin_frame_def end_frame_def stopHeartbeat_def
      rw_Write_def new_rw_def Let_def rep enc bytes_of_string_def)
  have d: "delivered (hs_w ?s) (sample_stream_response (rw_body (hs_w ?s)))"
    by (rule sample_stream_delivered [OF run_main_reach refl])
  have h: "sample_failure sample_stream_request = send_all [''a''] (SReturn (Some (ErrText ''failed'')))"
    by (simp add: sample_failure_def)
  have m: "\<forall>m \<in> set [''a'']. roundtrips (stream_codec sample_lib sample_stream_request) m \<and>
      wire_size (stream_codec sample_lib sample_stream_request) m \<le> 4000000"
    by (simp add: roundtrips_def wire_size_def)
  show ?thesis
    using stream_error_end_to_end [OF start fresh_new_rw h m _ _ _ run_main_reach fin d,
        where tr = "\<lambda>_. Inr (sample_stream_response (rw_body (hs_w ?s)))" and n = 9 and b = ?b
          and cl = "\<lparr>cl_MaxFramePayload = 0, cl_HeartbeatTimeout = 0\<rparr>"]
      sample_reply_roundtrip [OF enc] enc
    by (simp add: rep lg)
qed

end
