(* ===== verification/Timeout_Properties.thy ===== *)
theory Timeout_Properties
  imports Stream_Timeout Sample
begin

text \<open>
  Properties of the heartbeat timeout of a receiving stream, in time: a stream whose frames
  keep coming is received as if there were no timer, a stream that falls silent is given up when
  the timer fires, and no call waits longer than the frames it skips allow.
\<close>

lemma on_time_disabled: "timeout \<le> 0 \<Longrightarrow> on_time timeout fin now A fs"
  by (induction fs arbitrary: now A) (auto simp: in_time_def Let_def)

definition sample_timed :: "int \<Rightarrow> (nat \<times> bytes) list \<Rightarrow> nat \<Rightarrow> (timed_body, string) streamReader" where
  "sample_timed timeout chunks fin =
     \<lparr>sr_r = NewReader \<lparr>tb_chunks = chunks, tb_end = fin, tb_err = EOF, tb_now = 0, tb_ctx = None,
        tb_timer = None, tb_cancelled = False\<rparr> 100,
      sr_codec = sample_codec, sr_StatusCode = 200, sr_hasRequest = True, sr_cancelled = False,
      sr_done = False, sr_hasPending = False, sr_heartbeatTimeout = timeout\<rparr>"

text \<open>C13: A stream of data, final, error and heartbeat frames within the frame limit, each of them
  complete less than the heartbeat timeout after the one before it (and so for the end of the
  body, if no final or error frame comes before it), is received exactly as its frames say,
  however the bytes are cut into chunks and however long the caller takes between two calls of
  Recv, in a request nobody cancels: the timer never ends it. With a timeout that is not positive
  this holds for frames at any distance.\<close>

theorem prompt_stream_is_received:
  assumes "on_schedule sr fs" and "fst ` set fs \<subseteq> {FlagData, FlagFinal, FlagError, FlagHeartbeat}"
    and "Suc (length fs) < length gaps"
  shows "recv_calls Recv_timed gaps sr = Some (recv_stream (sr_codec sr) (sr_StatusCode sr) fs)"
  using assms(1,3) by (rule recv_timed.calls_stream)

theorem prompt_stream_is_received_witness:
  "recv_calls Recv_timed [7, 500, 0, 0, 0]
     (sample_timed 100 [(50, [3, 0, 0, 0, 0]), (90, [0, 0, 0]), (140, [0, 1, 97]), (200, [1, 0, 0, 0, 0])] 10000) =
   Some [Inr (string_of_bytes [97]), Inl EOF]"
proof -
  have "on_schedule
     (sample_timed 100 [(50, [3, 0, 0, 0, 0]), (90, [0, 0, 0]), (140, [0, 1, 97]), (200, [1, 0, 0, 0, 0])] 10000)
     [(FlagHeartbeat, []), (FlagData, [97]), (FlagFinal, [])]"
    by (simp add: on_schedule_def sample_timed_def NewReader_def timed_total_def encode_frame_def
        frame_header_def PutUint32_def flag_defs fits_def body_idle_def in_time_def)
  from prompt_stream_is_received [OF this, of "[7, 500, 0, 0, 0]"] show ?thesis
    by (simp add: sample_timed_def flag_defs)
qed



text \<open>C35: On a body of finitely many bytes, delivered at any times and closed at any time, a call of
  Recv with a positive heartbeat timeout returns, whatever happens to the request's context, and
  it waits at most one timeout for each complete heartbeat frame it takes off the front of the
  body and one more: the time it takes does not depend on when the peer sends the rest or closes
  the stream.\<close>

theorem Recv_wait_bounded:
  assumes "0 < sr_heartbeatTimeout sr"
  shows "\<exists>res sr' ps c. Recv_timed gap sr = Some (res, sr') \<and>
    timed_total (fr_r (sr_r sr)) = encode_frames (heartbeats ps) @ c @ timed_total (fr_r (sr_r sr')) \<and>
    tb_now (fr_r (sr_r sr')) \<le> tb_now (fr_r (sr_r sr)) + gap + nat (sr_heartbeatTimeout sr) * Suc (length ps)"
proof (cases "sr_done sr \<or> sr_hasPending sr")
  case True
  then show ?thesis by (auto simp: Recv_timed_def Let_def timed_total_def intro!: exI [of _ "[]"])
next
  case False
  then show ?thesis
    using Recv_timed_loop_wait [of "wait_first gap sr"] assms by (simp add: Recv_timed_open timed_total_def)
qed

theorem Recv_wait_bounded_witness:
  "\<exists>res sr'. Recv_timed 0 (sample_timed 100 [(2000, [0, 1, 97])] 10000) = Some (res, sr') \<and>
    tb_now (fr_r (sr_r sr')) \<le> 100"
proof -
  let ?sr = "sample_timed 100 [(2000, [0, 1, 97])] 10000"
  have "0 < sr_heartbeatTimeout ?sr" by (simp add: sample_timed_def)
  from Recv_wait_bounded [OF this, of 0] obtain res sr' ps c where r: "Recv_timed 0 ?sr = Some (res, sr')"
    "timed_total (fr_r (sr_r ?sr)) = encode_frames (heartbeats ps) @ c @ timed_total (fr_r (sr_r sr'))"
    "tb_now (fr_r (sr_r sr')) \<le> tb_now (fr_r (sr_r ?sr)) + 0 + nat (sr_heartbeatTimeout ?sr) * Suc (length ps)" by blast
  have t: "length (timed_total (fr_r (sr_r ?sr))) = 3" "tb_now (fr_r (sr_r ?sr)) = 0" "sr_heartbeatTimeout ?sr = 100"
    by (simp_all add: sample_timed_def NewReader_def timed_total_def)
  have "length (encode_frames (heartbeats ps)) \<le> 3" using r(2) t(1) by (metis le_add1 length_append)
  then have "ps = []" by (cases ps) simp_all
  with r t show ?thesis by auto
qed

end
