(* ===== verification/Clock_Properties.thy ===== *)
theory Clock_Properties
  imports Stream_Clock Stream_Properties Timeout_Properties
begin

text \<open>
  The heartbeats of the server against the heartbeat timeout of the client: a timed run of
  \<open>HandleStream\<close>, a connection with a bounded delay, and the caller's receive loop with its
  timer.
\<close>

section \<open>A sample run\<close>

text \<open>
  The handler of \<open>Stream_Properties\<close> with an interval of two: it is silent for five, so that two
  heartbeats come first.
\<close>

definition sample_silence :: "clock_choice list" where
  "sample_silence =
     [Pass, Pass, GoHeartbeat TakeTick, GoHeartbeat Continue, GoHeartbeat Continue, GoHeartbeat Continue,
      Pass, Pass, GoHeartbeat TakeTick, GoHeartbeat Continue, GoHeartbeat Continue, Pass, GoHeartbeat Continue]"

definition sample_sending :: "clock_choice list" where
  "sample_sending =
     [GoMain, GoMain, GoMain, GoMain, GoMain, GoMain, GoMain, GoMain, GoHeartbeat TakeStop,
      GoMain, GoMain, GoMain, GoMain, GoMain, GoMain, GoMain]"

definition sample_clock_start :: "string hs" where
  "sample_clock_start = stream_start sample_codec
     (setServiceHeaders (rw_SetHeader ''Content-Type'' ContentStreamJSON (new_rw True))) 2
     (sample_handler sample_stream_request)"

definition sample_clock_end :: "string clocked" where
  "sample_clock_end = the (clock_run 2 1 (sample_silence @ sample_sending) (clock_start 2 sample_clock_start))"

lemma sample_clock_HandleStream:
  "HandleStream sample_lib (new_rw True) sample_stream_request sample_handler (Some 2) = Inr sample_clock_start"
  by (simp add: HandleStream_def sample_stream_request_def sample_clock_start_def heartbeat_interval_def Let_def)
    (simp add: new_rw_def)

lemmas sample_clock_defs =
  advance_def pass_def prompt_def busy_def step_main_def step_hb_def hb_exit_def hb_write_def Send_crit_def
  Close_crit_def begin_frame_def end_frame_def stopHeartbeat_def close_payload_def rw_Write_ok Let_def flag_defs

lemma sample_silent:
  assumes "rw_fault w = (\<lambda>_. None)"
  shows "\<exists>w'. clock_run 2 1 sample_silence (clock_start 2 (stream_start c w 2 prog)) =
      Some \<lparr>ck_hs = (stream_start c w 2 prog)\<lparr>hs_w := w', hs_log := [(3, []), (3, [])]\<rparr>,
        ck_now = 5, ck_tick = 6, ck_pending = False, ck_held = 0, ck_times = [2, 4]\<rparr> \<and>
    rw_fault w' = (\<lambda>_. None) \<and> rw_body w' = rw_body w @ frame_header 3 [] @ frame_header 3 []"
  using assms by (simp add: sample_silence_def clock_start_def stream_start_def sample_clock_defs)

lemma sample_sent:
  assumes "rw_fault w' = (\<lambda>_. None)" and "marshal_app c m = Inr b" and "b \<noteq> []"
  shows "\<exists>ck. clock_run 2 1 sample_sending
      \<lparr>ck_hs = (stream_start c w 2 (send_all [m] (SClose None SReturn)))\<lparr>hs_w := w', hs_log := fs\<rparr>,
        ck_now = 5, ck_tick = 6, ck_pending = False, ck_held = 0, ck_times = ts\<rparr> = Some ck \<and>
    hs_main (ck_hs ck) = MDone \<and> hs_log (ck_hs ck) = fs @ [(0, b), (1, [])] \<and> ck_times ck = ts @ [5, 5] \<and>
    rw_body (hs_w (ck_hs ck)) = rw_body w' @ frame_header 0 b @ b @ frame_header 1 []"
  using assms by (simp add: sample_sending_def stream_start_def sample_clock_defs)

lemma clock_run_append:
  "clock_run I W (ms @ ns) ck = (case clock_run I W ms ck of None \<Rightarrow> None | Some ck' \<Rightarrow> clock_run I W ns ck')"
  by (induction ms arbitrary: ck) (simp_all split: option.split)

lemma sample_clock_run:
  "\<exists>ck. clock_run 2 1 (sample_silence @ sample_sending) (clock_start 2 sample_clock_start) = Some ck \<and>
    hs_main (ck_hs ck) = MDone \<and>
    hs_log (ck_hs ck) = [(3, []), (3, []), (0, [97]), (1, [])] \<and> ck_times ck = [2, 4, 5, 5] \<and>
    rw_body (hs_w (ck_hs ck)) = [3, 0, 0, 0, 0, 3, 0, 0, 0, 0, 0, 0, 0, 0, 1, 97, 1, 0, 0, 0, 0]"
proof -
  let ?w = "setServiceHeaders (rw_SetHeader ''Content-Type'' ContentStreamJSON (new_rw True))"
  have w: "rw_fault ?w = (\<lambda>_. None)" "rw_body ?w = []" by (simp_all add: new_rw_def)
  have b: "marshal_app sample_codec ''a'' = Inr [97]" by (simp add: bytes_of_string_def)
  from sample_silent [OF w(1), of sample_codec "sample_handler sample_stream_request"] obtain w' where
    w': "clock_run 2 1 sample_silence (clock_start 2 sample_clock_start) =
      Some \<lparr>ck_hs = sample_clock_start\<lparr>hs_w := w', hs_log := [(3, []), (3, [])]\<rparr>,
        ck_now = 5, ck_tick = 6, ck_pending = False, ck_held = 0, ck_times = [2, 4]\<rparr>"
    "rw_fault w' = (\<lambda>_. None)" "rw_body w' = frame_header 3 [] @ frame_header 3 []"
    using w(2) unfolding sample_clock_start_def by auto
  have start: "stream_start sample_codec ?w 2 (send_all [''a''] (SClose None SReturn)) = sample_clock_start"
    by (simp only: sample_clock_start_def sample_handler_def)
  from sample_sent [OF w'(2) b, where w = ?w and fs = "[(3, []), (3, [])]" and ts = "[2, 4]", unfolded start] w'(1,3)
  show ?thesis by (auto simp: clock_run_append frame_header_def PutUint32_def)
qed

lemma sample_clock_end_simps [simp]:
  "hs_main (ck_hs sample_clock_end) = MDone" "ck_times sample_clock_end = [2, 4, 5, 5]"
  "hs_log (ck_hs sample_clock_end) = [(3, []), (3, []), (0, [97]), (1, [])]"
  "rw_body (hs_w (ck_hs sample_clock_end)) = [3, 0, 0, 0, 0, 3, 0, 0, 0, 0, 0, 0, 0, 0, 1, 97, 1, 0, 0, 0, 0]"
  using sample_clock_run by (auto simp: sample_clock_end_def)

lemma sample_clock_reach: "clock_reach (nat (heartbeat_interval (Some 2))) 1 sample_clock_start sample_clock_end"
  unfolding clock_reach_def sample_clock_end_def
  using sample_clock_run by (auto simp: heartbeat_interval_def dest: clock_run_steps)

section \<open>How far apart frames are\<close>

text \<open>C12: In every timed run of HandleStream on a connection that does not fail, however long the
  handler is silent, a frame is complete within an interval and the time that writing and
  flushing take, counted from the start or from the frame before it: this holds between all the
  frames so far, and, until the last frame is written or the request ends, between the latest one
  and now.\<close>

theorem frames_keep_coming:
  assumes "HandleStream lib w r handler conf = Inr s0" and "fresh w" and "0 < heartbeat_interval conf"
    and "clock_reach (nat (heartbeat_interval conf)) W s0 ck"
    and "G = max (nat (heartbeat_interval conf)) W + W"
  shows "length (ck_times ck) = length (hs_log (ck_hs ck)) \<and> gaps_ok G 0 (ck_times ck) \<and>
    (ended (hs_main (ck_hs ck)) (hs_closed (ck_hs ck)) \<or> ck_now ck \<le> last (0 # ck_times ck) + G)"
proof -
  from HandleStream_start [OF assms(1)] obtain mt where
    s0: "s0 = stream_start (stream_codec lib r) (setServiceHeaders (rw_SetHeader ''Content-Type'' mt w))
      (heartbeat_interval conf) (handler r)" by blast
  show ?thesis
    using clock_reach_gaps [OF assms(4) [unfolded s0] refl assms(3)] assms(2,5) by (auto simp: fresh_def)
qed

theorem frames_keep_coming_witness:
  "gaps_ok 3 0 [2, 4, 5, 5] \<and> ck_times sample_clock_end = [2, 4, 5, 5]"
  using frames_keep_coming [OF sample_clock_HandleStream fresh_new_rw _ sample_clock_reach]
  by (simp add: heartbeat_interval_def)



end
