(* ===== verification/Demo.thy ===== *)
theory Demo
  imports Stream_Link
begin

text \<open>
  The demo service (demo/service.go, demo/handler.go, demo/client.go), the program the library
  is made for: an in-memory content store, a greeting, a pixel renderer and an event stream,
  the handler that routes to them, and the client. Every message type has its own codecs, all
  parameters; \<open>title\<close> is \<open>cases.Title(language.English).String\<close> of golang.org/x/text.
\<close>

section \<open>Messages\<close>

record SayHelloRequest = hello_Name :: string
record SayHelloResponse = hello_Message :: string
record RenderPixelRequest =
  px_Complexity :: float64
  px_Height :: int64
  px_Width :: int64
  px_I :: int64
  px_J :: int64
record RenderPixelResponse = px_Gray :: int64
record ListEventsRequest = le_Count :: "32 word"
record Event =
  ev_Sequence :: int64
  ev_Message :: string
record ContentDownloadRequest = cd_Path :: string

record demo_lib =
  dl_hello_req :: "SayHelloRequest lib"
  dl_hello_resp :: "SayHelloResponse lib"
  dl_pixel_req :: "RenderPixelRequest lib"
  dl_pixel_resp :: "RenderPixelResponse lib"
  dl_events_req :: "ListEventsRequest lib"
  dl_event :: "Event lib"
  dl_download_req :: "ContentDownloadRequest lib"
  dl_reply :: "reply lib"
  dl_title :: "string \<Rightarrow> string"
  dl_oor :: "float64 \<Rightarrow> int64"

section \<open>The service\<close>

record contentEntry =
  en_contentType :: string
  en_body :: bytes

record Service =
  svc_content :: "string \<rightharpoonup> contentEntry"

definition NewService :: Service where
  "NewService = \<lparr>svc_content = Map.empty\<rparr>"

definition quote :: "string \<Rightarrow> string" where
  "quote s = [CHR 0x27] @ s @ [CHR 0x27]"

definition SayHello :: "(string \<Rightarrow> string) \<Rightarrow> SayHelloRequest \<Rightarrow> error + SayHelloResponse" where
  "SayHello title req =
     (if hello_Name req = [] then
        Inl (NewServiceError CodeBadRequest
          (quote ''name'' @ '' is required and cannot be empty'') None None)
      else if title (hello_Name req) \<noteq> hello_Name req then
        Inl (NewServiceError CodeBadRequest (quote ''name'' @ '' must be capitalized'') None None)
      else Inr \<lparr>hello_Message = ''Hello, '' @ hello_Name req\<rparr>)"

definition norm_float :: "int64 \<Rightarrow> int64 \<Rightarrow> float64 \<Rightarrow> float64 \<Rightarrow> float64" where
  "norm_float x tot mn mx =
     fsub (fdiv (fmul (fsub mx mn) (float64_of_int (sint x))) (float64_of_int (sint tot))) mx"

text \<open>
  The loop of \<open>RenderPixel\<close>, each operation rounded on its own (the language also permits
  an implementation to fuse a product with a following sum).
\<close>

fun pixel_loop :: "nat \<Rightarrow> float64 \<Rightarrow> float64 \<Rightarrow> float64 \<Rightarrow> float64 \<Rightarrow> float64 \<Rightarrow> float64" where
  "pixel_loop 0 complexity xi yi x y = x"
| "pixel_loop (Suc i) complexity xi yi x y =
     (if fless (fadd (fmul x x) (fmul y y)) complexity
      then pixel_loop i complexity xi yi (fadd (fsub (fmul x x) (fmul y y)) xi)
             (fadd (fmul (fmul (Fin 2) x) y) yi)
      else x)"

definition RenderPixel :: "(float64 \<Rightarrow> int64) \<Rightarrow> RenderPixelRequest \<Rightarrow> RenderPixelResponse" where
  "RenderPixel oor req =
     (let xi = norm_float (px_I req) (px_Width req) (Fin (- 1)) (Fin 2);
          yi = norm_float (px_J req) (px_Height req) (Fin (- 1)) (Fin 1)
      in \<lparr>px_Gray = int64_of_float oor (pixel_loop 1000 (px_Complexity req) xi yi (Fin 0) (Fin 0))\<rparr>)"

text \<open>\<open>make\<close> with a negative capacity panics, which is \<open>None\<close>.\<close>

definition ListEvents :: "ListEventsRequest \<Rightarrow> Event list option" where
  "ListEvents req =
     (if sint (le_Count req) < 0 then None
      else Some (map (\<lambda>i. \<lparr>ev_Sequence = word_of_int i, ev_Message = ''event-'' @ Itoa i\<rparr>)
             [0..sint (le_Count req) - 1]))"

definition StoreContent :: "Service \<Rightarrow> string \<Rightarrow> string \<Rightarrow> bytes \<Rightarrow> Service" where
  "StoreContent s path contentType body =
     s\<lparr>svc_content := (svc_content s)(path \<mapsto> \<lparr>en_contentType = contentType, en_body = body\<rparr>)\<rparr>"

definition GetContent :: "Service \<Rightarrow> string \<Rightarrow> error + string \<times> bytes" where
  "GetContent s path =
     (case svc_content s path of
        None \<Rightarrow> Inl (NewServiceError CodeNotFound ''content not found'' None None)
      | Some entry \<Rightarrow> Inr (en_contentType entry, en_body entry))"

section \<open>The handler\<close>

definition handleSayHello :: "demo_lib \<Rightarrow> rw \<Rightarrow> request \<Rightarrow> (rw \<times> request) option" where
  "handleSayHello dl w r =
     (case ReadRequest (dl_hello_req dl) r (word_of_int (5 * MegaByte)) of
        None \<Rightarrow> None
      | Some (Inl err, r') \<Rightarrow> ReplyError (dl_hello_resp dl) w r' err
      | Some (Inr req, r') \<Rightarrow>
          (case SayHello (dl_title dl) req of
             Inl err \<Rightarrow> ReplyError (dl_hello_resp dl) w r' err
           | Inr resp \<Rightarrow> Reply (dl_hello_resp dl) w r' CodeOK (App resp)))"

definition handleRenderPixel :: "demo_lib \<Rightarrow> rw \<Rightarrow> request \<Rightarrow> (rw \<times> request) option" where
  "handleRenderPixel dl w r =
     (case ReadRequest (dl_pixel_req dl) r (word_of_int (5 * MegaByte)) of
        None \<Rightarrow> None
      | Some (Inl err, r') \<Rightarrow> ReplyError (dl_pixel_resp dl) w r' err
      | Some (Inr req, r') \<Rightarrow>
          Reply (dl_pixel_resp dl) w r' CodeOK (App (RenderPixel (dl_oor dl) req)))"

text \<open>
  The stream handler. Reading the request always returns (lemma \<open>ReadRequest_returns\<close>), so
  the first case does not occur.
\<close>

definition listEvents :: "demo_lib \<Rightarrow> request \<Rightarrow> Event stream_prog" where
  "listEvents dl r =
     (case ReadRequest (dl_events_req dl) r (word_of_int (5 * MegaByte)) of
        None \<Rightarrow> SPanic
      | Some (Inl err, r') \<Rightarrow> SReturn (Some err)
      | Some (Inr req, r') \<Rightarrow>
          (case ListEvents req of
             None \<Rightarrow> SPanic
           | Some events \<Rightarrow> send_all events (SClose None SReturn)))"

definition handleDownloadBytes :: "rw \<Rightarrow> request \<Rightarrow> (rw \<times> request) option" where
  "handleDownloadBytes w r =
     Some (WriteContent w ContentOctetStream (bytes_of_string ''hello, bytes''), r)"

definition handleContentUpload ::
  "demo_lib \<Rightarrow> Service \<Rightarrow> rw \<Rightarrow> request \<Rightarrow> (rw \<times> request) option \<times> Service" where
  "handleContentUpload dl s w r =
     (case ReadContent (dl_reply dl) r (word_of_int (10 * MegaByte)) of
        None \<Rightarrow> (None, s)
      | Some (Inl err, r') \<Rightarrow> (ReplyContentError (dl_reply dl) w r' err, s)
      | Some (Inr (body, contentType), r') \<Rightarrow>
          (let path = hget (req_header r') ''X-RPC-Path'' in
           if path = [] then
             (ReplyContentError (dl_reply dl) w r'
                (NewServiceError CodeBadRequest ''X-RPC-Path header is required'' None None), s)
           else
             (Reply (dl_reply dl) w r' CodeOK
                (Rep \<lparr>r_code = Itoa CodeOK, r_message = ''content stored'',
                  r_details = Some [''path'' \<mapsto> path, ''size'' \<mapsto> Itoa (int (length body))]\<rparr>),
              StoreContent s path contentType body)))"

definition handleContentDownload ::
  "demo_lib \<Rightarrow> Service \<Rightarrow> rw \<Rightarrow> request \<Rightarrow> (rw \<times> request) option" where
  "handleContentDownload dl s w r =
     (case ReadRequest (dl_download_req dl) r (word_of_int (5 * MegaByte)) of
        None \<Rightarrow> None
      | Some (Inl err, r') \<Rightarrow> ReplyError (dl_reply dl) w r' err
      | Some (Inr req, r') \<Rightarrow>
          (case GetContent s (cd_Path req) of
             Inl err \<Rightarrow> ReplyContentError (dl_reply dl) w r' err
           | Inr (contentType, body) \<Rightarrow> Some (WriteContent w contentType body, r')))"

text \<open>A plain response, \<open>Inl\<close>, or a stream about to run, \<open>Inr\<close>.\<close>

definition ServeHTTP ::
  "demo_lib \<Rightarrow> Service \<Rightarrow> rw \<Rightarrow> request \<Rightarrow> ((rw \<times> request) option + Event hs) \<times> Service" where
  "ServeHTTP dl s w r =
     (if req_method r \<noteq> ''POST'' then
        (Inl (ReplyWithCode (dl_reply dl) w r CodeBadRequest None
           (''http method '' @ quote (req_method r) @ '' not allowed; only POST'')), s)
      else if req_path r = ''/v1/say.hello'' then (Inl (handleSayHello dl w r), s)
      else if req_path r = ''/v1/render.pixel'' then (Inl (handleRenderPixel dl w r), s)
      else if req_path r = ''/v1/events.list'' then
        (HandleStream (dl_event dl) w r (listEvents dl) None, s)
      else if req_path r = ''/v1/bytes.download'' then (Inl (handleDownloadBytes w r), s)
      else if req_path r = ''/v1/content.upload'' then
        (case handleContentUpload dl s w r of (res, s') \<Rightarrow> (Inl res, s'))
      else if req_path r = ''/v1/content.download'' then (Inl (handleContentDownload dl s w r), s)
      else (Inl (ReplyWithCode (dl_reply dl) w r CodeNotImplemented None
             (''no such method; '' @ req_path r)), s))"

section \<open>The client\<close>

text \<open>
  \<open>NewRequest method url body\<close> is \<open>http.NewRequestWithContext\<close>; it fails on an invalid
  URL or method. The body is a reader over the payload.
\<close>

type_synonym new_request = "string \<Rightarrow> string \<Rightarrow> bytes \<Rightarrow> error + request"

record demo_client =
  dc_endpoint :: string
  dc_client :: Client

text \<open>
  The HTTP client of the configuration, or the default one; the rest of the client keeps its
  zero values, so that the library's defaults apply.
\<close>

record ClientConfig =
  cc_Endpoint :: string
  cc_Client :: "transport option"

definition NewClient :: "transport \<Rightarrow> ClientConfig \<Rightarrow> demo_client \<times> transport" where
  "NewClient default_transport conf =
     (\<lparr>dc_endpoint = cc_Endpoint conf,
       dc_client = \<lparr>cl_MaxFramePayload = 0, cl_HeartbeatTimeout = 0\<rparr>\<rparr>,
      case cc_Client conf of None \<Rightarrow> default_transport | Some tr \<Rightarrow> tr)"

definition endpoint_url :: "demo_client \<Rightarrow> string \<Rightarrow> string" where
  "endpoint_url c path = dc_endpoint c @ ''/'' @ path"

definition req_SetHeader :: "string \<Rightarrow> string \<Rightarrow> request \<Rightarrow> request" where
  "req_SetHeader k v r = r\<lparr>req_header := hset (req_header r) k v\<rparr>"

definition marshal_failed :: "error \<Rightarrow> error" where
  "marshal_failed err = NewClientError ''while marshaling request payload: %w'' (Some err) None"

definition client_SayHello ::
  "demo_lib \<Rightarrow> new_request \<Rightarrow> transport \<Rightarrow> demo_client \<Rightarrow> SayHelloRequest \<Rightarrow>
    ((error + SayHelloResponse) \<times> source option) option" where
  "client_SayHello dl newreq tr c req =
     (case marshal_app (lib_json (dl_hello_req dl)) req of
        Inl err \<Rightarrow> Some (Inl (marshal_failed err), None)
      | Inr payload \<Rightarrow>
          (case newreq ''POST'' (endpoint_url c ''v1/say.hello'') payload of
             Inl err \<Rightarrow> Some (Inl (NewClientError '''' (Some err) None), None)
           | Inr r \<Rightarrow> Do (dl_hello_resp dl) tr (req_SetHeader ''Content-Type'' ContentTypeJSON r)))"

definition client_RenderPixel ::
  "demo_lib \<Rightarrow> new_request \<Rightarrow> transport \<Rightarrow> demo_client \<Rightarrow> RenderPixelRequest \<Rightarrow>
    ((error + RenderPixelResponse) \<times> source option) option" where
  "client_RenderPixel dl newreq tr c req =
     (case marshal_app (lib_proto (dl_pixel_req dl)) req of
        Inl err \<Rightarrow> Some (Inl (marshal_failed err), None)
      | Inr payload \<Rightarrow>
          (case newreq ''POST'' (endpoint_url c ''v1/render.pixel'') payload of
             Inl err \<Rightarrow> Some (Inl (NewClientError '''' (Some err) None), None)
           | Inr r \<Rightarrow> Do (dl_pixel_resp dl) tr (req_SetHeader ''Content-Type'' ContentTypeProtoBuf r)))"

definition client_ListEvents ::
  "demo_lib \<Rightarrow> (source \<Rightarrow> source) \<Rightarrow> new_request \<Rightarrow> transport \<Rightarrow> demo_client \<Rightarrow> ListEventsRequest \<Rightarrow>
    (error \<times> source option + (source, Event) streamReader) option" where
  "client_ListEvents dl cancelled newreq tr c req =
     (case marshal_app (lib_json (dl_events_req dl)) req of
        Inl err \<Rightarrow> Some (Inl (marshal_failed err, None))
      | Inr payload \<Rightarrow>
          (case newreq ''POST'' (endpoint_url c ''v1/events.list'') payload of
             Inl err \<Rightarrow> Some (Inl (NewClientError '''' (Some err) None, None))
           | Inr r \<Rightarrow>
               DoStream (dl_event dl) (dc_client c) cancelled tr
                 (req_SetHeader ''Accept'' ContentStreamJSON
                   (req_SetHeader ''Content-Type'' ContentTypeJSON r))))"

definition client_DownloadBytes ::
  "demo_lib \<Rightarrow> new_request \<Rightarrow> transport \<Rightarrow> demo_client \<Rightarrow>
    (error \<times> source option + source) option" where
  "client_DownloadBytes dl newreq tr c =
     (case newreq ''POST'' (endpoint_url c ''v1/bytes.download'') [] of
        Inl err \<Rightarrow> Some (Inl (NewClientError '''' (Some err) None, None))
      | Inr r \<Rightarrow> DoBytes (dl_reply dl) tr (req_SetHeader ''Accept'' ContentOctetStream r))"

text \<open>The reply to an upload is decoded as a \<open>v1.Reply\<close> message.\<close>

definition client_UploadContent ::
  "demo_lib \<Rightarrow> new_request \<Rightarrow> transport \<Rightarrow> demo_client \<Rightarrow> string \<Rightarrow> string \<Rightarrow> bytes \<Rightarrow>
    ((error + reply) \<times> source option) option" where
  "client_UploadContent dl newreq tr c path contentType body =
     (case newreq ''POST'' (endpoint_url c ''v1/content.upload'') body of
        Inl err \<Rightarrow> Some (Inl (NewClientError '''' (Some err) None), None)
      | Inr r \<Rightarrow>
          Do (dl_reply dl) tr
            (req_SetHeader ''X-RPC-Path'' path (req_SetHeader ''Content-Type'' contentType r)))"

definition client_DownloadContent ::
  "demo_lib \<Rightarrow> new_request \<Rightarrow> transport \<Rightarrow> demo_client \<Rightarrow> string \<Rightarrow> bytes \<Rightarrow>
    ((error + header) \<times> bytes \<times> source option) option" where
  "client_DownloadContent dl newreq tr c path buf =
     (case marshal_app (lib_json (dl_download_req dl)) \<lparr>cd_Path = path\<rparr> of
        Inl err \<Rightarrow> Some (Inl (marshal_failed err), buf, None)
      | Inr payload \<Rightarrow>
          (case newreq ''POST'' (endpoint_url c ''v1/content.download'') payload of
             Inl err \<Rightarrow> Some (Inl (NewClientError '''' (Some err) None), buf, None)
           | Inr r \<Rightarrow> DoContent (dl_reply dl) tr (req_SetHeader ''Content-Type'' ContentTypeJSON r) buf))"

section \<open>Lemmas\<close>

lemma limit_5MB: "sint (5 * word_of_int MegaByte :: int64) = 5000000"
  using sint_of_int64 [of "5 * MegaByte"] by (simp add: MegaByte_def Kilobyte_def)

lemma limit_10MB: "sint (10 * word_of_int MegaByte :: int64) = 10000000"
  using sint_of_int64 [of "10 * MegaByte"] by (simp add: MegaByte_def Kilobyte_def)

text \<open>A request whose body is complete, within the handlers' limit, and decodes to \<open>m\<close>.\<close>

definition carries :: "'m lib \<Rightarrow> request \<Rightarrow> 'm \<Rightarrow> bool" where
  "carries lib r m \<longleftrightarrow> src_err (req_body r) = EOF \<and> length (src_content (req_body r)) \<le> 5000000 \<and>
     (case request_codec lib r of
        None \<Rightarrow> False | Some c \<Rightarrow> unmarshal_app c (src_content (req_body r)) = Inr m)"

lemma ReadRequest_carries:
  assumes "carries lib r m"
  shows "\<exists>s. ReadRequest lib r (word_of_int (5 * MegaByte)) = Some (Inr m, r\<lparr>req_body := s\<rparr>)"
proof -
  from assms obtain c where c: "request_codec lib r = Some c"
    "unmarshal_app c (src_content (req_body r)) = Inr m"
    by (auto simp: carries_def split: option.splits)
  have "\<exists>s. ReadRequest lib r (word_of_int (5 * MegaByte)) =
    Some (case unmarshal_app c (src_content (req_body r)) of
            Inl e \<Rightarrow> Inl (NewServiceError CodeClientContentError '''' (Some e) None)
          | Inr m \<Rightarrow> Inr m, r\<lparr>req_body := s\<rparr>)"
    by (rule ReadRequest_within) (use assms c in \<open>auto simp: limit_5MB carries_def\<close>)
  with c(2) show ?thesis by simp
qed

lemma ReadContent_all:
  assumes "src_err (req_body r) = EOF" and "length (src_content (req_body r)) \<le> 10000000"
  shows "\<exists>s. ReadContent lib r (word_of_int (10 * MegaByte)) =
    Some (Inr (src_content (req_body r), hget (req_header r) ''Content-Type''), r\<lparr>req_body := s\<rparr>)"
proof -
  let ?l = "word_of_int (10 * MegaByte) :: int64"
  have v: "limit_verdict (req_body r) ?l = None"
    and t: "take (nat (sint ?l) + 1) (src_content (req_body r)) = src_content (req_body r)"
    using assms by (simp_all add: limit_verdict_def Let_def limit_10MB)
  have "\<exists>s. read_body (lib_room lib) (req_body r) ?l =
      Some ((take (nat (sint ?l) + 1) (src_content (req_body r)), limit_verdict (req_body r) ?l), s)
    \<and> src_closed s"
    by (rule read_body_limited) (simp_all add: limit_10MB)
  then obtain s where "read_body (lib_room lib) (req_body r) ?l = Some ((src_content (req_body r), None), s)"
    unfolding v t by blast
  then show ?thesis by (auto simp: ReadContent_def)
qed

lemma ListEvents_nonneg:
  "0 \<le> sint (le_Count req) \<Longrightarrow> \<exists>events. ListEvents req = Some events \<and>
    map ev_Sequence events = map word_of_int [0..sint (le_Count req) - 1]"
  by (auto simp: ListEvents_def)

end
