(* ===== verification/Test_Service.thy ===== *)
theory Test_Service
  imports Demo
begin

text \<open>
  The service the repository's functional tests talk to (internal/test): a method that fails in a
  way the request chooses, and a stream with a chosen ending, with their handler and client. The
  codecs of the messages are parameters; \<open>tl_none\<close> is the library for calls without an application
  message. \<open>rnd i\<close> is the i-th number \<open>rand.Intn\<close> draws.
\<close>

section \<open>Messages and cases\<close>

record ErrorsRequest = er_Case :: string
record StreamRequest =
  sq_Count :: "32 word"
  sq_ErrorAt :: string
  sq_CloseWithPayload :: bool
record StreamItem =
  it_Sequence :: int64
  it_Data :: string

record test_lib =
  tl_errors_req :: "ErrorsRequest lib"
  tl_stream_req :: "StreamRequest lib"
  tl_item :: "StreamItem lib"
  tl_none :: "unit lib"

definition CaseInvalidMethod :: string where "CaseInvalidMethod = ''case: Invalid method''"
definition CaseClientIOError :: string where "CaseClientIOError = ''case: Client IO error''"
definition CaseNotImplemented :: string where "CaseNotImplemented = ''case: Not implemented''"
definition CaseInfrastructureError :: string where
  "CaseInfrastructureError = ''case: infrastructure error''"
definition CaseServiceReturnedError :: string where
  "CaseServiceReturnedError = ''case: Service returned an error''"
definition CaseContentTypeError :: string where "CaseContentTypeError = ''case: Content type error''"

lemmas case_defs = CaseInvalidMethod_def CaseClientIOError_def CaseNotImplemented_def
  CaseInfrastructureError_def CaseServiceReturnedError_def CaseContentTypeError_def

section \<open>The service\<close>

text \<open>The result is Go's \<open>error\<close>, \<open>None\<close> for nil.\<close>

definition TestErrors :: "ErrorsRequest \<Rightarrow> error option" where
  "TestErrors req =
     (if er_Case req = CaseServiceReturnedError
      then Some (NewServiceError CodeInternalError ''while reading the database: EOF'' None None)
      else None)"

text \<open>\<open>make\<close> with a negative capacity panics, which is \<open>None\<close>.\<close>

definition TestStream :: "StreamRequest \<Rightarrow> (StreamItem list \<times> error option) option" where
  "TestStream req =
     (if sint (sq_Count req) < 0 then None
      else
        Some (map (\<lambda>i. \<lparr>it_Sequence = word_of_int i, it_Data = ''item-'' @ Itoa i\<rparr>)
                [0..sint (sq_Count req) - 1],
              if sq_ErrorAt req \<noteq> []
              then Some (NewServiceError CodeInternalError (sq_ErrorAt req) None None) else None))"

section \<open>The chunk writer\<close>

text \<open>
  \<open>bufio.Writer\<close> with its default size on a response writer. A \<open>Write\<close> of the response writer
  without an error has written everything, so the short write package bufio checks for does not
  occur. The first error stays.
\<close>

record bufio =
  bf_w :: rw
  bf_buf :: bytes
  bf_err :: "error option"

definition bufio_Flush :: "bufio \<Rightarrow> bufio" where
  "bufio_Flush b =
     (if bf_err b \<noteq> None \<or> bf_buf b = [] then b
      else (case rw_Write (bf_buf b) (bf_w b) of
              ((n, Some e), w') \<Rightarrow> b\<lparr>bf_w := w', bf_buf := drop n (bf_buf b), bf_err := Some e\<rparr>
            | ((_, None), w') \<Rightarrow> b\<lparr>bf_w := w', bf_buf := []\<rparr>))"

definition bufio_size :: nat where "bufio_size = 4096"

function bufio_Write :: "bytes \<Rightarrow> bufio \<Rightarrow> bufio" where
  "bufio_Write p b =
     (if bf_err b \<noteq> None then b
      else if length (bf_buf b) + length p \<le> bufio_size then b\<lparr>bf_buf := bf_buf b @ p\<rparr>
      else if bf_buf b = [] then
        (case rw_Write p (bf_w b) of ((_, err), w') \<Rightarrow> b\<lparr>bf_w := w', bf_err := err\<rparr>)
      else
        (let k = bufio_size - length (bf_buf b) in
         bufio_Write (drop k p) (bufio_Flush (b\<lparr>bf_buf := bf_buf b @ take k p\<rparr>))))"
  by pat_completeness auto
termination
proof (relation "measure (\<lambda>(p, b). if bf_err b \<noteq> None then 0
    else Suc (2 * length p + (if bf_buf b = [] then 0 else 1)))", goal_cases)
  case (2 p b k)
  then show ?case
    by (cases "rw_Write (bf_buf b @ take k p) (bf_w b)")
      (auto simp: bufio_Flush_def split: option.splits)
qed simp

declare bufio_Write.simps [simp del]

definition charset :: string where
  "charset = ''abcdefghijklmnopqrstuvwxyzABCDEFGHIJKLMNOPQRSTUVWXYZ0123456789''"

text \<open>The chunk with its first \<open>k\<close> bytes drawn, from the \<open>pos\<close>-th number on.\<close>

definition random_chunk :: "(nat \<Rightarrow> nat) \<Rightarrow> nat \<Rightarrow> nat \<Rightarrow> bytes" where
  "random_chunk rnd pos k =
     bytes_of_string (map (\<lambda>i. charset ! (rnd (pos + i) mod length charset)) [0..<k]) @
     replicate (4096 - k) 0"

function chunk_loop :: "(nat \<Rightarrow> nat) \<Rightarrow> nat \<Rightarrow> nat \<Rightarrow> bufio \<Rightarrow> bufio" where
  "chunk_loop rnd pos len b =
     (if len = 0 then bufio_Flush b
      else
        (let k = min 4096 len; b' = bufio_Write (random_chunk rnd pos k) b in
         if bf_err b' \<noteq> None then b' else chunk_loop rnd (pos + k) (len - k) b'))"
  by pat_completeness auto
termination by (relation "measure (\<lambda>(rnd, pos, len, b). len)") auto

declare chunk_loop.simps [simp del]

definition chunkWriter :: "(nat \<Rightarrow> nat) \<Rightarrow> rw \<Rightarrow> nat \<Rightarrow> error option \<times> rw" where
  "chunkWriter rnd w len =
     (let b = chunk_loop rnd 0 len \<lparr>bf_w = w, bf_buf = [], bf_err = None\<rparr> in (bf_err b, bf_w b))"

section \<open>The handler\<close>

text \<open>
  A call of the handler returns, or starts a stream, or panics; net/http then cuts the connection
  off, after what was written.
\<close>

datatype outcome =
    Answered "(rw \<times> request) option"
  | Streaming "StreamItem hs"
  | Panicked rw

definition finish_stream :: "StreamRequest \<Rightarrow> error option \<Rightarrow> StreamItem stream_prog" where
  "finish_stream req err =
     (case err of
        Some e \<Rightarrow> SReturn (Some e)
      | None \<Rightarrow>
          (if sq_CloseWithPayload req
           then SClose (Some \<lparr>it_Sequence = scast (sq_Count req), it_Data = []\<rparr>) SReturn
           else SClose None SReturn))"

definition handleTestStream :: "test_lib \<Rightarrow> request \<Rightarrow> StreamItem stream_prog" where
  "handleTestStream lib r =
     (case ReadRequest (tl_stream_req lib) r (word_of_int (5 * MegaByte)) of
        None \<Rightarrow> SPanic
      | Some (Inl err, r') \<Rightarrow> SReturn (Some err)
      | Some (Inr req, r') \<Rightarrow>
          (case TestStream req of
             None \<Rightarrow> SPanic
           | Some (items, err) \<Rightarrow> send_all items (finish_stream req err)))"

text \<open>\<open>ReplyError\<close> calls the method \<open>Error\<close> of a nil error.\<close>

definition handleTestErrors :: "test_lib \<Rightarrow> (nat \<Rightarrow> nat) \<Rightarrow> rw \<Rightarrow> request \<Rightarrow> outcome" where
  "handleTestErrors lib rnd w r =
     (case ReadRequest (tl_errors_req lib) r 0 of
        None \<Rightarrow> Answered None
      | Some (Inl err, r') \<Rightarrow> Answered (ReplyError (tl_none lib) w r' err)
      | Some (Inr req, r') \<Rightarrow>
          (if er_Case req = CaseInfrastructureError then
             Answered (Some (snd (rw_Write (bytes_of_string ''Not Found'') (rw_WriteHeader 404 w)), r'))
           else if er_Case req = CaseNotImplemented then
             Answered (ReplyWithCode (tl_none lib) w r' CodeNotImplemented None
               (''no such method; '' @ req_path r'))
           else if er_Case req = CaseClientIOError then Panicked (snd (chunkWriter rnd w 100000))
           else
             (case TestErrors req of
                Some err \<Rightarrow> Answered (ReplyError (tl_none lib) w r' err)
              | None \<Rightarrow> Panicked w)))"

definition test_ServeHTTP :: "test_lib \<Rightarrow> (nat \<Rightarrow> nat) \<Rightarrow> rw \<Rightarrow> request \<Rightarrow> outcome" where
  "test_ServeHTTP lib rnd w r =
     (if req_path r = ''/v1/test.errors'' then handleTestErrors lib rnd w r
      else if req_path r = ''/v1/test.stream'' then
        (case HandleStream (tl_item lib) w r (handleTestStream lib) None of
           Inl reply \<Rightarrow> Answered reply | Inr s \<Rightarrow> Streaming s)
      else Answered (ReplyWithCode (tl_none lib) w r CodeNotImplemented None
             (''no such method; '' @ req_path r)))"

section \<open>The client\<close>

record test_Client =
  te_endpoint :: string
  te_Client :: Client

record test_ClientConfig =
  tf_Endpoint :: string
  tf_Client :: "transport option"

definition test_NewClient :: "transport \<Rightarrow> test_ClientConfig \<Rightarrow> test_Client \<times> transport" where
  "test_NewClient default_transport conf =
     (\<lparr>te_endpoint = tf_Endpoint conf,
       te_Client = \<lparr>cl_MaxFramePayload = 0, cl_HeartbeatTimeout = 0\<rparr>\<rparr>,
      case tf_Client conf of None \<Rightarrow> default_transport | Some tr \<Rightarrow> tr)"

definition client_TestStream ::
  "test_lib \<Rightarrow> (source \<Rightarrow> source) \<Rightarrow> new_request \<Rightarrow> transport \<Rightarrow> test_Client \<Rightarrow> StreamRequest \<Rightarrow>
    (error \<times> source option + (source, StreamItem) streamReader) option" where
  "client_TestStream lib cancelled newreq tr c req =
     (case marshal_app (lib_json (tl_stream_req lib)) req of
        Inl err \<Rightarrow> Some (Inl (marshal_failed err, None))
      | Inr payload \<Rightarrow>
          (case newreq ''POST'' (te_endpoint c @ ''/v1/test.stream'') payload of
             Inl err \<Rightarrow> Some (Inl (NewClientError '''' (Some err) None, None))
           | Inr r \<Rightarrow>
               DoStream (tl_item lib) (te_Client c) cancelled tr
                 (req_SetHeader ''Accept'' ContentStreamJSON
                   (req_SetHeader ''Content-Type'' ContentTypeJSON r))))"

definition errors_payload :: "test_lib \<Rightarrow> ErrorsRequest \<Rightarrow> error + bytes" where
  "errors_payload lib req =
     (if er_Case req = CaseContentTypeError
      then Inr (bytes_of_string ''This is not a protobuf message'')
      else marshal_app (lib_proto (tl_errors_req lib)) req)"

definition client_TestErrors ::
  "test_lib \<Rightarrow> new_request \<Rightarrow> transport \<Rightarrow> test_Client \<Rightarrow> ErrorsRequest \<Rightarrow>
    ((error + unit) \<times> source option) option" where
  "client_TestErrors lib newreq tr c req =
     (let m = (if er_Case req = CaseInvalidMethod then ''invalid method'' else ''POST'') in
      case errors_payload lib req of
        Inl err \<Rightarrow> Some (Inl (marshal_failed err), None)
      | Inr payload \<Rightarrow>
          (case newreq m (te_endpoint c @ ''/v1/test.errors'') payload of
             Inl err \<Rightarrow> Some (Inl (NewClientError '''' (Some err) None), None)
           | Inr r \<Rightarrow> Do (tl_none lib) tr (req_SetHeader ''Content-Type'' ContentTypeProtoBuf r)))"

section \<open>Lemmas\<close>

text \<open>A request read without a limit.\<close>

lemma ReadRequest_unlimited:
  assumes "src_err (req_body r) = EOF" and "request_codec lib r = Some c"
  shows "\<exists>s. ReadRequest lib r 0 =
    Some (case unmarshal_app c (src_content (req_body r)) of
            Inl e \<Rightarrow> Inl (NewServiceError CodeClientContentError '''' (Some e) None)
          | Inr m \<Rightarrow> Inr m, r\<lparr>req_body := s\<rparr>)"
proof -
  from copy_body [of "lib_room lib" "[]" "req_body r"] assms(1) obtain s where
    "read_body (lib_room lib) (req_body r) 0 = Some ((src_content (req_body r), None), src_close s)"
    by (auto simp: read_body_def)
  with assms(2) show ?thesis
    by (auto simp: ReadRequest_def request_codec_def Let_def split: if_splits sum.splits)
qed

text \<open>On a connection that does not fail, everything written to the buffer is in it or sent.\<close>

definition bufio_ok :: "bytes \<Rightarrow> bufio \<Rightarrow> bool" where
  "bufio_ok c b \<longleftrightarrow> bf_err b = None \<and> rw_fault (bf_w b) = (\<lambda>_. None) \<and> rw_body (bf_w b) @ bf_buf b = c"

lemma bufio_Flush_ok: "bufio_ok c b \<Longrightarrow> bufio_ok c (bufio_Flush b) \<and> bf_buf (bufio_Flush b) = []"
  by (auto simp: bufio_ok_def bufio_Flush_def rw_Write_ok)

lemma bufio_Write_ok: "bufio_ok c b \<Longrightarrow> bufio_ok (c @ p) (bufio_Write p b)"
proof (induction p b arbitrary: c rule: bufio_Write.induct)
  case (1 p b)
  show ?case
  proof (cases "length (bf_buf b) + length p \<le> bufio_size \<or> bf_buf b = []")
    case True
    with "1.prems" show ?thesis
      by (subst bufio_Write.simps) (auto simp: bufio_ok_def rw_Write_ok)
  next
    case False
    let ?k = "bufio_size - length (bf_buf b)"
    have "bufio_ok (c @ take ?k p) (b\<lparr>bf_buf := bf_buf b @ take ?k p\<rparr>)"
      using "1.prems" by (auto simp: bufio_ok_def)
    from bufio_Flush_ok [OF this] have
      "bufio_ok ((c @ take ?k p) @ drop ?k p)
        (bufio_Write (drop ?k p) (bufio_Flush (b\<lparr>bf_buf := bf_buf b @ take ?k p\<rparr>)))"
      using False "1.prems" by (intro "1.IH") (auto simp: bufio_ok_def)
    with False "1.prems" show ?thesis
      by (subst bufio_Write.simps) (simp add: bufio_ok_def Let_def)
  qed
qed

lemma length_random_chunk: "k \<le> 4096 \<Longrightarrow> length (random_chunk rnd pos k) = 4096"
  by (simp add: random_chunk_def bytes_of_string_def)

lemma chunk_loop_ok:
  "bufio_ok c b \<Longrightarrow> \<exists>d. bufio_ok (c @ d) (chunk_loop rnd pos len b) \<and> bf_buf (chunk_loop rnd pos len b) = [] \<and>
    length d = 4096 * ((len + 4095) div 4096)"
proof (induction rnd pos len b arbitrary: c rule: chunk_loop.induct)
  case (1 rnd pos len b)
  show ?case
  proof (cases "len = 0")
    case True
    with bufio_Flush_ok [OF "1.prems"] show ?thesis
      by (intro exI [of _ "[]"]) (simp add: chunk_loop.simps)
  next
    case False
    let ?k = "min 4096 len"
    let ?b = "bufio_Write (random_chunk rnd pos ?k) b"
    note w = bufio_Write_ok [OF "1.prems", of "random_chunk rnd pos ?k"]
    have err: "bf_err ?b = None" using w by (simp add: bufio_ok_def)
    from "1.IH" [OF False refl refl _ w] err obtain d where
      d: "bufio_ok ((c @ random_chunk rnd pos ?k) @ d) (chunk_loop rnd (pos + ?k) (len - ?k) ?b)"
      "bf_buf (chunk_loop rnd (pos + ?k) (len - ?k) ?b) = []"
      "length d = 4096 * ((len - ?k + 4095) div 4096)" by auto
    have "4096 + 4096 * ((len - ?k + 4095) div 4096) = 4096 * ((len + 4095) div 4096)"
    proof (cases "4096 \<le> len")
      case True
      then have "len + 4095 = (len - 1) + 4096" by simp
      with True show ?thesis by (simp only: div_add_self2) simp
    qed (use False in auto)
    with d False err show ?thesis
      by (intro exI [of _ "random_chunk rnd pos ?k @ d"])
        (simp add: chunk_loop.simps [of rnd pos len b] Let_def length_random_chunk)
  qed
qed

lemma chunkWriter_ok:
  assumes "rw_fault w = (\<lambda>_. None)"
  shows "\<exists>d w'. chunkWriter rnd w len = (None, w') \<and> rw_body w' = rw_body w @ d \<and>
    length d = 4096 * ((len + 4095) div 4096)"
proof -
  have "bufio_ok (rw_body w) \<lparr>bf_w = w, bf_buf = [], bf_err = None\<rparr>"
    using assms by (simp add: bufio_ok_def)
  from chunk_loop_ok [OF this, of rnd 0 len] show ?thesis
    by (auto simp: chunkWriter_def Let_def bufio_ok_def)
qed

text \<open>How a stream of the test service ends, as the caller sees it.\<close>

definition final_item :: "StreamRequest \<Rightarrow> StreamItem" where
  "final_item req = \<lparr>it_Sequence = scast (sq_Count req), it_Data = []\<rparr>"

definition failure_reply :: "StreamRequest \<Rightarrow> reply" where
  "failure_reply req = \<lparr>r_code = ''500'', r_message = sq_ErrorAt req, r_details = None\<rparr>"

definition stream_ending :: "StreamRequest \<Rightarrow> (error + StreamItem) list" where
  "stream_ending req =
     (if sq_ErrorAt req \<noteq> []
      then [Inl (ClientErr (ClientError None (sq_ErrorAt req) None False ''500'' 200))]
      else if sq_CloseWithPayload req then [Inr (final_item req), Inl EOF]
      else [Inl EOF])"

text \<open>A codec that gives the ending back, within the client's frame limit.\<close>

definition ending_codec :: "StreamItem codec \<Rightarrow> StreamRequest \<Rightarrow> bool" where
  "ending_codec c req \<longleftrightarrow>
     roundtrips c (final_item req) \<and> marshal_app c (final_item req) \<noteq> Inr [] \<and>
     wire_size c (final_item req) \<le> 4000000 \<and>
     (case marshal_reply c (failure_reply req) of
        Inl _ \<Rightarrow> False
      | Inr b \<Rightarrow> length b \<le> 4000000 \<and> unmarshal_reply c b = Inr (failure_reply req))"

lemma TestStream_error:
  "buildErrorReply (NewServiceError CodeInternalError (sq_ErrorAt req) None None) = failure_reply req"
  by (simp add: buildErrorReply_def failure_reply_def CodeInternalError_def service_ProtoMessage_def
      service_Message_def go_simps)

lemma finish_stream_plan:
  assumes "TestStream req = Some (items, err)" and "ending_codec c req"
  shows "recv_stream c 200 (plan (finish_stream req err) c False) = stream_ending req"
    and "\<forall>(flag, x) \<in> set (plan (finish_stream req err) c False). fits DefaultMaxFramePayload x"
proof -
  have err: "err = (if sq_ErrorAt req \<noteq> []
      then Some (NewServiceError CodeInternalError (sq_ErrorAt req) None None) else None)"
    using assms(1) by (auto simp: TestStream_def split: if_splits)
  obtain fb rb where c: "marshal_app c (final_item req) = Inr fb" "unmarshal_app c fb = Inr (final_item req)"
    "fb \<noteq> []" "length fb \<le> 4000000" "marshal_reply c (failure_reply req) = Inr rb"
    "unmarshal_reply c rb = Inr (failure_reply req)" "length rb \<le> 4000000"
    using assms(2) by (auto simp: ending_codec_def roundtrips_def wire_size_def split: sum.splits)
  show "recv_stream c 200 (plan (finish_stream req err) c False) = stream_ending req"
    using c by (simp add: err finish_stream_def final_item_def [symmetric] stream_ending_def
        close_payload_def TestStream_error error_frame_def) (simp add: failure_reply_def)
  show "\<forall>(flag, x) \<in> set (plan (finish_stream req err) c False). fits DefaultMaxFramePayload x"
    using c by (simp add: err finish_stream_def final_item_def [symmetric] close_payload_def TestStream_error)
      (simp add: fits_def DefaultMaxFramePayload_def MegaByte_def Kilobyte_def)
qed

end
