(* ===== verification/Demo_Store.thy ===== *)
theory Demo_Store
  imports Demo
begin

text \<open>
  The content store of the demo service under concurrent calls (demo/service.go): every call of
  \<open>StoreContent\<close> and \<open>GetContent\<close> is a goroutine that takes the service's \<open>sync.RWMutex\<close>, for
  writing or for reading, touches the map, releases the lock by its deferred call and returns.
  The goroutines interleave at every one of these steps.

  The lock is a flag for a writer and a count of readers. A \<open>sync.RWMutex\<close> also keeps new
  readers out while a writer waits; the model allows these runs too. The access to the map itself is
  one step, between the states \<open>InBody\<close> and \<open>OutBody\<close>; that no other access overlaps a store, which is
  what makes it safe to see it so, is proved from the lock.
\<close>

datatype content_op = OpStore string string bytes | OpGet string

datatype op_result = Stored | Got "error + string \<times> bytes"

text \<open>
  Where a call is: before the lock, holding it, in the middle of its access to the map, after
  it and still holding the lock, returned.
\<close>

datatype op_pc = Ready | InLock | InBody | OutBody op_result | Returned op_result

text \<open>\<open>sh_log\<close> notes the calls in the order in which they complete their access; no call reads it.\<close>

record shared =
  sh_service :: Service
  sh_writer :: bool
  sh_readers :: nat
  sh_log :: "(nat \<times> op_result) list"

fun is_store :: "content_op \<Rightarrow> bool" where
  "is_store (OpStore _ _ _) = True"
| "is_store (OpGet _) = False"

text \<open>\<open>mu.Lock\<close> and \<open>mu.RLock\<close>; \<open>None\<close> while the goroutine is blocked.\<close>

definition acquire :: "content_op \<Rightarrow> shared \<Rightarrow> shared option" where
  "acquire op sh =
     (if is_store op
      then (if sh_writer sh \<or> 0 < sh_readers sh then None else Some (sh\<lparr>sh_writer := True\<rparr>))
      else (if sh_writer sh then None else Some (sh\<lparr>sh_readers := sh_readers sh + 1\<rparr>)))"

definition release :: "content_op \<Rightarrow> shared \<Rightarrow> shared" where
  "release op sh =
     (if is_store op then sh\<lparr>sh_writer := False\<rparr> else sh\<lparr>sh_readers := sh_readers sh - 1\<rparr>)"

lemma release_keeps [simp]:
  "sh_log (release op sh) = sh_log sh" "sh_service (release op sh) = sh_service sh"
  by (simp_all add: release_def)

lemma acquire_keeps: "acquire op sh = Some sh' \<Longrightarrow> sh_log sh' = sh_log sh \<and> sh_service sh' = sh_service sh"
  by (auto simp: acquire_def split: if_splits)

text \<open>The bodies of the two operations.\<close>

fun run_op :: "content_op \<Rightarrow> Service \<Rightarrow> op_result \<times> Service" where
  "run_op (OpStore path contentType body) s = (Stored, StoreContent s path contentType body)"
| "run_op (OpGet path) s = (Got (GetContent s path), s)"

fun op_step :: "nat \<Rightarrow> content_op \<Rightarrow> op_pc \<Rightarrow> shared \<Rightarrow> (op_pc \<times> shared) option" where
  "op_step i op Ready sh = map_option (Pair InLock) (acquire op sh)"
| "op_step i op InLock sh = Some (InBody, sh)"
| "op_step i op InBody sh =
     (case run_op op (sh_service sh) of (r, s') \<Rightarrow>
        Some (OutBody r, sh\<lparr>sh_service := s', sh_log := sh_log sh @ [(i, r)]\<rparr>))"
| "op_step i op (OutBody r) sh = Some (Returned r, release op sh)"
| "op_step i op (Returned r) sh = None"

inductive store_step :: "content_op list \<Rightarrow> op_pc list \<times> shared \<Rightarrow> op_pc list \<times> shared \<Rightarrow> bool"
  for ops :: "content_op list" where
  call: "i < length pcs \<Longrightarrow> op_step i (ops ! i) (pcs ! i) sh = Some (pc', sh') \<Longrightarrow>
    store_step ops (pcs, sh) (pcs[i := pc'], sh')"

inductive_cases store_stepE: "store_step ops (pcs, sh) t"

definition store_start :: "content_op list \<Rightarrow> Service \<Rightarrow> op_pc list \<times> shared" where
  "store_start ops s =
     (replicate (length ops) Ready, \<lparr>sh_service = s, sh_writer = False, sh_readers = 0, sh_log = []\<rparr>)"

definition store_reach :: "content_op list \<Rightarrow> Service \<Rightarrow> op_pc list \<times> shared \<Rightarrow> bool" where
  "store_reach ops s t \<longleftrightarrow> (store_step ops)\<^sup>*\<^sup>* (store_start ops s) t"

section \<open>The sequential specification\<close>

text \<open>The logged calls one after the other: each gives the result it is logged with.\<close>

fun replay :: "content_op list \<Rightarrow> Service \<Rightarrow> (nat \<times> op_result) list \<Rightarrow> Service option" where
  "replay ops s [] = Some s"
| "replay ops s ((i, r) # calls) =
     (case run_op (ops ! i) s of (r', s') \<Rightarrow> if r' = r then replay ops s' calls else None)"

lemma replay_append:
  "replay ops s (calls @ [(i, r)]) =
    (case replay ops s calls of
       None \<Rightarrow> None
     | Some t \<Rightarrow> (case run_op (ops ! i) t of (r', t') \<Rightarrow> if r' = r then Some t' else None))"
  by (induction ops s calls rule: replay.induct) (auto split: prod.splits)

section \<open>Invariants\<close>

fun holds :: "op_pc \<Rightarrow> bool" where
  "holds InLock = True"
| "holds InBody = True"
| "holds (OutBody r) = True"
| "holds _ = False"

fun finished :: "op_pc \<Rightarrow> op_result option" where
  "finished (OutBody r) = Some r"
| "finished (Returned r) = Some r"
| "finished _ = None"

definition holders :: "(content_op \<Rightarrow> bool) \<Rightarrow> content_op list \<Rightarrow> op_pc list \<Rightarrow> nat set" where
  "holders P ops pcs = {i. i < length pcs \<and> P (ops ! i) \<and> holds (pcs ! i)}"

text \<open>The lock says who holds it, and a writer holds it alone.\<close>

definition lock_inv :: "content_op list \<Rightarrow> op_pc list \<times> shared \<Rightarrow> bool" where
  "lock_inv ops = (\<lambda>(pcs, sh).
     sh_readers sh = card (holders (\<lambda>op. \<not> is_store op) ops pcs) \<and>
     card (holders is_store ops pcs) = (if sh_writer sh then 1 else 0) \<and>
     (sh_writer sh \<longrightarrow> sh_readers sh = 0))"

text \<open>The log has the calls that are through, each once, with the results they return.\<close>

definition log_inv :: "content_op list \<Rightarrow> Service \<Rightarrow> op_pc list \<times> shared \<Rightarrow> bool" where
  "log_inv ops s = (\<lambda>(pcs, sh).
     length pcs = length ops \<and> replay ops s (sh_log sh) = Some (sh_service sh) \<and>
     distinct (map fst (sh_log sh)) \<and>
     (\<forall>i r. (i, r) \<in> set (sh_log sh) \<longleftrightarrow> i < length pcs \<and> finished (pcs ! i) = Some r))"

lemma finite_holders [simp]: "finite (holders P ops pcs)"
  by (simp add: holders_def)

lemma holders_update:
  "i < length pcs \<Longrightarrow> holders P ops (pcs[i := pc]) =
    (if P (ops ! i) \<and> holds pc then insert i (holders P ops pcs) else holders P ops pcs - {i})"
  by (auto simp: holders_def nth_list_update)

lemma holders_member: "i < length pcs \<Longrightarrow> i \<in> holders P ops pcs \<longleftrightarrow> P (ops ! i) \<and> holds (pcs ! i)"
  by (simp add: holders_def)

lemma lock_inv_step:
  assumes "lock_inv ops (pcs, sh)" and "i < length pcs"
    and "op_step i (ops ! i) (pcs ! i) sh = Some (pc', sh')"
  shows "lock_inv ops (pcs[i := pc'], sh')"
proof (cases "pcs ! i")
  case Ready
  with assms(3) have "acquire (ops ! i) sh = Some sh'" "pc' = InLock" by auto
  with assms(1,2) Ready holders_member [OF assms(2)] show ?thesis
    by (auto simp: lock_inv_def holders_update acquire_def card_insert_if split: if_splits)
next
  case InLock
  with assms holders_member [OF assms(2)] show ?thesis
    by (auto simp: lock_inv_def holders_update insert_absorb)
next
  case InBody
  with assms holders_member [OF assms(2)] show ?thesis
    by (auto simp: lock_inv_def holders_update insert_absorb split: prod.splits)
next
  case (OutBody r)
  with assms(3) have r: "sh' = release (ops ! i) sh" "pc' = Returned r" by auto
  have "i \<in> holders is_store ops pcs \<longleftrightarrow> is_store (ops ! i)"
    "i \<in> holders (\<lambda>op. \<not> is_store op) ops pcs \<longleftrightarrow> \<not> is_store (ops ! i)"
    using holders_member [OF assms(2)] OutBody by simp_all
  moreover have "sh_writer sh" if "is_store (ops ! i)"
    using assms(1) calculation(1) that by (auto simp: lock_inv_def card_eq_0_iff split: if_splits)
  ultimately show ?thesis using assms(1,2) r
    by (auto simp: lock_inv_def holders_update release_def card_Diff_singleton card_1_singleton_iff)
next
  case (Returned r)
  with assms(3) show ?thesis by simp
qed

lemma log_inv_step:
  assumes "log_inv ops s (pcs, sh)" and "i < length pcs"
    and "op_step i (ops ! i) (pcs ! i) sh = Some (pc', sh')"
  shows "log_inv ops s (pcs[i := pc'], sh')"
proof (cases "pcs ! i")
  case InBody
  obtain r s' where run: "run_op (ops ! i) (sh_service sh) = (r, s')" by (cases "run_op (ops ! i) (sh_service sh)")
  have "i \<notin> fst ` set (sh_log sh)" using assms(1,2) InBody by (force simp: log_inv_def)
  with assms InBody run show ?thesis
    by (auto simp: log_inv_def replay_append nth_list_update)
next
  case Ready
  with assms(3) have "acquire (ops ! i) sh = Some sh'" "pc' = InLock" by auto
  with assms(1,2) Ready acquire_keeps show ?thesis by (force simp: log_inv_def nth_list_update)
next
  case (OutBody r)
  with assms show ?thesis by (auto simp: log_inv_def nth_list_update)
qed (use assms in \<open>auto simp: log_inv_def nth_list_update\<close>)

interpretation store: inductive_invariant "store_step ops" "\<lambda>t. lock_inv ops t \<and> log_inv ops s t" for ops s
proof (unfold_locales, goal_cases)
  case (1 t u)
  obtain pcs sh where t: "t = (pcs, sh)" by (cases t)
  from 1(2) show ?case unfolding t
    by (rule store_stepE) (use 1(1) t lock_inv_step log_inv_step in blast)
qed

lemma store_inv: "store_reach ops s t \<Longrightarrow> lock_inv ops t \<and> log_inv ops s t"
proof -
  have "holders P ops (replicate (length ops) Ready) = {}" for P by (auto simp: holders_def)
  then have "lock_inv ops (store_start ops s) \<and> log_inv ops s (store_start ops s)"
    by (auto simp: store_start_def lock_inv_def log_inv_def)
  then show "store_reach ops s t \<Longrightarrow> ?thesis" unfolding store_reach_def by (rule store.always [rotated])
qed

text \<open>Two calls in their access to the map at once are both reads.\<close>

lemma lock_excludes:
  assumes "lock_inv ops (pcs, sh)" and "i < length pcs" and "j < length pcs" and "i \<noteq> j"
    and "holds (pcs ! i)" and "holds (pcs ! j)"
  shows "\<not> is_store (ops ! i) \<and> \<not> is_store (ops ! j)"
proof -
  let ?W = "holders is_store ops pcs" and ?R = "holders (\<lambda>op. \<not> is_store op) ops pcs"
  have False if "k \<in> ?W" "k \<noteq> l" "l \<in> ?W \<union> ?R" for k l
  proof -
    from that(1) have w: "sh_writer sh" using assms(1) by (auto simp: lock_inv_def split: if_splits)
    then have "?R = {}" "card ?W = 1" using assms(1) by (auto simp: lock_inv_def)
    with that show False by (auto simp: card_1_singleton_iff)
  qed
  moreover have "i \<in> ?W \<union> ?R" "j \<in> ?W \<union> ?R" using assms by (auto simp: holders_member)
  ultimately show ?thesis using assms by (metis holders_member)
qed

text \<open>Some call can go on until all have returned.\<close>

lemma store_progress:
  assumes "lock_inv ops (pcs, sh)" and "i < length pcs" and "\<forall>r. pcs ! i \<noteq> Returned r"
  shows "\<exists>t. store_step ops (pcs, sh) t"
proof (cases "\<exists>j < length pcs. holds (pcs ! j)")
  case True
  then obtain j where "j < length pcs" "holds (pcs ! j)" by blast
  moreover from this(2) obtain pc' sh' where "op_step j (ops ! j) (pcs ! j) sh = Some (pc', sh')"
    by (cases "pcs ! j"; cases "run_op (ops ! j) (sh_service sh)") auto
  ultimately show ?thesis using store_step.call by blast
next
  case False
  then have "holders P ops pcs = {}" for P by (auto simp: holders_def)
  with assms(1) have "\<not> sh_writer sh" "sh_readers sh = 0" by (auto simp: lock_inv_def split: if_splits)
  moreover have "pcs ! i = Ready" using False assms(2,3) by (cases "pcs ! i") auto
  ultimately have "\<exists>sh'. op_step i (ops ! i) (pcs ! i) sh = Some (InLock, sh')" by (simp add: acquire_def)
  with assms(2) show ?thesis using store_step.call by blast
qed

text \<open>The steps left.\<close>

fun op_rank :: "op_pc \<Rightarrow> nat" where
  "op_rank Ready = 4"
| "op_rank InLock = 3"
| "op_rank InBody = 2"
| "op_rank (OutBody r) = 1"
| "op_rank (Returned r) = 0"

lemma store_step_rank:
  assumes "store_step ops (pcs, sh) (pcs', sh')"
  shows "Suc (sum_list (map op_rank pcs')) = sum_list (map op_rank pcs)"
  using assms
proof (rule store_stepE)
  fix i pc' sh''
  assume t: "(pcs', sh') = (pcs[i := pc'], sh'')" and i: "i < length pcs"
    and s: "op_step i (ops ! i) (pcs ! i) sh = Some (pc', sh'')"
  have "Suc (op_rank pc') = op_rank (pcs ! i)" using s by (cases "pcs ! i") (auto split: prod.splits)
  moreover have "sum_list (map op_rank (pcs[i := pc'])) + op_rank (pcs ! i) =
      sum_list (map op_rank pcs) + op_rank pc'"
    using i by (induction pcs arbitrary: i) (auto split: nat.splits)
  ultimately show ?thesis using t by simp
qed

end
