(* ===== verification/Demo_Properties.thy ===== *)
theory Demo_Properties
  imports Demo_Store Stream_Properties Demo
begin

text \<open>
  Properties of the demo service through its handler and client: what the library's pieces give
  when they are put together. The witnesses use one-byte codecs.
\<close>

section \<open>A sample instance\<close>

definition codec_of :: "('m \<Rightarrow> bytes) \<Rightarrow> (bytes \<Rightarrow> 'm) \<Rightarrow> 'm codec" where
  "codec_of f g = \<lparr>marshal_app = (\<lambda>m. Inr (f m)), marshal_reply = sample_marshal_reply,
     unmarshal_app = (\<lambda>b. Inr (g b)), unmarshal_reply = sample_unmarshal_reply\<rparr>"

definition lib_of :: "('m \<Rightarrow> bytes) \<Rightarrow> (bytes \<Rightarrow> 'm) \<Rightarrow> 'm lib" where
  "lib_of f g = \<lparr>lib_uni = sample_unicode, lib_json = codec_of f g, lib_proto = codec_of f g,
     lib_room = (\<lambda>_. 0)\<rparr>"

definition sample_demo_lib :: demo_lib where
  "sample_demo_lib =
     \<lparr>dl_hello_req = lib_of (\<lambda>m. bytes_of_string (hello_Name m)) (\<lambda>b. \<lparr>hello_Name = string_of_bytes b\<rparr>),
      dl_hello_resp = lib_of (\<lambda>m. bytes_of_string (hello_Message m))
        (\<lambda>b. \<lparr>hello_Message = string_of_bytes b\<rparr>),
      dl_pixel_req = lib_of (\<lambda>_. []) (\<lambda>_. \<lparr>px_Complexity = Fin 4, px_Height = 1, px_Width = 1, px_I = 0, px_J = 0\<rparr>),
      dl_pixel_resp = lib_of (\<lambda>_. []) (\<lambda>_. \<lparr>px_Gray = 0\<rparr>),
      dl_events_req = lib_of (\<lambda>m. [ucast (le_Count m)]) (\<lambda>b. \<lparr>le_Count = ucast (hd b)\<rparr>),
      dl_event = lib_of (\<lambda>m. ucast (ev_Sequence m) # bytes_of_string (ev_Message m))
        (\<lambda>b. \<lparr>ev_Sequence = ucast (hd b), ev_Message = string_of_bytes (tl b)\<rparr>),
      dl_download_req = lib_of (\<lambda>m. bytes_of_string (cd_Path m)) (\<lambda>b. \<lparr>cd_Path = string_of_bytes b\<rparr>),
      dl_reply = lib_of (\<lambda>r. bytes_of_string (r_code r))
        (\<lambda>b. \<lparr>r_code = string_of_bytes b, r_message = [], r_details = None\<rparr>),
      dl_title = (\<lambda>s. s), dl_oor = (\<lambda>_. 0)\<rparr>"

lemma lib_of_simps [simp]:
  "lib_json (lib_of f g) = codec_of f g" "lib_proto (lib_of f g) = codec_of f g"
  "lib_uni (lib_of f g) = sample_unicode"
  "marshal_app (codec_of f g) m = Inr (f m)" "unmarshal_app (codec_of f g) b = Inr (g b)"
  "stream_codec (lib_of f g) r = codec_of f g"
  by (simp_all add: lib_of_def codec_of_def stream_codec_def)

lemma no_content_type: "request_codec (lib_of f g) r = Some (codec_of f g)"
  if "hget (req_header r) ''Content-Type'' = []"
  using that by (simp add: request_codec_def normalizeMediaType_ascii is_ascii_def trim_def json_types_def)

lemma request_codec_json:
  "hget (req_header r) ''Content-Type'' = ContentTypeJSON \<Longrightarrow> request_codec lib r = Some (lib_json lib)"
  by (simp add: request_codec_def json_types_def)

lemma reply_codec_json:
  "hget (req_header r) ''Accept'' = [] \<Longrightarrow> reply_codec lib r = Some (ContentTypeJSON, lib_json lib)"
  by (simp add: reply_codec_def accept_type_def normalizeMediaType_ascii is_ascii_def trim_def json_types_def)

section \<open>The demo service\<close>

text \<open>C30: Content uploaded under a path, of any type and up to ten megabytes, is what a download of
  that path serves afterwards, byte for byte and with the same content type; other paths keep
  their content.\<close>

theorem uploaded_content_is_served:
  assumes "src_err (req_body r) = EOF" and "length (src_content (req_body r)) \<le> 10000000"
    and "hget (req_header r) ''X-RPC-Path'' = path" and "path \<noteq> []"
    and "carries (dl_download_req dl) r2 \<lparr>cd_Path = path\<rparr>"
  shows "\<exists>r'. handleContentDownload dl (snd (handleContentUpload dl s w r)) w2 r2 =
      Some (WriteContent w2 (hget (req_header r) ''Content-Type'') (src_content (req_body r)), r') \<and>
    (\<forall>other. other \<noteq> path \<longrightarrow>
      GetContent (snd (handleContentUpload dl s w r)) other = GetContent s other)"
proof -
  from ReadContent_all [OF assms(1,2), of "dl_reply dl"] obtain b where
    "ReadContent (dl_reply dl) r (word_of_int (10 * MegaByte)) =
      Some (Inr (src_content (req_body r), hget (req_header r) ''Content-Type''), r\<lparr>req_body := b\<rparr>)" ..
  then have s': "snd (handleContentUpload dl s w r) =
      StoreContent s path (hget (req_header r) ''Content-Type'') (src_content (req_body r))"
    using assms(3,4) by (simp add: handleContentUpload_def Let_def)
  from ReadRequest_carries [OF assms(5)] obtain b2 where
    "ReadRequest (dl_download_req dl) r2 (word_of_int (5 * MegaByte)) =
      Some (Inr \<lparr>cd_Path = path\<rparr>, r2\<lparr>req_body := b2\<rparr>)" ..
  then show ?thesis unfolding s'
    by (simp add: handleContentDownload_def GetContent_def StoreContent_def)
qed

theorem uploaded_content_is_served_witness:
  "\<exists>r'. handleContentDownload sample_demo_lib
      (snd (handleContentUpload sample_demo_lib NewService (new_rw True)
        (sample_request [''X-Rpc-Path'' \<mapsto> [''a''], ''Content-Type'' \<mapsto> [''image/png'']] [7, 8])))
      (new_rw True) (sample_request Map.empty (bytes_of_string ''a'')) =
    Some (WriteContent (new_rw True) ''image/png'' [7, 8], r')"
proof -
  have k: "CanonicalHeaderKey ''X-RPC-Path'' = ''X-Rpc-Path''" by code_simp
  have "\<exists>r'. handleContentDownload sample_demo_lib
      (snd (handleContentUpload sample_demo_lib NewService (new_rw True)
        (sample_request [''X-Rpc-Path'' \<mapsto> [''a''], ''Content-Type'' \<mapsto> [''image/png'']] [7, 8])))
      (new_rw True) (sample_request Map.empty (bytes_of_string ''a'')) =
    Some (WriteContent (new_rw True)
      (hget (req_header (sample_request [''X-Rpc-Path'' \<mapsto> [''a''], ''Content-Type'' \<mapsto> [''image/png'']] [7, 8]))
        ''Content-Type'')
      (src_content (req_body (sample_request
        [''X-Rpc-Path'' \<mapsto> [''a''], ''Content-Type'' \<mapsto> [''image/png'']] [7, 8]))), r') \<and>
    (\<forall>other. other \<noteq> ''a'' \<longrightarrow> GetContent (snd (handleContentUpload sample_demo_lib NewService (new_rw True)
        (sample_request [''X-Rpc-Path'' \<mapsto> [''a''], ''Content-Type'' \<mapsto> [''image/png'']] [7, 8]))) other =
        GetContent NewService other)"
    by (rule uploaded_content_is_served)
      (simp_all add: hget_def k carries_def sample_demo_lib_def no_content_type)
  then show ?thesis by (simp add: hget_def http_simps)
qed

definition reply_roundtrips :: "'m codec \<Rightarrow> reply \<Rightarrow> bool" where
  "reply_roundtrips c reply \<longleftrightarrow>
     (case marshal_reply c reply of Inr b \<Rightarrow> unmarshal_reply c b = Inr reply | Inl _ \<Rightarrow> False)"

text \<open>C21: A greeting through the whole stack, from the client's call over the request, the routing,
  the service and the reply back to the caller: the caller gets the service's answer, or, when
  the service refuses the name, a client error with the code, message and details of the
  service's error and status 400. Asked of the JSON encoding is that it reads back what it wrote
  for the three messages of this call: the request (of at most 5 MB), the answer and the reply
  that carries the error.\<close>

theorem say_hello_end_to_end:
  assumes "marshal_app (lib_json (dl_hello_req dl)) req = Inr payload"
    and "unmarshal_app (lib_json (dl_hello_req dl)) payload = Inr req" and "length payload \<le> 5000000"
    and "newreq ''POST'' (endpoint_url c ''v1/say.hello'') payload = Inr r0"
    and "r = req_SetHeader ''Content-Type'' ContentTypeJSON r0"
    and "req_method r = ''POST''" and "req_path r = ''/v1/say.hello''" and "hget (req_header r) ''Accept'' = []"
    and "src_content (req_body r) = payload" and "src_err (req_body r) = EOF"
    and "ServeHTTP dl s w r = (Inl (Some (w', r')), s')" and "fresh w"
    and "delivered w' resp" and "tr r = Inr resp"
    and "case SayHello (dl_title dl) req of
        Inr m \<Rightarrow> roundtrips (lib_json (dl_hello_resp dl)) m
      | Inl err \<Rightarrow> (\<forall>e. As_Error err = Some e \<longrightarrow>
          reply_roundtrips (lib_json (dl_hello_resp dl)) (duh_ProtoMessage e))"
  shows "case SayHello (dl_title dl) req of
      Inr m \<Rightarrow> \<exists>b. client_SayHello dl newreq tr c req = Some (Inr m, Some b)
    | Inl err \<Rightarrow> \<exists>e err' b. As_Error err = Some e \<and>
        client_SayHello dl newreq tr c req = Some (Inl err', Some b) \<and>
        service_error_of (duh_ProtoMessage e) 400 (hget (resp_header resp) ''Retry-After'') err'"
proof -
  let ?lib = "dl_hello_resp dl"
  have call: "client_SayHello dl newreq tr c req = Do ?lib tr r"
    using assms(1,4,5) by (simp add: client_SayHello_def)
  have "carries (dl_hello_req dl) r req"
    using assms(2,3,5,9,10) by (simp add: carries_def request_codec_json req_SetHeader_def http_simps)
  from ReadRequest_carries [OF this] obtain b where
    read: "ReadRequest (dl_hello_req dl) r (word_of_int (5 * MegaByte)) = Some (Inr req, r\<lparr>req_body := b\<rparr>)" ..
  have served: "handleSayHello dl w r = Some (w', r')" using assms(6,7,11) by (simp add: ServeHTTP_def)
  have rc: "reply_codec ?lib (r\<lparr>req_body := b\<rparr>) = Some (ContentTypeJSON, lib_json ?lib)"
    by (rule reply_codec_json) (simp add: assms(8))
  show ?thesis
  proof (cases "SayHello (dl_title dl) req")
    case (Inr m)
    then have "Reply ?lib w (r\<lparr>req_body := b\<rparr>) CodeOK (App m) = Some (w', r')"
      using served read by (simp add: handleSayHello_def)
    moreover have "roundtrips (lib_json ?lib) m" using assms(15) Inr by simp
    then obtain mb where "marshal_app (lib_json ?lib) m = Inr mb" "unmarshal_app (lib_json ?lib) mb = Inr m"
      by (auto simp: roundtrips_def split: sum.splits)
    ultimately show ?thesis
      using reply_received [where tr = tr and req = r, OF assms(12) rc _ _ _ assms(13,14)] Inr call by fastforce
  next
    case (Inl err)
    then obtain e where e: "As_Error err = Some e" "duh_HTTPCode e = 400"
      by (auto simp: SayHello_def CodeBadRequest_def go_simps split: if_splits)
    have "ReplyError ?lib w (r\<lparr>req_body := b\<rparr>) err = Some (w', r')"
      using served read Inl by (simp add: handleSayHello_def)
    moreover obtain mb where "marshal_reply (lib_json ?lib) (duh_ProtoMessage e) = Inr mb"
      "unmarshal_reply (lib_json ?lib) mb = Inr (duh_ProtoMessage e)"
      using assms(15) Inl e(1) by (auto simp: reply_roundtrips_def split: sum.splits)
    moreover have "final_status 400" by (simp add: final_status_def)
    ultimately show ?thesis
      using error_received [where tr = tr and req = r, OF assms(12) e(1) _ _ rc _ _ _ assms(13,14)] Inl call e
      by (fastforce simp: CodeOK_def)
  qed
qed

theorem say_hello_end_to_end_witness:
  "\<exists>b. client_SayHello sample_demo_lib (\<lambda>_ _ b. Inr (sample_request Map.empty b))
      (\<lambda>_. Inr (sample_response 200 ContentTypeJSON (bytes_of_string ''Hello, Bob'')))
      \<lparr>dc_endpoint = [], dc_client = \<lparr>cl_MaxFramePayload = 0, cl_HeartbeatTimeout = 0\<rparr>\<rparr> \<lparr>hello_Name = ''Bob''\<rparr> =
    Some (Inr \<lparr>hello_Message = ''Hello, Bob''\<rparr>, Some b)"
proof -
  let ?r = "req_SetHeader ''Content-Type'' ContentTypeJSON (sample_request Map.empty (bytes_of_string ''Bob''))"
  let ?out = "send_reply 200 ContentTypeJSON (bytes_of_string ''Hello, Bob'') (new_rw True)"
  have lib: "dl_hello_req sample_demo_lib = lib_of (\<lambda>m. bytes_of_string (hello_Name m))
      (\<lambda>b. \<lparr>hello_Name = string_of_bytes b\<rparr>)"
    "dl_hello_resp sample_demo_lib = lib_of (\<lambda>m. bytes_of_string (hello_Message m))
      (\<lambda>b. \<lparr>hello_Message = string_of_bytes b\<rparr>)" "dl_title sample_demo_lib = (\<lambda>s. s)"
    by (simp_all add: sample_demo_lib_def)
  have r: "req_method ?r = ''POST''" "req_path ?r = ''/v1/say.hello''" "hget (req_header ?r) ''Accept'' = []"
    "req_body ?r = sample_source (bytes_of_string ''Bob'')"
    "hget (req_header ?r) ''Content-Type'' = ContentTypeJSON"
    by (simp_all add: req_SetHeader_def sample_request_def http_simps)
  have "carries (dl_hello_req sample_demo_lib) ?r \<lparr>hello_Name = ''Bob''\<rparr>"
    by (simp add: carries_def request_codec_json r lib)
  from ReadRequest_carries [OF this] obtain b where
    read: "ReadRequest (dl_hello_req sample_demo_lib) ?r (word_of_int (5 * MegaByte)) =
      Some (Inr \<lparr>hello_Name = ''Bob''\<rparr>, ?r\<lparr>req_body := b\<rparr>)" ..
  have "reply_codec (dl_hello_resp sample_demo_lib) (?r\<lparr>req_body := b\<rparr>) =
      Some (ContentTypeJSON, lib_json (dl_hello_resp sample_demo_lib))"
    by (rule reply_codec_json) (simp add: r)
  from Reply_codec [OF this, of "App \<lparr>hello_Message = ''Hello, Bob''\<rparr>"]
  have "handleSayHello sample_demo_lib (new_rw True) ?r = Some (?out, ?r\<lparr>req_body := b\<rparr>)"
    using read by (simp add: handleSayHello_def SayHello_def lib CodeOK_def)
  then have served: "ServeHTTP sample_demo_lib NewService (new_rw True) ?r =
      (Inl (Some (?out, ?r\<lparr>req_body := b\<rparr>)), NewService)"
    by (simp add: ServeHTTP_def r)
  have d: "delivered ?out (sample_response 200 ContentTypeJSON (bytes_of_string ''Hello, Bob''))"
    by (rule sample_delivered) (simp add: final_status_def)
  have hello: "SayHello (\<lambda>s. s) \<lparr>hello_Name = ''Bob''\<rparr> = Inr \<lparr>hello_Message = ''Hello, Bob''\<rparr>"
    by (simp add: SayHello_def)
  show ?thesis
    using say_hello_end_to_end [where tr = "\<lambda>_. Inr (sample_response 200 ContentTypeJSON (bytes_of_string ''Hello, Bob''))"
        and dl = sample_demo_lib and req = "\<lparr>hello_Name = ''Bob''\<rparr>" and r = ?r
        and newreq = "\<lambda>_ _ b. Inr (sample_request Map.empty b)" and payload = "bytes_of_string ''Bob''"
        and c = "\<lparr>dc_endpoint = [], dc_client = \<lparr>cl_MaxFramePayload = 0, cl_HeartbeatTimeout = 0\<rparr>\<rparr>",
        OF _ _ _ _ refl r(1-3) _ _ served fresh_new_rw d refl]
    by (simp add: hello lib roundtrips_def r)
qed

text \<open>A client that asks for n events (n not negative) of the demo's stream receives the
  events 0 to n-1 in order and then io.EOF, through the whole stack: request decoding, handler,
  frames, heartbeats, transport, frame reader and message decoding.\<close>

theorem demo_events_end_to_end:
  assumes "ServeHTTP dl s w r = (Inr s0, s')" and "fresh w"
    and "carries (dl_events_req dl) r \<lparr>le_Count = n\<rparr>" and "0 \<le> sint n"
    and "ListEvents \<lparr>le_Count = n\<rparr> = Some events"
    and "\<forall>m \<in> set events. roundtrips (stream_codec (dl_event dl) r) m \<and>
      wire_size (stream_codec (dl_event dl) r) m \<le> 4000000"
    and "hs_reach s0 t" and "hs_main t = MDone"
    and "delivered (hs_w t) resp" and "tr req = Inr resp" and "cl_MaxFramePayload cl = 0"
    and "length (hs_log t) + 1 < k"
  shows "\<exists>sr. DoStream (dl_event dl) cl cancelled tr req = Some (Inr sr) \<and>
    recv_all k ctx sr = Some (map Inr events @ [Inl EOF]) \<and>
    map ev_Sequence events = map word_of_int [0..sint n - 1]"
proof -
  have start: "HandleStream (dl_event dl) w r (listEvents dl) None = Inr s0"
    using assms(1) by (auto simp: ServeHTTP_def split: if_splits prod.splits)
  from ReadRequest_carries [OF assms(3)] obtain b where
    "ReadRequest (dl_events_req dl) r (word_of_int (5 * MegaByte)) =
      Some (Inr \<lparr>le_Count = n\<rparr>, r\<lparr>req_body := b\<rparr>)" ..
  then have h: "listEvents dl r = send_all events (SClose None SReturn)"
    using assms(5) by (simp add: listEvents_def)
  have "\<exists>sr. DoStream (dl_event dl) cl cancelled tr req = Some (Inr sr) \<and>
      recv_all k ctx sr = Some (map Inr events @ [Inl EOF])"
    by (rule sent_messages_received [where handler = "listEvents dl" and r = r and tr = tr
          and req = req, OF start assms(2) h assms(6-12)])
  moreover have "map ev_Sequence events = map word_of_int [0..sint n - 1]"
    using ListEvents_nonneg [of "\<lparr>le_Count = n\<rparr>"] assms(4,5) by auto
  ultimately show ?thesis by blast
qed

text \<open>A run of the sample stream: the handler up to the end, the heartbeat goroutine's exit, and
  the return.\<close>

definition sample_events_request :: request where
  "sample_events_request = (sample_request (hset Map.empty ''Accept'' ContentStreamJSON) [1])
     \<lparr>req_path := ''/v1/events.list''\<rparr>"

definition sample_events :: "Event list" where
  "sample_events = [\<lparr>ev_Sequence = 0, ev_Message = ''event-0''\<rparr>]"

definition sample_events_start :: "Event hs" where
  "sample_events_start = stream_start (stream_codec (dl_event sample_demo_lib) sample_events_request)
     (setServiceHeaders (rw_SetHeader ''Content-Type'' ContentStreamJSON (new_rw True)))
     DefaultHeartbeatInterval (listEvents sample_demo_lib sample_events_request)"

definition sample_events_end :: "Event hs" where
  "sample_events_end = run_main 9 (the (step_hb TakeStop (run_main 9 sample_events_start)))"

lemma sample_events_simps [simp]:
  "req_method sample_events_request = ''POST''" "req_path sample_events_request = ''/v1/events.list''"
  "req_header sample_events_request = hset Map.empty ''Accept'' ContentStreamJSON"
  "req_body sample_events_request = sample_source [1]"
  by (simp_all add: sample_events_request_def sample_request_def)

lemma sample_events_carries: "carries (dl_events_req sample_demo_lib) sample_events_request \<lparr>le_Count = 1\<rparr>"
  by (simp add: carries_def sample_demo_lib_def no_content_type http_simps)

lemma sample_events_listed: "ListEvents \<lparr>le_Count = 1\<rparr> = Some sample_events"
  by (simp add: ListEvents_def sample_events_def) (simp add: itoa_eval)

lemma sample_events_plan:
  "listEvents sample_demo_lib sample_events_request = send_all sample_events (SClose None SReturn)"
  using ReadRequest_carries [OF sample_events_carries] sample_events_listed
  by (auto simp: listEvents_def)

lemma sample_event_lib:
  "dl_event sample_demo_lib = lib_of (\<lambda>m. ucast (ev_Sequence m) # bytes_of_string (ev_Message m))
     (\<lambda>b. \<lparr>ev_Sequence = ucast (hd b), ev_Message = string_of_bytes (tl b)\<rparr>)"
  by (simp add: sample_demo_lib_def)

lemma sample_events_served:
  "ServeHTTP sample_demo_lib NewService (new_rw True) sample_events_request =
    (Inr sample_events_start, NewService)"
  by (simp add: ServeHTTP_def HandleStream_def sample_events_start_def heartbeat_interval_def Let_def
      stream_codec_def) (simp add: new_rw_def)

lemma sample_events_stopping:
  "hs_hb (run_main 9 sample_events_start) = HSelect" "hs_stop (run_main 9 sample_events_start)"
  by (simp_all add: sample_events_start_def sample_events_plan sample_events_def stream_start_def
      DefaultHeartbeatInterval_def eval_nat_numeral step_main_def Send_crit_def begin_frame_def
      end_frame_def stopHeartbeat_def rw_Write_def new_rw_def Let_def flag_defs
      sample_event_lib)

lemma sample_events_reach: "hs_reach sample_events_start sample_events_end"
proof -
  let ?m = "run_main 9 sample_events_start"
  have "step_hb TakeStop ?m = Some (hb_exit ?m)" by (simp add: step_hb_def sample_events_stopping)
  with run_stop_reach [OF this] show ?thesis by (simp add: sample_events_end_def)
qed

lemma sample_events_done:
  "hs_main sample_events_end = MDone" "length (hs_log sample_events_end) = 2"
  by (simp_all add: sample_events_end_def sample_events_start_def sample_events_plan sample_events_def
      stream_start_def DefaultHeartbeatInterval_def eval_nat_numeral step_main_def step_hb_def hb_exit_def
      Send_crit_def Close_crit_def close_payload_def begin_frame_def
      end_frame_def stopHeartbeat_def rw_Write_def new_rw_def Let_def flag_defs
      sample_event_lib)

lemma sample_events_codec:
  "\<forall>m \<in> set sample_events. roundtrips (stream_codec (dl_event sample_demo_lib) sample_events_request) m \<and>
    wire_size (stream_codec (dl_event sample_demo_lib) sample_events_request) m \<le> 4000000"
  by (simp add: sample_events_def roundtrips_def wire_size_def sample_event_lib)

theorem demo_events_end_to_end_witness:
  "\<exists>sr. DoStream (dl_event sample_demo_lib) \<lparr>cl_MaxFramePayload = 0, cl_HeartbeatTimeout = 0\<rparr> (\<lambda>s. s)
      (\<lambda>_. Inr (sample_stream_response (rw_body (hs_w sample_events_end)))) sample_events_request =
        Some (Inr sr) \<and>
    recv_all 9 False sr = Some [Inr \<lparr>ev_Sequence = 0, ev_Message = ''event-0''\<rparr>, Inl EOF]"
proof -
  have d: "delivered (hs_w sample_events_end) (sample_stream_response (rw_body (hs_w sample_events_end)))"
    by (rule sample_stream_delivered [OF sample_events_reach [unfolded sample_events_start_def] refl])
  show ?thesis
    using demo_events_end_to_end [OF sample_events_served fresh_new_rw sample_events_carries _
        sample_events_listed sample_events_codec sample_events_reach sample_events_done(1) d,
        where tr = "\<lambda>_. Inr (sample_stream_response (rw_body (hs_w sample_events_end)))" and k = 9
          and cl = "\<lparr>cl_MaxFramePayload = 0, cl_HeartbeatTimeout = 0\<rparr>"]
    by (simp add: sample_events_done sample_events_def)
qed

section \<open>Concurrent calls of the content store\<close>

text \<open>C22: However concurrent calls of StoreContent and GetContent interleave, no call accesses the map
  while a store does, and the calls behave as if they ran one after the other: in the order of the
  log, each gives the result it returns and together they give the content. A call that has
  returned is in that order and one that has not begun is not, so a call that returned before
  another began comes first.\<close>

theorem content_store_linearizable:
  assumes "store_reach ops s (pcs, sh)"
  shows "replay ops s (sh_log sh) = Some (sh_service sh) \<and> distinct (map fst (sh_log sh)) \<and>
    (\<forall>i < length ops. \<forall>r. (pcs ! i = Returned r \<longrightarrow> (i, r) \<in> set (sh_log sh)) \<and>
       (pcs ! i = Ready \<longrightarrow> i \<notin> fst ` set (sh_log sh))) \<and>
    (\<forall>i < length ops. \<forall>j < length ops. i \<noteq> j \<longrightarrow> pcs ! i = InBody \<longrightarrow> pcs ! j = InBody \<longrightarrow>
       \<not> is_store (ops ! i))"
proof -
  note inv = store_inv [OF assms]
  have len: "length pcs = length ops" using inv by (simp add: log_inv_def)
  have "\<not> is_store (ops ! i)" if "i < length ops" "j < length ops" "i \<noteq> j" "pcs ! i = InBody" "pcs ! j = InBody" for i j
    using lock_excludes [of ops pcs sh i j] inv that len by simp
  moreover have "replay ops s (sh_log sh) = Some (sh_service sh)" "distinct (map fst (sh_log sh))"
    using inv by (simp_all add: log_inv_def)
  moreover have "(i, r) \<in> set (sh_log sh) \<longleftrightarrow> finished (pcs ! i) = Some r" if "i < length ops" for i r
    using inv that len by (auto simp: log_inv_def)
  ultimately show ?thesis by force
qed

text \<open>One goroutine runs to its end while another stores.\<close>

fun run_schedule :: "content_op list \<Rightarrow> nat list \<Rightarrow> op_pc list \<times> shared \<Rightarrow> op_pc list \<times> shared" where
  "run_schedule ops [] t = t"
| "run_schedule ops (i # is) (pcs, sh) =
     run_schedule ops is
       (if i < length pcs then
          (case op_step i (ops ! i) (pcs ! i) sh of Some (pc', sh') \<Rightarrow> (pcs[i := pc'], sh') | None \<Rightarrow> (pcs, sh))
        else (pcs, sh))"

lemma run_schedule_reach:
  "store_reach ops s t \<Longrightarrow> store_reach ops s (run_schedule ops is t)"
proof (induction ops "is" t rule: run_schedule.induct)
  case (2 ops i "is" pcs sh)
  have "store_reach ops s (pcs[i := pc'], sh')"
    if "i < length pcs" "op_step i (ops ! i) (pcs ! i) sh = Some (pc', sh')" for pc' sh'
    using 2(2) store_step.call [of i pcs ops sh pc' sh'] that
    by (auto simp: store_reach_def intro: rtranclp.rtrancl_into_rtrancl)
  with 2 show ?case by (auto split: option.splits)
qed simp

theorem content_store_linearizable_witness:
  "\<exists>pcs sh. store_reach [OpGet ''a'', OpStore ''a'' ''t'' [1], OpGet ''a''] NewService (pcs, sh) \<and>
     pcs ! 2 = Returned (Got (Inr (''t'', [1]))) \<and> (2, Got (Inr (''t'', [1]))) \<in> set (sh_log sh)"
proof -
  let ?ops = "[OpGet ''a'', OpStore ''a'' ''t'' [1], OpGet ''a'']"
  let ?t = "run_schedule ?ops [1, 0, 1, 1, 2, 1, 2, 0, 2, 2, 2] (store_start ?ops NewService)"
  obtain pcs sh where t: "?t = (pcs, sh)" by (cases ?t)
  have reach: "store_reach ?ops NewService (pcs, sh)"
    unfolding t [symmetric] by (rule run_schedule_reach) (simp add: store_reach_def)
  have "pcs ! 2 = Returned (Got (Inr (''t'', [1])))"
    using t by (auto simp: store_start_def acquire_def release_def NewService_def StoreContent_def
        GetContent_def numeral_2_eq_2)
  moreover from content_store_linearizable [OF reach] this
  have "(2, Got (Inr (''t'', [1]))) \<in> set (sh_log sh)" by simp
  ultimately show ?thesis using reach by blast
qed

text \<open>The calls of the content store never deadlock and always finish: as long as one of them has
  not returned some call can go on, and no run takes more than four steps for each call.\<close>

theorem content_store_completes:
  assumes "(store_step ops ^^ n) (store_start ops s) (pcs, sh)"
  shows "n + sum_list (map op_rank pcs) = 4 * length ops \<and>
    ((\<exists>i < length ops. \<forall>r. pcs ! i \<noteq> Returned r) \<longrightarrow> (\<exists>t. store_step ops (pcs, sh) t))"
proof
  show "n + sum_list (map op_rank pcs) = 4 * length ops"
    using assms
  proof (induction n arbitrary: pcs sh)
    case 0
    then show ?case by (auto simp: store_start_def sum_list_replicate)
  next
    case (Suc n)
    then obtain pcs' sh' where "(store_step ops ^^ n) (store_start ops s) (pcs', sh')"
      "store_step ops (pcs', sh') (pcs, sh)" by auto
    with Suc.IH [of pcs' sh'] store_step_rank [of ops pcs' sh' pcs sh] show ?case by simp
  qed
  have "store_reach ops s (pcs, sh)" using assms unfolding store_reach_def by (rule relpowp_imp_rtranclp)
  from store_inv [OF this] show "(\<exists>i < length ops. \<forall>r. pcs ! i \<noteq> Returned r) \<longrightarrow> (\<exists>t. store_step ops (pcs, sh) t)"
    using store_progress [of ops pcs sh] by (auto simp: log_inv_def)
qed

theorem content_store_completes_witness:
  "\<exists>t. store_step [OpGet ''a'', OpStore ''a'' ''t'' [1]] (store_start [OpGet ''a'', OpStore ''a'' ''t'' [1]] NewService) t"
proof -
  let ?ops = "[OpGet ''a'', OpStore ''a'' ''t'' [1]]"
  obtain pcs sh where t: "store_start ?ops NewService = (pcs, sh)" by (cases "store_start ?ops NewService")
  then have "(store_step ?ops ^^ 0) (store_start ?ops NewService) (pcs, sh)" "pcs ! 0 = Ready"
    by (auto simp: store_start_def)
  with content_store_completes [OF this(1)] show ?thesis unfolding t by auto
qed

end
