(* ===== verification/Test_Properties.thy ===== *)
theory Test_Properties
  imports Test_Service Demo_Properties
begin

text \<open>
  What the test service gives its client, through the library: a stream with each of its endings,
  and each way to fail.
\<close>

section \<open>The stream\<close>

definition sample_test_lib :: test_lib where
  "sample_test_lib =
     \<lparr>tl_errors_req = lib_of (\<lambda>m. bytes_of_string (er_Case m)) (\<lambda>b. \<lparr>er_Case = string_of_bytes b\<rparr>),
      tl_stream_req = lib_of (\<lambda>m. [ucast (sq_Count m)])
        (\<lambda>b. \<lparr>sq_Count = ucast (hd b), sq_ErrorAt = [], sq_CloseWithPayload = True\<rparr>),
      tl_item = lib_of (\<lambda>m. ucast (it_Sequence m) # bytes_of_string (it_Data m))
        (\<lambda>b. \<lparr>it_Sequence = ucast (hd b), it_Data = string_of_bytes (tl b)\<rparr>),
      tl_none = lib_of (\<lambda>_. []) (\<lambda>_. ())\<rparr>"

lemma sample_test_simps [simp]:
  "tl_errors_req sample_test_lib = lib_of (\<lambda>m. bytes_of_string (er_Case m)) (\<lambda>b. \<lparr>er_Case = string_of_bytes b\<rparr>)"
  "tl_stream_req sample_test_lib = lib_of (\<lambda>m. [ucast (sq_Count m)])
    (\<lambda>b. \<lparr>sq_Count = ucast (hd b), sq_ErrorAt = [], sq_CloseWithPayload = True\<rparr>)"
  "tl_item sample_test_lib = lib_of (\<lambda>m. ucast (it_Sequence m) # bytes_of_string (it_Data m))
    (\<lambda>b. \<lparr>it_Sequence = ucast (hd b), it_Data = string_of_bytes (tl b)\<rparr>)"
  "tl_none sample_test_lib = lib_of (\<lambda>_. []) (\<lambda>_. ())"
  by (simp_all add: sample_test_lib_def)

definition sample_newreq :: "string \<Rightarrow> new_request" where
  "sample_newreq path m url b =
     (if m = ''POST'' then Inr ((sample_request Map.empty b)\<lparr>req_path := path\<rparr>) else Inl (ErrText ''invalid method''))"

definition sample_test_client :: test_Client where
  "sample_test_client = \<lparr>te_endpoint = [], te_Client = \<lparr>cl_MaxFramePayload = 0, cl_HeartbeatTimeout = 0\<rparr>\<rparr>"

definition sample_stream_req :: StreamRequest where
  "sample_stream_req = \<lparr>sq_Count = 1, sq_ErrorAt = [], sq_CloseWithPayload = True\<rparr>"

definition sample_items :: "StreamItem list" where
  "sample_items = [\<lparr>it_Sequence = 0, it_Data = ''item-0''\<rparr>]"

definition sample_test_request :: request where
  "sample_test_request = req_SetHeader ''Accept'' ContentStreamJSON
     (req_SetHeader ''Content-Type'' ContentTypeJSON ((sample_request Map.empty [1])\<lparr>req_path := ''/v1/test.stream''\<rparr>))"

definition sample_test_start :: "StreamItem hs" where
  "sample_test_start = stream_start (lib_json (tl_item sample_test_lib))
     (setServiceHeaders (rw_SetHeader ''Content-Type'' ContentStreamJSON (new_rw True)))
     DefaultHeartbeatInterval (handleTestStream sample_test_lib sample_test_request)"

definition sample_test_end :: "StreamItem hs" where
  "sample_test_end = run_main 9 (the (step_hb TakeStop (run_main 9 sample_test_start)))"

lemma sample_test_request_simps [simp]:
  "req_path sample_test_request = ''/v1/test.stream''" "req_body sample_test_request = sample_source [1]"
  "hget (req_header sample_test_request) ''Accept'' = ContentStreamJSON"
  "hget (req_header sample_test_request) ''Content-Type'' = ContentTypeJSON"
  by (simp_all add: sample_test_request_def req_SetHeader_def sample_request_def http_simps)

lemma sample_TestStream: "TestStream sample_stream_req = Some (sample_items, None)"
  by (simp add: TestStream_def sample_stream_req_def sample_items_def) (simp add: itoa_eval)

lemma sample_test_handler:
  "handleTestStream sample_test_lib sample_test_request = send_all sample_items (finish_stream sample_stream_req None)"
proof -
  have "carries (tl_stream_req sample_test_lib) sample_test_request sample_stream_req"
    by (simp add: carries_def request_codec_json sample_stream_req_def)
  from ReadRequest_carries [OF this] sample_TestStream show ?thesis by (auto simp: handleTestStream_def)
qed

lemmas sample_test_run_defs =
  sample_test_start_def sample_test_handler sample_items_def sample_stream_req_def finish_stream_def
  stream_start_def DefaultHeartbeatInterval_def eval_nat_numeral step_main_def step_hb_def hb_exit_def
  Send_crit_def Close_crit_def close_payload_def begin_frame_def end_frame_def stopHeartbeat_def
  rw_Write_def new_rw_def Let_def flag_defs

lemma sample_test_stopping:
  "hs_hb (run_main 9 sample_test_start) = HSelect" "hs_stop (run_main 9 sample_test_start)"
  by (simp_all add: sample_test_run_defs)

lemma sample_test_reach: "hs_reach sample_test_start sample_test_end"
proof -
  have "step_hb TakeStop (run_main 9 sample_test_start) = Some (hb_exit (run_main 9 sample_test_start))"
    by (simp add: step_hb_def sample_test_stopping)
  with run_stop_reach [OF this] show ?thesis by (simp add: sample_test_end_def)
qed

lemma sample_test_done: "hs_main sample_test_end = MDone" "length (hs_log sample_test_end) = 2"
  by (simp_all add: sample_test_end_def sample_test_run_defs)

lemma sample_test_served:
  "test_ServeHTTP sample_test_lib rnd (new_rw True) sample_test_request = Streaming sample_test_start"
  by (simp add: test_ServeHTTP_def HandleStream_def sample_test_start_def heartbeat_interval_def Let_def)
    (simp add: new_rw_def)

lemma sample_ending_codec: "ending_codec (lib_json (tl_item sample_test_lib)) sample_stream_req"
proof -
  have "\<exists>b. sample_marshal_reply (failure_reply sample_stream_req) = Inr b \<and> length b \<le> 4000000"
    by (simp add: sample_marshal_reply_def failure_reply_def sample_stream_req_def bytes_of_string_def)
  then obtain b where "sample_marshal_reply (failure_reply sample_stream_req) = Inr b" "length b \<le> 4000000"
    by blast
  with sample_reply_roundtrip [OF this(1)] show ?thesis
    by (simp add: ending_codec_def roundtrips_def wire_size_def final_item_def sample_stream_req_def)
      (simp add: codec_of_def)
qed

text \<open>C20: A client with the default frame limit that asks the test service for n items, n not
  negative, in a request of at most 5 MB receives the items 0 to n-1 in order and then the ending
  it asked for: a client error with the given message and code 500 under status 200, or a final
  message with sequence number n before io.EOF, or io.EOF at once; if the codec gives each message
  and the error's reply back, none of their encodings takes more than 4,000,000 bytes and the final
  message's is not empty. This is through the whole stack: the client's request, routing, request
  decoding, handler, frames and heartbeats in every interleaving, transport, frame reader and
  message decoding.\<close>

theorem test_stream_end_to_end:
  assumes "marshal_app (lib_json (tl_stream_req lib)) req = Inr payload"
    and "unmarshal_app (lib_json (tl_stream_req lib)) payload = Inr req" and "length payload \<le> 5000000"
    and "newreq ''POST'' (te_endpoint cl @ ''/v1/test.stream'') payload = Inr r0"
    and "r = req_SetHeader ''Accept'' ContentStreamJSON (req_SetHeader ''Content-Type'' ContentTypeJSON r0)"
    and "req_path r = ''/v1/test.stream''" and "src_content (req_body r) = payload" and "src_err (req_body r) = EOF"
    and "TestStream req = Some (items, err)"
    and "\<forall>m \<in> set items. roundtrips (lib_json (tl_item lib)) m \<and> wire_size (lib_json (tl_item lib)) m \<le> 4000000"
    and "ending_codec (lib_json (tl_item lib)) req"
    and "test_ServeHTTP lib rnd w r = Streaming s0" and "fresh w" and "hs_reach s0 t" and "hs_main t = MDone"
    and "delivered (hs_w t) resp" and "tr r = Inr resp" and "cl_MaxFramePayload (te_Client cl) = 0"
    and "length (hs_log t) + 1 < k"
  shows "\<exists>sr. client_TestStream lib cancelled newreq tr cl req = Some (Inr sr) \<and>
    recv_all k ctx sr = Some (map Inr items @ stream_ending req) \<and>
    map it_Sequence items = map word_of_int [0..sint (sq_Count req) - 1]"
proof -
  let ?lib = "tl_item lib" and ?c = "lib_json (tl_item lib)"
  have start: "HandleStream ?lib w r (handleTestStream lib) None = Inr s0"
    using assms(6,12) by (auto simp: test_ServeHTTP_def split: sum.splits)
  have c: "stream_codec ?lib r = ?c"
    using assms(5) by (simp add: stream_codec_def req_SetHeader_def http_simps)
  have "carries (tl_stream_req lib) r req"
    using assms(2,3,5,7,8) by (simp add: carries_def request_codec_json req_SetHeader_def http_simps)
  from ReadRequest_carries [OF this] obtain b where
    "ReadRequest (tl_stream_req lib) r (word_of_int (5 * MegaByte)) = Some (Inr req, r\<lparr>req_body := b\<rparr>)" ..
  then have h: "handleTestStream lib r = send_all items (finish_stream req err)"
    using assms(9) by (simp add: handleTestStream_def)
  have rt: "\<forall>m \<in> set items. roundtrips ?c m" using assms(10) by blast
  note plan = plan_send_all [OF rt, of "finish_stream req err"]
  note finish = finish_stream_plan [OF assms(9,11)]
  have "\<forall>(flag, x) \<in> set (plan (handleTestStream lib r) (stream_codec ?lib r) False).
      fits (if cl_MaxFramePayload (te_Client cl) = 0 then DefaultMaxFramePayload else cl_MaxFramePayload (te_Client cl)) x"
    using assms(10,18) finish(2) unfolding c h plan by (auto simp: roundtrips_size)
  from stream_received [OF start assms(13-16), where tr = tr and req = r and cl = "te_Client cl" and n = k
      and cancelled = cancelled and ctx = ctx, OF assms(17) this assms(19)]
  obtain sr where "DoStream ?lib (te_Client cl) cancelled tr r = Some (Inr sr)"
    "recv_all k ctx sr = Some (map Inr items @ stream_ending req)"
    unfolding c h plan recv_send_all [OF rt] finish(1) by blast
  moreover have "client_TestStream lib cancelled newreq tr cl req = DoStream ?lib (te_Client cl) cancelled tr r"
    using assms(1,4,5) by (simp add: client_TestStream_def)
  moreover have "map it_Sequence items = map word_of_int [0..sint (sq_Count req) - 1]"
    using assms(9) by (auto simp: TestStream_def split: if_splits)
  ultimately show ?thesis by simp
qed

theorem test_stream_end_to_end_witness:
  "\<exists>sr. client_TestStream sample_test_lib (\<lambda>s. s) (sample_newreq ''/v1/test.stream'')
      (\<lambda>_. Inr (sample_stream_response (rw_body (hs_w sample_test_end)))) sample_test_client sample_stream_req =
        Some (Inr sr) \<and>
    recv_all 9 False sr = Some [Inr \<lparr>it_Sequence = 0, it_Data = ''item-0''\<rparr>,
      Inr \<lparr>it_Sequence = 1, it_Data = []\<rparr>, Inl EOF]"
proof -
  have d: "delivered (hs_w sample_test_end) (sample_stream_response (rw_body (hs_w sample_test_end)))"
    by (rule sample_stream_delivered [OF sample_test_reach [unfolded sample_test_start_def] refl])
  have ending: "map Inr sample_items @ stream_ending sample_stream_req =
      [Inr \<lparr>it_Sequence = 0, it_Data = ''item-0''\<rparr>, Inr \<lparr>it_Sequence = 1, it_Data = []\<rparr>, Inl EOF]"
    by (simp add: sample_items_def stream_ending_def final_item_def sample_stream_req_def)
  have "\<exists>sr. client_TestStream sample_test_lib (\<lambda>s. s) (sample_newreq ''/v1/test.stream'')
      (\<lambda>_. Inr (sample_stream_response (rw_body (hs_w sample_test_end)))) sample_test_client sample_stream_req =
        Some (Inr sr) \<and>
    recv_all 9 False sr = Some (map Inr sample_items @ stream_ending sample_stream_req) \<and>
    map it_Sequence sample_items = map word_of_int [0..sint (sq_Count sample_stream_req) - 1]"
    by (rule test_stream_end_to_end [where r = sample_test_request and payload = "[1]"
          and r0 = "(sample_request Map.empty [1])\<lparr>req_path := ''/v1/test.stream''\<rparr>",
          OF _ _ _ _ sample_test_request_def _ _ _ sample_TestStream _ sample_ending_codec sample_test_served fresh_new_rw
          sample_test_reach sample_test_done(1) d])
      (simp_all add: sample_newreq_def sample_stream_req_def sample_test_client_def
        sample_items_def roundtrips_def wire_size_def sample_test_done)
  with ending show ?thesis by auto
qed

section \<open>The errors\<close>

text \<open>What the service answers, where it answers with a reply of its own.\<close>

definition errors_answer :: "ErrorsRequest \<Rightarrow> int \<times> string" where
  "errors_answer req =
     (if er_Case req = CaseNotImplemented then (501, ''no such method; /v1/test.errors'')
      else (500, ''while reading the database: EOF''))"

lemma ReplyWithCode_error:
  "msg \<noteq> [] \<Longrightarrow> ReplyWithCode lib w r code None msg = ReplyError lib w r (NewServiceError code msg None None)"
  by (simp add: ReplyWithCode_def ReplyError_def code_reply_def service_ProtoMessage_def service_Message_def go_simps)

lemma errors_request_read:
  assumes "r = req_SetHeader ''Content-Type'' ContentTypeProtoBuf r0" and "src_err (req_body r) = EOF"
    and "unmarshal_app (lib_proto (tl_errors_req lib)) (src_content (req_body r)) = Inr req"
  shows "\<exists>s. ReadRequest (tl_errors_req lib) r 0 = Some (Inr req, r\<lparr>req_body := s\<rparr>)"
proof -
  have "request_codec (tl_errors_req lib) r = Some (lib_proto (tl_errors_req lib))"
    using assms(1) by (simp add: request_codec_def req_SetHeader_def http_simps json_types_def)
      (simp add: ContentTypeProtoBuf_def)
  from ReadRequest_unlimited [OF assms(2) this] assms(3) show ?thesis by simp
qed

text \<open>A request the service refuses, as not implemented or with an error of its own, gives the
  client an error with the code, the message and the status of that refusal.\<close>

theorem test_errors_end_to_end:
  assumes "er_Case req \<in> {CaseNotImplemented, CaseServiceReturnedError}" and "errors_answer req = (code, msg)"
    and "marshal_app (lib_proto (tl_errors_req lib)) req = Inr payload"
    and "unmarshal_app (lib_proto (tl_errors_req lib)) payload = Inr req"
    and "newreq ''POST'' (te_endpoint cl @ ''/v1/test.errors'') payload = Inr r0"
    and "r = req_SetHeader ''Content-Type'' ContentTypeProtoBuf r0"
    and "req_path r = ''/v1/test.errors''" and "hget (req_header r) ''Accept'' = []"
    and "src_content (req_body r) = payload" and "src_err (req_body r) = EOF"
    and "test_ServeHTTP lib rnd w r = Answered (Some (w', r'))" and "fresh w"
    and "delivered w' resp" and "tr r = Inr resp"
    and "marshal_reply (lib_json (tl_none lib)) \<lparr>r_code = Itoa code, r_message = msg, r_details = None\<rparr> = Inr b"
    and "unmarshal_reply (lib_json (tl_none lib)) b = Inr \<lparr>r_code = Itoa code, r_message = msg, r_details = None\<rparr>"
  shows "\<exists>err s. client_TestErrors lib newreq tr cl req = Some (Inl err, Some s) \<and> src_closed s \<and>
    service_error_of \<lparr>r_code = Itoa code, r_message = msg, r_details = None\<rparr> code
      (hget (resp_header resp) ''Retry-After'') err"
proof -
  let ?lib = "tl_none lib" and ?err = "NewServiceError code msg None None"
  from errors_request_read [OF assms(6,10)] assms(4,9) obtain s where
    read: "ReadRequest (tl_errors_req lib) r 0 = Some (Inr req, r\<lparr>req_body := s\<rparr>)" by auto
  have code: "final_status code" "code \<noteq> CodeOK" "msg \<noteq> []"
    using assms(2) by (auto simp: errors_answer_def final_status_def CodeOK_def split: if_splits)
  have served: "ReplyError ?lib w (r\<lparr>req_body := s\<rparr>) ?err = Some (w', r')"
    using assms(1,2,7,11) read code
    by (auto simp: test_ServeHTTP_def handleTestErrors_def errors_answer_def case_defs TestErrors_def
        ReplyWithCode_error code_defs split: if_splits)
  have e: "As_Error ?err = Some (DService (serviceError None (Some (ErrText msg)) (Itoa code) code))"
    using code by (simp add: NewServiceError_def NewServiceErrorWithCode_def go_simps)
  have rc: "reply_codec ?lib (r\<lparr>req_body := s\<rparr>) = Some (ContentTypeJSON, lib_json ?lib)"
    by (rule reply_codec_json) (simp add: assms(8))
  have "client_TestErrors lib newreq tr cl req = Do ?lib tr r"
    using assms(1,3,5,6) by (auto simp: client_TestErrors_def errors_payload_def case_defs Let_def)
  with error_received [where tr = tr and req = r, OF assms(12) e _ _ rc _ _ served assms(13,14)] code assms(15,16)
  show ?thesis by (simp add: service_ProtoMessage_def service_Message_def)
qed

text \<open>The other ways to fail, as a request that is routed to the method and decodes.\<close>

definition errors_call :: "test_lib \<Rightarrow> new_request \<Rightarrow> test_Client \<Rightarrow> ErrorsRequest \<Rightarrow> request \<Rightarrow> bool" where
  "errors_call lib newreq cl req r \<longleftrightarrow>
     (\<exists>payload r0. errors_payload lib req = Inr payload \<and>
        newreq ''POST'' (te_endpoint cl @ ''/v1/test.errors'') payload = Inr r0 \<and>
        r = req_SetHeader ''Content-Type'' ContentTypeProtoBuf r0 \<and> req_path r = ''/v1/test.errors'' \<and>
        src_content (req_body r) = payload \<and> src_err (req_body r) = EOF \<and>
        unmarshal_app (lib_proto (tl_errors_req lib)) payload = Inr req)"

lemma errors_call_read:
  assumes "errors_call lib newreq cl req r" and "er_Case req \<noteq> CaseInvalidMethod"
  shows "\<exists>s. ReadRequest (tl_errors_req lib) r 0 = Some (Inr req, r\<lparr>req_body := s\<rparr>)"
    and "client_TestErrors lib newreq tr cl req = Do (tl_none lib) tr r" and "req_path r = ''/v1/test.errors''"
  using assms errors_request_read [of r _ lib req]
  by (auto simp: errors_call_def client_TestErrors_def Let_def)

text \<open>
  A 404 that is no reply of the service reaches the client as an infrastructure error with the
  response's text. The response carries no version header; its content type is the server's guess
  from the text, and neither JSON nor protobuf.
\<close>

theorem test_infrastructure_error:
  assumes "errors_call lib newreq cl req r" and "er_Case req = CaseInfrastructureError" and "fresh w"
    and "hget (rw_header w) HeaderDUHVersion = []"
    and "test_ServeHTTP lib rnd w r = Answered (Some (w', r'))" and "tr r = Inr resp"
    and "rw_status w' = Some (resp_StatusCode resp)" and "src_content (resp_body resp) = rw_body w'"
    and "src_err (resp_body resp) = EOF"
    and "hget (resp_header resp) HeaderDUHVersion = hget (rw_sent w') HeaderDUHVersion"
    and "unmarshalForMediaType (tl_none lib) (hget (resp_header resp) ''Content-Type'') = None"
  shows "\<exists>e s. client_TestErrors lib newreq tr cl req = Some (Inl (ClientErr e), Some s) \<and> src_closed s \<and>
    ce_isInfraError e \<and> ce_httpCode e = 404 \<and> ce_msg e = ''Not Found''"
proof -
  have ne: "er_Case req \<noteq> CaseInvalidMethod" using assms(2) by (simp add: case_defs)
  note call = errors_call_read [OF assms(1) ne]
  have w': "w' = snd (rw_Write (bytes_of_string ''Not Found'') (rw_WriteHeader 404 w))"
    using call(1,3) assms(2,5) by (auto simp: test_ServeHTTP_def handleTestErrors_def)
  have "rw_status w' = Some 404" "rw_body w' = bytes_of_string ''Not Found''" "rw_sent w' = rw_header w"
    using assms(3) by (simp_all add: w' fresh_def rw_Write_ok rw_WriteHeader_def)
  then have resp: "resp_StatusCode resp = 404" "src_content (resp_body resp) = bytes_of_string ''Not Found''"
    "hget (resp_header resp) HeaderDUHVersion = []" using assms(4,7,8,10) by simp_all
  then have "classify_response (tl_none lib) r resp (bytes_of_string ''Not Found'') =
      NewInfraError r resp (bytes_of_string ''Not Found'')"
    using assms(11) by (simp add: classify_response_def CodeNotFound_def)
  with handleErrorResponse_eq [of "tl_none lib" r resp] resp assms(6,9) call(2) [of tr] show ?thesis
    by (auto simp: Do_def CodeOK_def NewInfraError_def src_close_def)
qed

text \<open>
  A handler that panics in the middle of its response: it has written more than the 100000 bytes
  it was asked for, in whole chunks, and the client that finds the body cut off gets a client
  error that wraps the read error.
\<close>

theorem test_io_error:
  assumes "errors_call lib newreq cl req r" and "er_Case req = CaseClientIOError" and "fresh w"
    and "tr r = Inr resp" and "resp_StatusCode resp = CodeOK" and "src_err (resp_body resp) = ErrUnexpectedEOF"
  shows "\<exists>w' d e s. test_ServeHTTP lib rnd w r = Panicked w' \<and> rw_body w' = d \<and> length d = 102400 \<and>
    client_TestErrors lib newreq tr cl req = Some (Inl (ClientErr e), Some s) \<and> src_closed s \<and>
    \<not> ce_isInfraError e \<and> ce_httpCode e = CodeClientError"
proof -
  have ne: "er_Case req \<noteq> CaseInvalidMethod" using assms(2) by (simp add: case_defs)
  note call = errors_call_read [OF assms(1) ne]
  from chunkWriter_ok [of w rnd 100000] assms(3) obtain w' where
    w': "chunkWriter rnd w 100000 = (None, w')" "length (rw_body w') = 102400" by (auto simp: fresh_def)
  then have "test_ServeHTTP lib rnd w r = Panicked w'"
    using call(1,3) assms(2) by (auto simp: test_ServeHTTP_def handleTestErrors_def case_defs)
  moreover from copy_body [of "lib_room (tl_none lib)" "[]" "resp_body resp"] assms(4-6) call(2) [of tr]
  have "\<exists>s. client_TestErrors lib newreq tr cl req = Some (Inl (read_error r resp ErrUnexpectedEOF), Some s) \<and> src_closed s"
    by (auto simp: Do_def src_close_def)
  ultimately show ?thesis using w'(2) by (auto simp: read_error_def)
qed

text \<open>
  A case the service does not know is no error to it: the handler passes the nil error on to
  ReplyError, which calls a method of it and panics before anything is written.
\<close>

theorem test_unknown_case_panics:
  assumes "errors_call lib newreq cl req r"
    and "er_Case req \<notin> {CaseInvalidMethod, CaseClientIOError, CaseNotImplemented, CaseInfrastructureError,
      CaseServiceReturnedError}"
  shows "test_ServeHTTP lib rnd w r = Panicked w"
  using errors_call_read(1,3) [OF assms(1)] assms(2)
  by (auto simp: test_ServeHTTP_def handleTestErrors_def TestErrors_def)

text \<open>A request with an invalid method is refused before anything is sent.\<close>

theorem test_invalid_method:
  assumes "er_Case req = CaseInvalidMethod" and "marshal_app (lib_proto (tl_errors_req lib)) req = Inr payload"
    and "newreq ''invalid method'' (te_endpoint cl @ ''/v1/test.errors'') payload = Inl err"
  shows "client_TestErrors lib newreq tr cl req =
    Some (Inl (ClientErr (ClientError None [] (Some err) False ''452'' 452)), None)"
  using assms
  by (simp add: client_TestErrors_def errors_payload_def case_defs Let_def NewClientError_def CodeClientError_def
      itoa_eval)

end
