(* ===== verification/Retry.thy ===== *)
theory Retry
  imports Errors
begin

text \<open>
  retry/retry.go and policies.go: intervals, policies, the decision to retry and the loop
  \<open>On\<close>. The world the loop runs in (the context, the clock, the random sources) is the
  record \<open>world\<close> over a state of any type; the operation is a function of the attempt
  number on that state. The loop may run for ever, so it is a partial function.

  \<open>math.Pow\<close> and \<open>strconv.ParseFloat\<close> are arguments; so is the result \<open>oor\<close> of
  converting a float that fits no \<open>int64\<close>, which the language leaves open.
\<close>

type_synonym duration = int64

definition Millisecond :: int where "Millisecond = 1000000"
definition Second :: int where "Second = 1000000000"

record float_lib =
  fl_Pow :: "float64 \<Rightarrow> float64 \<Rightarrow> float64"
  fl_ParseFloat :: "string \<Rightarrow> error + float64"
  fl_oor :: "float64 \<Rightarrow> int64"

section \<open>Intervals\<close>

record BackOff =
  bo_Min :: duration
  bo_Max :: duration
  bo_Factor :: float64
  bo_Jitter :: float64
  bo_Rand :: bool

text \<open>
  The delay before jitter and limits, then \<open>Next\<close>; \<open>r\<close> is the random number the call
  draws, from the policy's own source if it has one.
\<close>

definition raw_delay :: "float_lib \<Rightarrow> BackOff \<Rightarrow> int64 \<Rightarrow> duration" where
  "raw_delay fl b attempts =
     int64_of_float (fl_oor fl)
       (fmul (float64_of_int (sint (bo_Min b)))
             (fl_Pow fl (bo_Factor b) (float64_of_int (sint attempts))))"

definition BackOff_Next :: "float_lib \<Rightarrow> BackOff \<Rightarrow> float64 \<Rightarrow> int64 \<Rightarrow> duration" where
  "BackOff_Next fl b r attempts =
     (let d0 = raw_delay fl b attempts;
          d = (if fless (Fin 0) (bo_Jitter b)
               then int64_of_float (fl_oor fl)
                      (fmul (fmul r (bo_Jitter b)) (float64_of_int (sint d0)))
               else d0)
      in if sint (bo_Max b) < sint d then bo_Max b
         else if sint d < sint (bo_Min b) then bo_Min b else d)"

definition DefaultBackOff :: BackOff where
  "DefaultBackOff = \<lparr>bo_Min = word_of_int (500 * Millisecond), bo_Max = word_of_int (5 * Second),
     bo_Factor = Fin 2, bo_Jitter = fround (1 / 5), bo_Rand = False\<rparr>"

datatype interval = IBackOff BackOff | ISleep duration

text \<open>The context and the world around the loop.\<close>

record 's world =
  ctx_Err :: "'s \<Rightarrow> error option"
  rand_Float64 :: "bool \<Rightarrow> 's \<Rightarrow> float64 \<times> 's"
  await :: "duration \<Rightarrow> 's \<Rightarrow> bool \<times> 's"

text \<open>
  \<open>await d s\<close> is the \<open>select\<close> on the timer and the context: \<open>True\<close> when the timer
  case is taken. The random draw of \<open>BackOff.Next\<close> is always taken from the shared source
  and, if the policy has its own, then from that one.
\<close>

definition jitter_draw :: "'s world \<Rightarrow> BackOff \<Rightarrow> 's \<Rightarrow> float64 \<times> 's" where
  "jitter_draw w b s =
     (if fless (Fin 0) (bo_Jitter b) then
        (case rand_Float64 w False s of (r, s1) \<Rightarrow>
           (if bo_Rand b then rand_Float64 w True s1 else (r, s1)))
      else (Fin 0, s))"

fun interval_Next :: "float_lib \<Rightarrow> 's world \<Rightarrow> interval \<Rightarrow> int64 \<Rightarrow> 's \<Rightarrow> duration \<times> 's" where
  "interval_Next fl w (IBackOff b) attempts s =
     (case jitter_draw w b s of (r, s1) \<Rightarrow> (BackOff_Next fl b r attempts, s1))"
| "interval_Next fl w (ISleep d) attempts s = (d, s)"

section \<open>Policies\<close>

record Policy =
  p_Interval :: "interval option"
  p_OnCodes :: "int list option"
  p_OnInfraCodes :: "int list option"
  p_Attempts :: int64

definition Twice :: Policy where
  "Twice = \<lparr>p_Interval = Some (IBackOff DefaultBackOff), p_OnCodes = None, p_OnInfraCodes = None,
     p_Attempts = 2\<rparr>"

definition UntilSuccess :: Policy where
  "UntilSuccess = \<lparr>p_Interval = Some (IBackOff DefaultBackOff), p_OnCodes = None,
     p_OnInfraCodes = None, p_Attempts = 0\<rparr>"

definition RetryableCodes :: "int list" where
  "RetryableCodes = [CodeTooManyRequests, CodeRetryRequest, CodeInternalError]"

definition RetryableInfraCodes :: "int list" where
  "RetryableInfraCodes = [CodeNotFound, 502, 503, 504]"

definition OnRetryable :: Policy where
  "OnRetryable = \<lparr>p_Interval = Some (IBackOff DefaultBackOff), p_OnCodes = Some RetryableCodes,
     p_OnInfraCodes = Some RetryableInfraCodes, p_Attempts = 0\<rparr>"

text \<open>\<open>errors.As\<close> for the interface \<open>infraChecker\<close>, which \<open>ClientError\<close> alone has.\<close>

fun As_infra :: "error \<Rightarrow> ClientError option" where
  "As_infra (ClientErr e) = Some e"
| "As_infra (ErrWrap s e) = As_infra e"
| "As_infra _ = None"

text \<open>\<open>httpCoder\<close> and \<open>detailer\<close> are satisfied by the types that satisfy \<open>duh.Error\<close>.\<close>

definition shouldRetry :: "error \<Rightarrow> Policy \<Rightarrow> bool" where
  "shouldRetry err p =
     (if p_OnCodes p = None \<and> p_OnInfraCodes p = None then True
      else (case As_Error err of
        None \<Rightarrow> False
      | Some hc \<Rightarrow>
          (if (case As_infra err of Some ic \<Rightarrow> IsInfraError ic | None \<Rightarrow> False)
           then (case p_OnInfraCodes p of Some cs \<Rightarrow> duh_HTTPCode hc \<in> set cs | None \<Rightarrow> False)
           else (case p_OnCodes p of Some cs \<Rightarrow> duh_HTTPCode hc \<in> set cs | None \<Rightarrow> False))))"

definition detailRateLimitReset :: string where "detailRateLimitReset = ''ratelimit-reset''"
definition detailRetryAfter :: string where "detailRetryAfter = ''http.retry-after''"

fun first_duration :: "float_lib \<Rightarrow> (string \<rightharpoonup> string) \<Rightarrow> string list \<Rightarrow> duration" where
  "first_duration fl details [] = 0"
| "first_duration fl details (key # keys) =
     (case details key of
        None \<Rightarrow> first_duration fl details keys
      | Some v \<Rightarrow>
          (case fl_ParseFloat fl v of
             Inl _ \<Rightarrow> first_duration fl details keys
           | Inr seconds \<Rightarrow>
               (if fless (Fin 0) seconds
                then int64_of_float (fl_oor fl) (fmul seconds (float64_of_int Second))
                else first_duration fl details keys)))"

definition rateLimitDuration :: "float_lib \<Rightarrow> error \<Rightarrow> duration" where
  "rateLimitDuration fl err =
     (case As_Error err of
        None \<Rightarrow> 0
      | Some d \<Rightarrow>
          (case duh_Details d of
             None \<Rightarrow> 0
           | Some details \<Rightarrow> first_duration fl details [detailRateLimitReset, detailRetryAfter]))"

section \<open>The loop\<close>

text \<open>The same world beside further state, which only the operation changes.\<close>

definition beside :: "'s world \<Rightarrow> ('s \<times> 'x) world" where
  "beside w = \<lparr>ctx_Err = (\<lambda>(s, x). ctx_Err w s),
     rand_Float64 = (\<lambda>own (s, x). case rand_Float64 w own s of (r, s') \<Rightarrow> (r, s', x)),
     await = (\<lambda>d (s, x). case await w d s of (b, s') \<Rightarrow> (b, s', x))\<rparr>"

text \<open>A panic, or the error \<open>On\<close> returns.\<close>

datatype outcome = Panic string | Return "error option"

definition sleep_duration ::
  "float_lib \<Rightarrow> 's world \<Rightarrow> interval \<Rightarrow> error \<Rightarrow> int64 \<Rightarrow> 's \<Rightarrow> duration \<times> 's" where
  "sleep_duration fl w iv err attempt s =
     (let d = rateLimitDuration fl err in
      if d = 0 then interval_Next fl w iv attempt s else (d, s))"

partial_function (option) On_loop ::
  "float_lib \<Rightarrow> 's world \<Rightarrow> Policy \<Rightarrow> interval \<Rightarrow> (int64 \<Rightarrow> 's \<Rightarrow> error option \<times> 's) \<Rightarrow>
    int64 \<Rightarrow> 's \<Rightarrow> (error option \<times> 's) option" where
  "On_loop fl w p iv op attempt s =
     (case ctx_Err w s of
        Some e \<Rightarrow> Some (Some e, s)
      | None \<Rightarrow>
          (case op attempt s of
             (None, s1) \<Rightarrow> Some (None, s1)
           | (Some err, s1) \<Rightarrow>
               (if p_Attempts p \<noteq> 0 \<and> sint (p_Attempts p) \<le> sint attempt then Some (Some err, s1)
                else if shouldRetry err p then
                  (case sleep_duration fl w iv err attempt s1 of (d, s2) \<Rightarrow>
                     (case await w d s2 of (fired, s3) \<Rightarrow>
                        (if fired then On_loop fl w p iv op (attempt + 1) s3
                         else Some (ctx_Err w s3, s3))))
                else Some (Some err, s1))))"

definition On ::
  "float_lib \<Rightarrow> 's world \<Rightarrow> Policy \<Rightarrow> (int64 \<Rightarrow> 's \<Rightarrow> error option \<times> 's) \<Rightarrow> 's \<Rightarrow>
    (outcome \<times> 's) option" where
  "On fl w p op s =
     (case p_Interval p of
        None \<Rightarrow> Some (Panic ''Policy.Interval cannot be nil'', s)
      | Some iv \<Rightarrow> map_option (\<lambda>(e, s'). (Return e, s')) (On_loop fl w p iv op 1 s))"

section \<open>Lemmas: intervals\<close>

lemma first_duration_seconds:
  assumes "details key = Some v" and "fl_ParseFloat fl v = Inr (Fin (of_int n))"
    and "0 < n" and "n < 9000000"
  shows "sint (first_duration fl details (key # keys)) = n * Second"
proof -
  have s: "float64_of_int Second = Fin (of_int Second)"
    by (rule float64_of_int_small) (simp add: Second_def)
  have "fround (of_int n * of_int Second) = Fin (of_int (n * Second))"
    using fround_int [of "n * Second"] assms(3,4) by (simp add: Second_def abs_mult)
  moreover have "sint (int64_of_float (fl_oor fl) (Fin (of_int (n * Second)))) = n * Second"
    using assms(3,4) by (intro int64_of_float_int) (simp add: Second_def abs_mult)
  ultimately show ?thesis using assms by (simp add: s)
qed

section \<open>Lemmas: the loop\<close>

text \<open>
  Recording: the same loop in a world whose state also holds the list of the attempt numbers
  the operation was called with.
\<close>

definition record_calls ::
  "(int64 \<Rightarrow> 's \<Rightarrow> error option \<times> 's) \<Rightarrow> int64 \<Rightarrow> 's \<times> int64 list \<Rightarrow> error option \<times> 's \<times> int64 list" where
  "record_calls op attempt = (\<lambda>(s, calls).
     case op attempt s of (e, s') \<Rightarrow> (e, s', calls @ [attempt]))"

lemma beside_simps [simp]:
  "ctx_Err (beside w) (s, x) = ctx_Err w s"
  "await (beside w) d (s, x) = (fst (await w d s), snd (await w d s), x)"
  by (simp_all add: beside_def split: prod.splits)

lemma record_calls_simp [simp]:
  "record_calls op attempt (s, calls) = (fst (op attempt s), snd (op attempt s), calls @ [attempt])"
  by (simp add: record_calls_def split: prod.splits)

lemma sleep_duration_beside [simp]:
  "sleep_duration fl (beside w) iv err attempt (s, calls) =
     (fst (sleep_duration fl w iv err attempt s), snd (sleep_duration fl w iv err attempt s), calls)"
  by (cases iv)
    (auto simp: sleep_duration_def Let_def jitter_draw_def beside_def split: prod.splits)

text \<open>One more turn of the loop.\<close>

lemma On_loop_again:
  assumes "ctx_Err w s = None" and "op attempt s = (Some err, s1)"
    and "p_Attempts p = 0 \<or> sint attempt < sint (p_Attempts p)" and "shouldRetry err p"
    and "sleep_duration fl w iv err attempt s1 = (d, s2)" and "await w d s2 = (True, s3)"
  shows "On_loop fl w p iv op attempt s = On_loop fl w p iv op (attempt + 1) s3"
proof -
  have "\<not> (p_Attempts p \<noteq> 0 \<and> sint (p_Attempts p) \<le> sint attempt)" using assms(3) by auto
  with assms show ?thesis by (simp only: On_loop.simps [of fl w p iv op attempt s]) simp
qed

text \<open>With a bound on the attempts the loop ends, the calls being numbered from one.\<close>

lemma On_loop_bounded:
  assumes "p_Attempts p \<noteq> 0" and "1 \<le> sint attempt"
    and "sint attempt \<le> max 1 (sint (p_Attempts p))"
  shows "\<exists>r s' n. On_loop fl (beside w) p iv (record_calls op) attempt (s, calls) =
      Some (r, s', calls @ map word_of_int [sint attempt..n]) \<and> n \<le> max 1 (sint (p_Attempts p))"
  using assms
proof (induction "nat (sint (p_Attempts p) - sint attempt)" arbitrary: attempt s calls rule: less_induct)
  case less
  obtain e s1 where op: "op attempt s = (e, s1)" by force
  show ?case
  proof (cases "ctx_Err w s")
    case (Some c)
    then show ?thesis using less.prems
      by (intro exI [of _ "Some c"] exI [of _ s] exI [of _ "sint attempt - 1"])
        (simp add: On_loop.simps)
  next
    case None
    have once: "\<exists>r s' n. On_loop fl (beside w) p iv (record_calls op) attempt (s, calls) =
        Some (r, s', calls @ map word_of_int [sint attempt..n]) \<and> n \<le> max 1 (sint (p_Attempts p))"
      if "On_loop fl (beside w) p iv (record_calls op) attempt (s, calls) =
        Some (r, s', calls @ [attempt])" for r s'
      using that less.prems by (intro exI [of _ r] exI [of _ s'] exI [of _ "sint attempt"]) simp
    show ?thesis
    proof (cases e)
      case None
      with op \<open>ctx_Err w s = None\<close> show ?thesis by (intro once) (simp add: On_loop.simps)
    next
      case (Some err)
      obtain d s2 where sl: "sleep_duration fl w iv err attempt s1 = (d, s2)" by force
      obtain fired s3 where aw: "await w d s2 = (fired, s3)" by force
      show ?thesis
      proof (cases "(p_Attempts p \<noteq> 0 \<and> sint (p_Attempts p) \<le> sint attempt) \<or>
          \<not> shouldRetry err p \<or> \<not> fired")
        case True
        show ?thesis
          by (rule once [of "if (p_Attempts p \<noteq> 0 \<and> sint (p_Attempts p) \<le> sint attempt) \<or>
              \<not> shouldRetry err p then Some err else ctx_Err w s3"
              "if (p_Attempts p \<noteq> 0 \<and> sint (p_Attempts p) \<le> sint attempt) \<or>
              \<not> shouldRetry err p then s1 else s3"])
            (use True op Some None sl aw in \<open>auto simp: On_loop.simps\<close>)
      next
        case False
        have up: "sint (p_Attempts p) < 2 ^ 63" using sint_lt [of "p_Attempts p"] by simp
        have next_attempt: "sint (attempt + 1) = sint attempt + 1"
          using sint_add_int64 [of attempt 1] less.prems(1,2) False up by auto
        have "\<exists>r s' n. On_loop fl (beside w) p iv (record_calls op) (attempt + 1)
            (s3, calls @ [attempt]) =
            Some (r, s', (calls @ [attempt]) @ map word_of_int [sint (attempt + 1)..n]) \<and>
            n \<le> max 1 (sint (p_Attempts p))"
          using False less.prems by (intro less.hyps) (auto simp: next_attempt)
        then obtain r s' n where rec: "On_loop fl (beside w) p iv (record_calls op) (attempt + 1)
            (s3, calls @ [attempt]) =
            Some (r, s', (calls @ [attempt]) @ map word_of_int [sint attempt + 1..n])"
          "n \<le> max 1 (sint (p_Attempts p))" by (auto simp: next_attempt)
        have again: "On_loop fl (beside w) p iv (record_calls op) attempt (s, calls) =
            On_loop fl (beside w) p iv (record_calls op) (attempt + 1) (s3, calls @ [attempt])"
          by (rule On_loop_again [of _ _ _ _ err "(s1, calls @ [attempt])" _ _ _ d "(s2, calls @ [attempt])"])
            (use False op Some None sl aw in auto)
        show ?thesis
        proof (cases "sint attempt \<le> n")
          case True
          then have "[sint attempt..n] = sint attempt # [sint attempt + 1..n]"
            by (rule upto_rec1)
          with rec again show ?thesis
            by (intro exI [of _ r] exI [of _ s'] exI [of _ n]) simp
        next
          case nle: False
          with rec again show ?thesis by (intro once) auto
        qed
      qed
    qed
  qed
qed

text \<open>\<open>On\<close> reports success only when the operation did.\<close>

lemma On_loop_nil:
  assumes "On_loop fl w p iv op attempt s = Some (None, s')"
    and "\<forall>d s. \<not> fst (await w d s) \<longrightarrow> ctx_Err w (snd (await w d s)) \<noteq> None"
  shows "\<exists>n s0. op n s0 = (None, s')"
proof -
  let ?P = "\<lambda>fl w p iv op attempt s (r, s').
    (\<forall>d s. \<not> fst (await w d s) \<longrightarrow> ctx_Err w (snd (await w d s)) \<noteq> None) \<longrightarrow>
    r = None \<longrightarrow> (\<exists>n s0. op n s0 = (None, s'))"
  have "?P fl w p iv op attempt s (None :: error option, s')"
  proof (rule On_loop.raw_induct [where P = ?P, OF _ assms(1)], goal_cases)
    case (1 loop fl w p iv op attempt s y)
    obtain r t where y: "y = (r, t)" by (cases y)
    obtain e s1 where op: "op attempt s = (e, s1)" by force
    show ?case
    proof (cases "ctx_Err w s = None \<and> (\<exists>err. e = Some err)")
      case True
      then obtain err where e: "e = Some err" and c: "ctx_Err w s = None" by blast
      obtain d s2 where sl: "sleep_duration fl w iv err attempt s1 = (d, s2)" by force
      obtain fired s3 where aw: "await w d s2 = (fired, s3)" by force
      show ?thesis
      proof (cases "\<not> (p_Attempts p \<noteq> 0 \<and> sint (p_Attempts p) \<le> sint attempt) \<and> shouldRetry err p \<and> fired")
        case True
        then have "loop fl w p iv op (attempt + 1) s3 = Some y"
          using 1(2) op e c sl aw by (auto split: if_splits)
        from 1(1) [OF this] show ?thesis .
      next
        case False
        then have "r = Some err \<or> (\<not> fired \<and> r = ctx_Err w s3)"
          using 1(2) op e c sl aw unfolding y by (auto split: if_splits)
        then have "r = None \<Longrightarrow> \<exists>d s. \<not> fst (await w d s) \<and> ctx_Err w (snd (await w d s)) = None"
          using aw by (metis fst_conv snd_conv option.discI)
        then show ?thesis unfolding y by blast
      qed
    next
      case False
      with 1(2) op show ?thesis unfolding y by (auto split: option.splits)
    qed
  qed
  then show ?thesis using assms(2) by simp
qed

text \<open>
  In a calm world, where the context stays alive and timers fire, an operation that fails with
  retryable errors until its \<open>k\<close>-th call is called exactly \<open>k\<close> times.
\<close>

lemma On_loop_eventually:
  assumes "\<And>s. ctx_Err w s = None" and "\<And>d s. fst (await w d s)"
    and "\<And>i s. 1 \<le> i \<Longrightarrow> i < k \<Longrightarrow>
      \<exists>err. fst (op (word_of_int i) s) = Some err \<and> shouldRetry err p"
    and "\<And>s. fst (op (word_of_int k) s) = None"
    and "p_Attempts p = 0 \<or> k \<le> sint (p_Attempts p)"
    and "1 \<le> i" and "i \<le> k" and "k < 2 ^ 63"
  shows "\<exists>s'. On_loop fl (beside w) p iv (record_calls op) (word_of_int i) (s, calls) =
    Some (None, s', calls @ map word_of_int [i..k])"
  using assms(6,7)
proof (induction "nat (k - i)" arbitrary: i s calls)
  case 0
  then have "i = k" by simp
  with assms(1,4) show ?case
    by (simp add: On_loop.simps split: prod.splits)
next
  case (Suc n)
  then have lt: "i < k" by simp
  have i: "sint (word_of_int i :: int64) = i"
    using lt assms(8) Suc.prems by (intro sint_of_int64) simp_all
  from assms(3) [OF Suc.prems(1) lt, of s] obtain err where
    err: "fst (op (word_of_int i) s) = Some err" "shouldRetry err p" by blast
  have more: "p_Attempts p = 0 \<or> \<not> sint (p_Attempts p) \<le> i" using assms(5) lt by linarith
  have inc: "(word_of_int i + 1 :: int64) = word_of_int (i + 1)" by simp
  define s3 where "s3 = snd (await w
    (fst (sleep_duration fl w iv err (word_of_int i) (snd (op (word_of_int i) s))))
    (snd (sleep_duration fl w iv err (word_of_int i) (snd (op (word_of_int i) s)))))"
  have "\<exists>s'. On_loop fl (beside w) p iv (record_calls op) (word_of_int (i + 1))
      (s3, calls @ [word_of_int i]) =
    Some (None, s', (calls @ [word_of_int i]) @ map word_of_int [i + 1..k])"
    using Suc lt by (intro Suc.hyps) auto
  moreover have "On_loop fl (beside w) p iv (record_calls op) (word_of_int i) (s, calls) =
      On_loop fl (beside w) p iv (record_calls op) (word_of_int (i + 1))
        (s3, calls @ [word_of_int i])"
  proof -
    obtain s1 where op: "op (word_of_int i) s = (Some err, s1)" using err(1) by (metis prod.collapse)
    obtain d s2 where sl: "sleep_duration fl w iv err (word_of_int i) s1 = (d, s2)" by force
    have aw: "await w d s2 = (True, s3)"
      using assms(2) [of d s2] by (simp add: s3_def op sl prod_eq_iff)
    show ?thesis unfolding inc [symmetric]
      by (rule On_loop_again [of _ _ _ _ err "(s1, calls @ [word_of_int i])" _ _ _ d
            "(s2, calls @ [word_of_int i])"])
        (use assms(1) err(2) more i op sl aw in auto)
  qed
  moreover have "[i..k] = i # [i + 1..k]" using lt by (intro upto_rec1) simp
  ultimately show ?case by simp
qed

end
