(* ===== verification/Pagination.thy ===== *)
theory Pagination
  imports Retry
begin

text \<open>
  pagination.go: the iterator over a paginated endpoint. The caller's \<open>fetch\<close> is a
  function of the cursor on the state of the world, giving items, page and error together as
  the Go function does. With a retry policy each page is fetched through \<open>retry.On\<close>; the
  variables its closure assigns are carried beside the world's state.
\<close>

record Page =
  EndCursor :: string
  HasNextPage :: bool

type_synonym ('a, 's) fetch = "string \<Rightarrow> 's \<Rightarrow> ('a list \<times> Page \<times> error option) \<times> 's"

record ('a, 's) Iterator =
  it_fetch :: "('a, 's) fetch"
  it_retryPolicy :: "Policy option"
  it_cursor :: string
  it_err :: "error option"
  it_done :: bool

text \<open>The only option, \<open>WithRetryPolicy\<close>, sets the policy; the last one given wins.\<close>

definition NewIterator :: "('a, 's) fetch \<Rightarrow> Policy list \<Rightarrow> ('a, 's) Iterator" where
  "NewIterator fetch opts =
     \<lparr>it_fetch = fetch, it_retryPolicy = fold (\<lambda>p _. Some p) opts None, it_cursor = [],
      it_err = None, it_done = False\<rparr>"

text \<open>The closure passed to \<open>retry.On\<close>.\<close>

definition fetch_op ::
  "('a, 's) fetch \<Rightarrow> string \<Rightarrow> int64 \<Rightarrow> 's \<times> 'a list \<times> Page \<Rightarrow> error option \<times> 's \<times> 'a list \<times> Page" where
  "fetch_op fetch cursor attempt = (\<lambda>(s, _).
     case fetch cursor s of ((items, pg, err), s') \<Rightarrow> (err, s', items, pg))"

text \<open>What \<open>Next\<close> does with the outcome of a fetch; \<open>page\<close> is the caller's slice.\<close>

definition finish_page ::
  "('a, 's) Iterator \<Rightarrow> 'a list \<Rightarrow> 'a list \<Rightarrow> Page \<Rightarrow> error option \<Rightarrow>
    bool \<times> 'a list \<times> ('a, 's) Iterator" where
  "finish_page it page items pg err =
     (case err of
        Some e \<Rightarrow> (False, page, it\<lparr>it_err := Some e, it_done := True\<rparr>)
      | None \<Rightarrow>
          (True, items,
           it\<lparr>it_cursor := EndCursor pg, it_done := (if HasNextPage pg then it_done it else True)\<rparr>))"

text \<open>The result is a panic's message or what \<open>Next\<close> returns.\<close>

definition Iterator_Next ::
  "float_lib \<Rightarrow> 's world \<Rightarrow> ('a, 's) Iterator \<Rightarrow> 'a list \<Rightarrow> 's \<Rightarrow>
    ((string + bool \<times> 'a list \<times> ('a, 's) Iterator) \<times> 's) option" where
  "Iterator_Next fl w it page s =
     (if it_done it then Some (Inr (False, page, it), s)
      else
        (case it_retryPolicy it of
           None \<Rightarrow>
             (case it_fetch it (it_cursor it) s of ((items, pg, err), s') \<Rightarrow>
                Some (Inr (finish_page it page items pg err), s'))
         | Some p \<Rightarrow>
             (case On fl (beside w) p (fetch_op (it_fetch it) (it_cursor it))
                     (s, [], \<lparr>EndCursor = [], HasNextPage = False\<rparr>) of
                None \<Rightarrow> None
              | Some (Panic m, s', _) \<Rightarrow> Some (Inl m, s')
              | Some (Return err, s', items, pg) \<Rightarrow>
                  Some (Inr (finish_page it page items pg err), s'))))"

definition Iterator_Err :: "('a, 's) Iterator \<Rightarrow> error option" where
  "Iterator_Err it = it_err it"

text \<open>The caller's loop \<open>for it.Next(ctx, &page)\<close>, at most \<open>n\<close> turns.\<close>

fun collect ::
  "nat \<Rightarrow> float_lib \<Rightarrow> 's world \<Rightarrow> ('a, 's) Iterator \<Rightarrow> 's \<Rightarrow>
    ('a list list \<times> ('a, 's) Iterator \<times> 's) option" where
  "collect 0 fl w it s = None"
| "collect (Suc n) fl w it s =
     (case Iterator_Next fl w it [] s of
        Some (Inr (True, page, it'), s') \<Rightarrow>
          map_option (\<lambda>(pages, r). (page # pages, r)) (collect n fl w it' s')
      | Some (Inr (False, page, it'), s') \<Rightarrow> Some ([], it', s')
      | _ \<Rightarrow> None)"

section \<open>Lemmas\<close>

text \<open>An endpoint that serves \<open>pages\<close>, the \<open>i\<close>-th one at the cursor \<open>cur i\<close>.\<close>

definition serves :: "('a, 's) fetch \<Rightarrow> (nat \<Rightarrow> string) \<Rightarrow> 'a list list \<Rightarrow> bool" where
  "serves fetch cur pages \<longleftrightarrow> cur 0 = [] \<and>
     (\<forall>i < length pages. \<forall>s. fst (fetch (cur i) s) =
        (pages ! i, \<lparr>EndCursor = cur (Suc i), HasNextPage = (Suc i < length pages)\<rparr>, None))"

lemma On_first_success:
  assumes "ctx_Err w s = None" and "op 1 s = (None, s')" and "p_Interval p \<noteq> None"
  shows "On fl w p op s = Some (Return None, s')"
  using assms by (auto simp: On_def On_loop.simps)

lemma Next_fetched:
  assumes "\<not> it_done it" and "fst (it_fetch it (it_cursor it) s) = (items, pg, None)"
    and "\<And>p. it_retryPolicy it = Some p \<Longrightarrow> p_Interval p \<noteq> None \<and> ctx_Err w s = None"
  shows "\<exists>s'. Iterator_Next fl w it page s = Some (Inr (finish_page it page items pg None), s')"
proof (cases "it_retryPolicy it")
  case None
  with assms(1,2) show ?thesis
    by (cases "it_fetch it (it_cursor it) s") (auto simp: Iterator_Next_def)
next
  case (Some p)
  obtain s' where f: "it_fetch it (it_cursor it) s = ((items, pg, None), s')"
    using assms(2) by (metis prod.collapse)
  have "On fl (beside w) p (fetch_op (it_fetch it) (it_cursor it))
      (s, [], \<lparr>EndCursor = [], HasNextPage = False\<rparr>) = Some (Return None, s', items, pg)"
    using assms(3) [OF Some] f by (intro On_first_success) (simp_all add: fetch_op_def)
  with Some assms(1) show ?thesis by (simp add: Iterator_Next_def)
qed

lemma collect_from:
  assumes "serves (it_fetch it) cur pages" and "\<not> it_done it" and "it_cursor it = cur i"
    and "i < length pages" and "length pages - i < n"
    and "\<And>p. it_retryPolicy it = Some p \<Longrightarrow> p_Interval p \<noteq> None \<and> (\<forall>s. ctx_Err w s = None)"
  shows "\<exists>it' s'. collect n fl w it s = Some (drop i pages, it', s') \<and> it_done it' \<and> it_err it' = it_err it"
  using assms
proof (induction n arbitrary: i it s)
  case 0
  then show ?case by simp
next
  case (Suc n)
  let ?pg = "\<lparr>EndCursor = cur (Suc i), HasNextPage = (Suc i < length pages)\<rparr>"
  have f: "fst (it_fetch it (it_cursor it) s) = (pages ! i, ?pg, None)"
    using Suc.prems(1,3,4) by (auto simp: serves_def)
  from Next_fetched [OF Suc.prems(2) f, of w] Suc.prems(6) obtain s' where s':
    "Iterator_Next fl w it [] s = Some (Inr (finish_page it [] (pages ! i) ?pg None), s')" by blast
  let ?it = "it\<lparr>it_cursor := cur (Suc i), it_done := (if Suc i < length pages then it_done it else True)\<rparr>"
  have fin: "finish_page it [] (pages ! i) ?pg None = (True, pages ! i, ?it)"
    by (simp add: finish_page_def)
  have split: "drop i pages = pages ! i # drop (Suc i) pages"
    using Suc.prems(4) by (simp add: Cons_nth_drop_Suc)
  show ?case
  proof (cases "Suc i < length pages")
    case True
    have "\<exists>it' s''. collect n fl w ?it s' = Some (drop (Suc i) pages, it', s'') \<and>
        it_done it' \<and> it_err it' = it_err ?it"
      using True Suc.prems by (intro Suc.IH) auto
    with s' fin split show ?thesis by auto
  next
    case False
    obtain m where "n = Suc m" using Suc.prems(4,5) by (cases n) auto
    with False Suc.prems(4) s' fin split show ?thesis
      by (auto simp: Iterator_Next_def)
  qed
qed

end
