(* ===== verification/Retry_Properties.thy ===== *)
theory Retry_Properties
  imports Pagination
begin

text \<open>
  Properties of retry/retry.go and pagination.go. The witnesses use a world whose context stays
  alive and whose timers fire, and exact powers of two.
\<close>

definition sample_floats :: float_lib where
  "sample_floats = \<lparr>fl_Pow = (\<lambda>x y. case (x, y) of (Fin a, Fin b) \<Rightarrow> Fin (a ^ nat \<lfloor>b\<rfloor>) | _ \<Rightarrow> NaN),
     fl_ParseFloat = (\<lambda>s. if s = ''3'' then Inr (Fin 3) else Inl (ErrText ''invalid syntax'')),
     fl_oor = (\<lambda>_. word_of_int (- (2 ^ 63)))\<rparr>"

definition calm_world :: "unit world" where
  "calm_world = \<lparr>ctx_Err = (\<lambda>_. None), rand_Float64 = (\<lambda>_ s. (Fin 0, s)), await = (\<lambda>_ s. (True, s))\<rparr>"

section \<open>Intervals\<close>

text \<open>C36: With factor 2, no jitter and 0 < Min <= Max, the delay after attempt number n is Min times
  2 to the n, cut off at Max, and no random number is drawn for it, as long as Min times 2 to the
  n is below 2^53 nanoseconds (104 days) and math.Pow gives the exact power.\<close>

theorem BackOff_exponential:
  assumes "bo_Jitter b = Fin 0" and "bo_Factor b = Fin 2" and "sint attempts = int n"
    and "fl_Pow fl (Fin 2) (Fin (of_nat n)) = Fin (2 ^ n)"
    and "0 < sint (bo_Min b)" and "sint (bo_Min b) \<le> sint (bo_Max b)"
    and "sint (bo_Min b) * 2 ^ n < 2 ^ 53"
  shows "\<exists>d. interval_Next fl w (IBackOff b) attempts s = (d, s) \<and>
    sint d = min (sint (bo_Min b) * 2 ^ n) (sint (bo_Max b))"
proof -
  define mn where "mn = sint (bo_Min b)"
  have "(1 :: int) \<le> 2 ^ n" by simp
  then have le: "mn \<le> mn * 2 ^ n" using assms(5) by (metis mn_def less_imp_le mult.right_neutral mult_left_mono)
  have "2 ^ n \<le> mn * 2 ^ n" using assms(5) by (simp add: mn_def)
  moreover have "int n < 2 ^ n" by (metis less_exp of_nat_less_iff of_nat_numeral of_nat_power)
  ultimately have "int n < mn * 2 ^ n" by linarith
  also have "\<dots> < 2 ^ 53" using assms(7) by (simp only: mn_def)
  finally have "int n < 2 ^ 53" .
  then have n: "float64_of_int (int n) = Fin (of_nat n)" using float64_of_int_small [of "int n"] by simp
  have "mn < 2 ^ 53" by (rule le_less_trans [OF le assms(7) [folded mn_def]])
  then have "float64_of_int mn = Fin (of_int mn)"
    using assms(5) by (intro float64_of_int_small) (simp add: mn_def)
  then have "raw_delay fl b attempts = int64_of_float (fl_oor fl) (fround (of_int (mn * 2 ^ n)))"
    by (simp add: raw_delay_def assms(2-4) n flip: mn_def)
  also have "fround (of_int (mn * 2 ^ n)) = Fin (of_int (mn * 2 ^ n))"
    using assms(5,7) by (intro fround_int) (simp add: abs_mult mn_def)
  finally have "sint (raw_delay fl b attempts) = mn * 2 ^ n"
    using assms(5,7) by (simp only:) (intro int64_of_float_int, simp add: abs_mult mn_def)
  then show ?thesis using assms(1,6) le
    by (auto simp: BackOff_Next_def jitter_draw_def Let_def min_def mn_def)
qed

theorem BackOff_exponential_witness:
  "\<exists>d. interval_Next sample_floats calm_world (IBackOff (DefaultBackOff\<lparr>bo_Jitter := Fin 0\<rparr>)) 2 () = (d, ()) \<and>
    sint d = 2000000000"
  using BackOff_exponential [of "DefaultBackOff\<lparr>bo_Jitter := Fin 0\<rparr>" 2 2 sample_floats calm_world "()"]
  by (simp add: DefaultBackOff_def Millisecond_def Second_def sint_of_int64 sample_floats_def)

section \<open>The loop\<close>

text \<open>C18: With a bound on the attempts, On always returns, whatever the operation, the context and
  the clock do; it calls the operation with the numbers 1, 2, 3, ... and never more often than
  Policy.Attempts (once, for a negative bound).\<close>

theorem On_bounded_attempts:
  assumes "p_Attempts p \<noteq> 0" and "p_Interval p = Some iv"
  shows "\<exists>r s' n. On fl (beside w) p (record_calls op) (s, []) =
      Some (Return r, s', map word_of_int [1..n]) \<and> n \<le> max 1 (sint (p_Attempts p))"
  using On_loop_bounded [OF assms(1), of 1 fl w iv op s "[]"] assms(2)
  by (auto simp: On_def)

theorem On_bounded_attempts_witness:
  "\<exists>r s' n. On sample_floats (beside calm_world) Twice
      (record_calls (\<lambda>_ s. (Some (ErrText ''down''), s))) ((), []) =
      Some (Return r, s', map word_of_int [1..n]) \<and> n \<le> 2"
  using On_bounded_attempts [of Twice "IBackOff DefaultBackOff" sample_floats calm_world
      "\<lambda>_ s. (Some (ErrText ''down''), s)" "()"]
  by (simp add: Twice_def)

text \<open>C19: If the context stays alive and the operation fails with retryable errors until its k-th
  call, which succeeds, then On returns nil after exactly k calls, numbered 1 to k, for an
  unlimited policy and for one that allows k attempts.\<close>

theorem On_retries_until_success:
  assumes "p_Interval p = Some iv" and "\<And>s. ctx_Err w s = None" and "\<And>d s. fst (await w d s)"
    and "\<And>i s. 1 \<le> i \<Longrightarrow> i < k \<Longrightarrow> \<exists>err. fst (op (word_of_int i) s) = Some err \<and> shouldRetry err p"
    and "\<And>s. fst (op (word_of_int k) s) = None"
    and "p_Attempts p = 0 \<or> k \<le> sint (p_Attempts p)" and "1 \<le> k" and "k < 2 ^ 63"
  shows "\<exists>s'. On fl (beside w) p (record_calls op) (s, []) =
    Some (Return None, s', map word_of_int [1..k])"
proof -
  have "\<exists>s'. On_loop fl (beside w) p iv (record_calls op) (word_of_int 1) (s, []) =
      Some (None, s', [] @ map word_of_int [1..k])"
    by (rule On_loop_eventually) (use assms in auto)
  with assms(1) show ?thesis by (auto simp: On_def)
qed

theorem On_retries_until_success_witness:
  "\<exists>s'. On sample_floats (beside calm_world) UntilSuccess
      (record_calls (\<lambda>i s. (if i = 3 then None else Some (ErrText ''down''), s))) ((), []) =
    Some (Return None, s', [1, 2, 3])"
proof -
  have "\<exists>s'. On sample_floats (beside calm_world) UntilSuccess
      (record_calls (\<lambda>i s. (if i = 3 then None else Some (ErrText ''down''), s))) ((), []) =
    Some (Return None, s', map word_of_int [1..3])"
  proof (rule On_retries_until_success)
    fix i :: int and s :: unit
    assume "1 \<le> i" "i < 3"
    then have "i = 1 \<or> i = 2" by linarith
    then show "\<exists>err. fst ((\<lambda>i s. (if i = 3 then None else Some (ErrText ''down''), s))
        (word_of_int i :: int64) s) = Some err \<and> shouldRetry err UntilSuccess"
      by (auto simp: shouldRetry_def UntilSuccess_def)
  qed (simp_all add: UntilSuccess_def calm_world_def)
  moreover have "[1..3] = [1, 2, 3 :: int]" by (simp add: upto.simps)
  ultimately show ?thesis by simp
qed

text \<open>On reports success only for a call of the operation that succeeded, and what it leaves
  behind is that call's result.\<close>

theorem On_success_is_real:
  assumes "On fl w p op s = Some (Return None, s')"
    and "\<forall>d s. \<not> fst (await w d s) \<longrightarrow> ctx_Err w (snd (await w d s)) \<noteq> None"
  shows "\<exists>n s0. op n s0 = (None, s')"
proof -
  from assms(1) obtain iv where "On_loop fl w p iv op 1 s = Some (None, s')"
    by (auto simp: On_def split: option.splits)
  from On_loop_nil [OF this assms(2)] show ?thesis .
qed

theorem On_success_is_real_witness:
  "\<exists>n s0. (\<lambda>(i :: int64) s. (None :: error option, Suc s)) n s0 = (None, 1)"
  using On_success_is_real [of sample_floats
      "\<lparr>ctx_Err = (\<lambda>_. None), rand_Float64 = (\<lambda>_ s. (Fin 0, s)), await = (\<lambda>_ s. (True, s))\<rparr>"
      Twice "\<lambda>i s. (None, Suc s)" 0 1]
  by (simp add: On_def Twice_def On_loop.simps)

text \<open>With a context that is already done the operation is never called; a context that ends
  while On waits ends the loop with the context's error and no further call.\<close>

theorem On_respects_context:
  assumes "p_Interval p = Some iv"
  shows "(ctx_Err w s = Some e \<longrightarrow> On fl w p op s = Some (Return (Some e), s)) \<and>
    (ctx_Err w s = None \<and> op 1 s = (Some err, s1) \<and> p_Attempts p = 0 \<and> shouldRetry err p \<and>
     sleep_duration fl w iv err 1 s1 = (d, s2) \<and> await w d s2 = (False, s3) \<longrightarrow>
     On fl w p op s = Some (Return (ctx_Err w s3), s3))"
  using assms by (auto simp: On_def On_loop.simps)

theorem On_respects_context_witness:
  "On sample_floats (calm_world\<lparr>ctx_Err := (\<lambda>_. Some Canceled)\<rparr>) Twice (\<lambda>_ s. (None, s)) () =
     Some (Return (Some Canceled), ())"
  using On_respects_context [of Twice "IBackOff DefaultBackOff"
      "calm_world\<lparr>ctx_Err := (\<lambda>_. Some Canceled)\<rparr>" "()" Canceled]
  by (simp add: Twice_def)

section \<open>Pagination\<close>

text \<open>C26: Iterating over an endpoint that serves pages by cursor yields all pages in order, each
  once, and then stops without an error, with and without a retry policy.\<close>

theorem iterator_yields_all_pages:
  assumes "serves fetch cur pages" and "pages \<noteq> []" and "length pages < n"
    and "\<forall>p \<in> set opts. p_Interval p \<noteq> None" and "\<And>s. ctx_Err w s = None"
  shows "\<exists>it s'. collect n fl w (NewIterator fetch opts) s = Some (pages, it, s') \<and>
    it_done it \<and> Iterator_Err it = None"
proof -
  let ?it = "NewIterator fetch opts"
  have last: "fold (\<lambda>p _. Some p) opts a = Some p \<Longrightarrow> p \<in> set opts \<or> a = Some p" for a and p :: Policy
    by (induction opts arbitrary: a) auto
  have "\<exists>it' s'. collect n fl w ?it s = Some (drop 0 pages, it', s') \<and> it_done it' \<and> it_err it' = it_err ?it"
  proof (rule collect_from)
    show "serves (it_fetch ?it) cur pages" using assms(1) by (simp add: NewIterator_def)
    show "it_cursor ?it = cur 0" using assms(1) by (simp add: NewIterator_def serves_def)
    fix p assume "it_retryPolicy ?it = Some p"
    then have "p \<in> set opts" using last [of None p] by (simp add: NewIterator_def)
    then show "p_Interval p \<noteq> None \<and> (\<forall>s. ctx_Err w s = None)" using assms(4,5) by simp
  qed (use assms(2,3) in \<open>auto simp: NewIterator_def\<close>)
  then show ?thesis by (auto simp: Iterator_Err_def NewIterator_def)
qed

definition sample_fetch :: "(nat, unit) fetch" where
  "sample_fetch cursor s =
     (if cursor = [] then (([1, 2], \<lparr>EndCursor = ''b'', HasNextPage = True\<rparr>, None), s)
      else (([3], \<lparr>EndCursor = ''c'', HasNextPage = False\<rparr>, None), s))"

theorem iterator_yields_all_pages_witness:
  "\<exists>it s'. collect 3 sample_floats calm_world (NewIterator sample_fetch [Twice]) () =
     Some ([[1, 2], [3]], it, s') \<and> it_done it \<and> Iterator_Err it = None"
proof (rule iterator_yields_all_pages)
  show "serves sample_fetch (\<lambda>i. if i = 0 then [] else if i = 1 then ''b'' else ''c'') [[1, 2], [3]]"
    by (auto simp: serves_def sample_fetch_def less_Suc_eq)
qed (simp_all add: Twice_def calm_world_def)

text \<open>A failed fetch ends the iteration: Next returns false, leaves the caller's page alone,
  keeps the error for Err, and every later call returns false without fetching.\<close>

theorem iterator_stops_on_error:
  assumes "\<not> it_done it" and "it_retryPolicy it = None"
    and "it_fetch it (it_cursor it) s = ((items, pg, Some e), s')"
  shows "\<exists>it'. Iterator_Next fl w it page s = Some (Inr (False, page, it'), s') \<and>
    Iterator_Err it' = Some e \<and>
    (\<forall>page2 s2. Iterator_Next fl w it' page2 s2 = Some (Inr (False, page2, it'), s2))"
  using assms by (simp add: Iterator_Next_def finish_page_def Iterator_Err_def)

theorem iterator_stops_on_error_witness:
  "\<exists>it'. Iterator_Next sample_floats calm_world
      (NewIterator (\<lambda>c s. (([7 :: nat], \<lparr>EndCursor = [], HasNextPage = True\<rparr>, Some EOF), s)) []) [5] () =
      Some (Inr (False, [5], it'), ()) \<and> Iterator_Err it' = Some EOF"
  using iterator_stops_on_error [of
      "NewIterator (\<lambda>c s. (([7 :: nat], \<lparr>EndCursor = [], HasNextPage = True\<rparr>, Some EOF), s)) []" "()"
      "[7]" "\<lparr>EndCursor = [], HasNextPage = True\<rparr>" EOF "()" sample_floats calm_world "[5]"]
  by (auto simp: NewIterator_def)

end
