(* ===== verification/Net_Addr.thy ===== *)
theory Net_Addr
  imports Errors
begin

text \<open>
  The network part of tls.go: \<open>discoverNetworkAddresses\<close> and \<open>discoverNetwork\<close>, over
  the parts of package net they use. An address is the byte slice Go has (\<open>net.IP\<close>, nil is
  the empty list); the textual form of IPv6 addresses, which these functions never produce, is
  an argument, as are the interfaces of the host and its name server.
\<close>

section \<open>net.IP\<close>

type_synonym ip = bytes

definition v4InV6Prefix :: bytes where
  "v4InV6Prefix = replicate 10 0 @ [255, 255]"

definition To4 :: "ip \<Rightarrow> ip" where
  "To4 ip = (if length ip = 4 then ip
     else if length ip = 16 \<and> take 12 ip = v4InV6Prefix then drop 12 ip else [])"

definition IPv6loopback :: ip where
  "IPv6loopback = replicate 15 0 @ [1]"

definition IsLoopback :: "ip \<Rightarrow> bool" where
  "IsLoopback ip = (if To4 ip \<noteq> [] then To4 ip ! 0 = 127 else ip = IPv6loopback)"

text \<open>IPv6 text forms: \<open>v6_parse\<close> and \<open>v6_text\<close>.\<close>

record net_text =
  v6_parse :: "string \<Rightarrow> ip"
  v6_text :: "ip \<Rightarrow> string"

definition dotted :: "bytes \<Rightarrow> string" where
  "dotted bs = Join (map (\<lambda>b. Itoa (uint b)) bs) ''.''"

definition IP_String :: "net_text \<Rightarrow> ip \<Rightarrow> string" where
  "IP_String nt ip =
     (if ip = [] then ''<nil>'' else if To4 ip \<noteq> [] then dotted (To4 ip) else v6_text nt ip)"

text \<open>A decimal field of a dotted address: no leading zero, at most 255.\<close>

definition parse_octet :: "string \<Rightarrow> byte option" where
  "parse_octet s =
     (if s \<noteq> [] \<and> (\<forall>c \<in> set s. 48 \<le> (of_char c :: nat) \<and> (of_char c :: nat) \<le> 57) \<and>
         (length s = 1 \<or> hd s \<noteq> CHR ''0'') \<and> atoi_nat s \<le> 255
      then Some (word_of_nat (atoi_nat s)) else None)"

definition parse_dotted :: "string \<Rightarrow> ip" where
  "parse_dotted s =
     (case map parse_octet (split_on (CHR ''.'') s) of
        [Some a, Some b, Some c, Some d] \<Rightarrow> v4InV6Prefix @ [a, b, c, d]
      | _ \<Rightarrow> [])"

text \<open>\<open>net.ParseIP\<close>: nil for what is no address or has a zone; IPv4 in its 16-byte form.\<close>

definition ParseIP :: "net_text \<Rightarrow> string \<Rightarrow> ip" where
  "ParseIP nt s =
     (case find (\<lambda>c. c \<in> {CHR ''.'', CHR '':'', CHR ''%''}) s of
        Some c \<Rightarrow>
          (if c = CHR ''.'' then parse_dotted s
           else if c = CHR '':'' then v6_parse nt s else [])
      | None \<Rightarrow> [])"

section \<open>discoverNetworkAddresses\<close>

datatype net_addr = IPNet ip | IPAddr ip | OtherAddr

record iface =
  if_Flags :: "64 word"
  if_Addrs :: "error + net_addr list"

definition FlagUp :: "64 word" where "FlagUp = 1"
definition FlagLoopback :: "64 word" where "FlagLoopback = 4"

fun addr_ip :: "net_addr \<Rightarrow> ip" where
  "addr_ip (IPNet ip) = ip"
| "addr_ip (IPAddr ip) = ip"
| "addr_ip OtherAddr = []"

text \<open>The inner loop, appending to the results so far.\<close>

fun add_addrs :: "net_text \<Rightarrow> net_addr list \<Rightarrow> string list \<Rightarrow> string list" where
  "add_addrs nt [] results = results"
| "add_addrs nt (addr # addrs) results =
     (let ip = addr_ip addr in
      if ip = [] \<or> IsLoopback ip then add_addrs nt addrs results
      else (let ip4 = To4 ip in
            if ip4 = [] then add_addrs nt addrs results
            else add_addrs nt addrs (results @ [IP_String nt ip4])))"

fun add_ifaces :: "net_text \<Rightarrow> iface list \<Rightarrow> string list \<Rightarrow> error + string list" where
  "add_ifaces nt [] results = Inr results"
| "add_ifaces nt (iface # ifaces) results =
     (if if_Flags iface AND FlagUp = 0 then add_ifaces nt ifaces results
      else if if_Flags iface AND FlagLoopback \<noteq> 0 then add_ifaces nt ifaces results
      else (case if_Addrs iface of
              Inl err \<Rightarrow> Inl err
            | Inr addrs \<Rightarrow> add_ifaces nt ifaces (add_addrs nt addrs results)))"

definition discoverNetworkAddresses ::
  "net_text \<Rightarrow> error + iface list \<Rightarrow> error + string list" where
  "discoverNetworkAddresses nt ifaces =
     (case ifaces of Inl err \<Rightarrow> Inl err | Inr is \<Rightarrow> add_ifaces nt is [])"

record netInfo =
  ni_IPAddresses :: "string list"
  ni_DNSNames :: "string list"

text \<open>The errors of the name server are dropped; it gives the names it found.\<close>

definition discoverNetwork ::
  "net_text \<Rightarrow> error + iface list \<Rightarrow> (string \<Rightarrow> string list) \<Rightarrow> error + netInfo" where
  "discoverNetwork nt ifaces LookupAddr =
     (case discoverNetworkAddresses nt ifaces of
        Inl err \<Rightarrow> Inl err
      | Inr ips \<Rightarrow>
          Inr \<lparr>ni_IPAddresses = ips,
               ni_DNSNames = fold (\<lambda>ip names. names @ LookupAddr ip) ips []\<rparr>)"

section \<open>Lemmas\<close>

text \<open>The addresses a host is reachable at, as a specification.\<close>

definition usable :: "iface \<Rightarrow> bool" where
  "usable i \<longleftrightarrow> if_Flags i AND FlagUp \<noteq> 0 \<and> if_Flags i AND FlagLoopback = 0"

definition external :: "net_addr \<Rightarrow> ip option" where
  "external a = (if \<not> IsLoopback (addr_ip a) \<and> To4 (addr_ip a) \<noteq> [] then Some (To4 (addr_ip a)) else None)"

lemma To4_Nil [simp]: "To4 [] = []"
  by (simp add: To4_def)

lemma To4_length: "To4 ip \<noteq> [] \<Longrightarrow> length (To4 ip) = 4"
  by (auto simp: To4_def split: if_splits)

lemma To4_To4 [simp]: "To4 (To4 ip) = To4 ip"
  by (auto simp: To4_def)

lemma To4_v4InV6 [simp]: "length bs = 4 \<Longrightarrow> To4 (v4InV6Prefix @ bs) = bs"
  by (simp add: To4_def v4InV6Prefix_def)

lemma add_addrs_eq:
  "add_addrs nt addrs results = results @ map dotted (List.map_filter external addrs)"
proof (induction nt addrs results rule: add_addrs.induct)
  case (2 nt addr addrs results)
  then show ?case by (auto simp: Let_def external_def IP_String_def List.map_filter_simps)
qed (simp add: List.map_filter_simps)

lemma map_filter_append [simp]: "List.map_filter f (xs @ ys) = List.map_filter f xs @ List.map_filter f ys"
  by (simp add: List.map_filter_def)

lemma add_ifaces_Inr:
  assumes "add_ifaces nt ifaces results = Inr ips"
  shows "ips = results @ map dotted (List.map_filter external
    (concat (map (\<lambda>i. projr (if_Addrs i)) (filter usable ifaces))))"
  using assms
proof (induction nt ifaces results rule: add_ifaces.induct)
  case (2 nt i ifaces results)
  then show ?case by (auto simp: usable_def add_addrs_eq split: if_splits sum.splits)
qed (simp add: List.map_filter_simps)

subsection \<open>Printing and parsing addresses\<close>

lemma itoa_nat_no_dot: "CHR ''.'' \<notin> set (itoa_nat n)"
  using digit_char_set [of n] by fastforce

lemma itoa_nat_leading: "length (itoa_nat n) = 1 \<or> hd (itoa_nat n) \<noteq> CHR ''0''"
proof (induction n rule: itoa_nat.induct)
  case (1 n)
  show ?case
  proof (cases "n < 10")
    case True
    then show ?thesis by (simp add: itoa_nat.simps [of n])
  next
    case False
    show ?thesis
    proof (cases "n < 100")
      case True
      with False have d: "n div 10 < 10" "n div 10 \<noteq> 0" by auto
      then have "itoa_nat (n div 10) = [digit_char (n div 10)]" by (simp add: itoa_nat.simps)
      moreover have "digit_char (n div 10) \<noteq> CHR ''0''"
      proof
        assume "digit_char (n div 10) = CHR ''0''"
        then have "(48 :: nat) + n div 10 = 48" using of_char_digit [OF d(1)] by simp
        with d(2) show False by simp
      qed
      ultimately show ?thesis using False by (simp add: itoa_nat.simps [of n])
    next
      case big: False
      then have "length (itoa_nat (n div 10)) \<noteq> 1"
        by (subst itoa_nat.simps) (auto simp: div_le_mono)
      with 1 False show ?thesis by (simp add: itoa_nat.simps [of n])
    qed
  qed
qed

lemma Itoa_byte: "Itoa (uint (b :: byte)) = itoa_nat (unat b)"
  by (simp add: Itoa_def)

lemma find_first: "\<forall>x \<in> set a. \<not> P x \<Longrightarrow> P c \<Longrightarrow> find P (a @ c # r) = Some c"
  by (induction a) auto

lemma parse_octet_Itoa: "parse_octet (Itoa (uint (b :: byte))) = Some b"
proof -
  have "unat b < 256" using unsigned_less [of b, where ?'a = nat] by simp
  then have "unat b \<le> 255" by simp
  then show ?thesis unfolding Itoa_byte
    using digit_char_set [of "unat b"] itoa_nat_leading [of "unat b"]
    by (simp add: parse_octet_def atoi_itoa_nat)
qed

text \<open>Every IPv4 address is parsed back from its text, into the 16-byte form.\<close>

lemma ParseIP_dotted:
  assumes "length ip = 4"
  shows "ParseIP nt (dotted ip) = v4InV6Prefix @ ip"
proof -
  from assms obtain a b c d where ip: "ip = [a, b, c, d]"
    by (auto simp: length_Suc_conv numeral_eq_Suc)
  have nd: "CHR ''.'' \<notin> set (Itoa (uint (x :: byte)))" for x
    using itoa_nat_no_dot by (simp add: Itoa_def)
  let ?s = "Itoa (uint a) @ CHR ''.'' # Itoa (uint b) @ CHR ''.'' # Itoa (uint c) @ CHR ''.'' #
    Itoa (uint d)"
  have s: "dotted ip = ?s" using ip by (simp add: dotted_def)
  have "split_on (CHR ''.'') ?s = map (\<lambda>x. Itoa (uint x)) [a, b, c, d]"
    by (simp add: split_on_append [OF nd] split_on_none [OF nd])
  then have p: "parse_dotted ?s = v4InV6Prefix @ ip"
    by (simp add: parse_dotted_def parse_octet_Itoa ip)
  have "\<forall>x \<in> set (itoa_nat (unat a)). x \<notin> {CHR ''.'', CHR '':'', CHR ''%''}"
    using digit_char_set [of "unat a"] by fastforce
  then have "find (\<lambda>c. c \<in> {CHR ''.'', CHR '':'', CHR ''%''}) ?s = Some (CHR ''.'')"
    unfolding Itoa_byte by (intro find_first) auto
  with p show ?thesis unfolding s by (simp add: ParseIP_def)
qed

end
