(* ===== verification/Tls.thy ===== *)
theory Tls
  imports Net_Addr
begin

text \<open>
  tls.go: building the server's and the client's TLS configuration. The functions work on the
  caller's \<open>TLSConfig\<close> in place, so each is a procedure on the pair of the configuration and
  the state of the outside world, and its effects before an error stay visible. Dereferencing
  a nil pointer is an outcome of its own.

  Cryptography, files, clock, host names and the function \<open>set.Default\<close> of
  kapetan-io/tackle are the fields of the record \<open>tls_env\<close>. \<open>'k\<close> is the type of private
  keys, \<open>'p\<close> of certificate pools, \<open>'s\<close> of the outside world's state (randomness, clock,
  what was logged).
\<close>

section \<open>Data\<close>

definition blockTypeEC :: string where "blockTypeEC = ''EC PRIVATE KEY''"
definition blockTypeCert :: string where "blockTypeCert = ''CERTIFICATE''"

text \<open>\<open>x509.Certificate\<close>, the fields the sources set; \<open>x_Raw\<close> is the parsed encoding.\<close>

record x509_Certificate =
  x_SerialNumber :: int
  x_Organization :: "string list"
  x_NotBefore :: int
  x_NotAfter :: int
  x_ExtKeyUsage :: "int list"
  x_KeyUsage :: int
  x_DNSNames :: "string list"
  x_IPAddresses :: "ip list"
  x_BasicConstraintsValid :: bool
  x_IsCA :: bool
  x_Raw :: bytes

text \<open>\<open>tls.Certificate\<close>: a chain of encoded certificates and its private key.\<close>

record 'k keyPair =
  kp_Certificate :: "bytes list"
  kp_PrivateKey :: 'k

record ('k, 'p) tls_Config =
  tls_CipherSuites :: "16 word list"
  tls_ClientAuth :: int
  tls_MinVersion :: "16 word"
  tls_NextProtos :: "string list"
  tls_RootCAs :: "'p option"
  tls_ClientCAs :: "'p option"
  tls_Certificates :: "'k keyPair list"
  tls_ServerName :: string
  tls_InsecureSkipVerify :: bool

definition zero_Config :: "('k, 'p) tls_Config" where
  "zero_Config = \<lparr>tls_CipherSuites = [], tls_ClientAuth = 0, tls_MinVersion = 0, tls_NextProtos = [],
     tls_RootCAs = None, tls_ClientCAs = None, tls_Certificates = [], tls_ServerName = [],
     tls_InsecureSkipVerify = False\<rparr>"

text \<open>The logger of the caller or the one that does nothing; an entry is level, message, fields.\<close>

datatype logger = UserLogger | NoOpLogger
datatype level = LInfo | LWarn
type_synonym log_entry = "level \<times> string \<times> (string \<times> string) list"

record ('k, 'p) TLSConfig =
  tc_CaFile :: string
  tc_CaKeyFile :: string
  tc_KeyFile :: string
  tc_CertFile :: string
  tc_AutoTLS :: bool
  tc_MinVersion :: "16 word"
  tc_ClientAuth :: int
  tc_ClientAuthCaFile :: string
  tc_ClientAuthKeyFile :: string
  tc_ClientAuthCertFile :: string
  tc_InsecureSkipVerify :: bool
  tc_Logger :: "logger option"
  tc_CaPEM :: "bytes option"
  tc_CaKeyPEM :: "bytes option"
  tc_KeyPEM :: "bytes option"
  tc_CertPEM :: "bytes option"
  tc_ClientAuthCaPEM :: "bytes option"
  tc_ClientAuthKeyPEM :: "bytes option"
  tc_ClientAuthCertPEM :: "bytes option"
  tc_ClientAuthServerName :: string
  tc_ServerOrgName :: string
  tc_ServerTLS :: "('k, 'p) tls_Config option"
  tc_ClientTLS :: "('k, 'p) tls_Config option"

record ('k, 'p, 's) tls_env =
  te_ReadFile :: "string \<Rightarrow> error + bytes"
  te_text :: net_text
  te_Interfaces :: "error + iface list"
  te_LookupAddr :: "string \<Rightarrow> string list"
  te_Now :: "'s \<Rightarrow> int \<times> 's"
  te_AddYears :: "int \<Rightarrow> nat \<Rightarrow> int"
  te_GenerateKey :: "'s \<Rightarrow> (error + 'k) \<times> 's"
  te_CreateCertificate ::
    "x509_Certificate \<Rightarrow> x509_Certificate \<Rightarrow> 'k \<Rightarrow> 'k \<Rightarrow> 's \<Rightarrow> (error + bytes) \<times> 's"
  te_MarshalECPrivateKey :: "'k \<Rightarrow> error + bytes"
  te_X509KeyPair :: "bytes \<Rightarrow> bytes \<Rightarrow> error + 'k keyPair"
  te_ParseCertificate :: "bytes \<Rightarrow> error + x509_Certificate"
  te_SystemCertPool :: "error + 'p"
  te_NewCertPool :: 'p
  te_AppendCertsFromPEM :: "'p \<Rightarrow> bytes \<Rightarrow> 'p"
  te_pem_Encode :: "string \<Rightarrow> bytes \<Rightarrow> bytes \<times> error option"
  te_Log :: "log_entry \<Rightarrow> 's \<Rightarrow> 's"
  te_Default_Config :: "('k, 'p) tls_Config option \<Rightarrow> ('k, 'p) tls_Config \<Rightarrow> ('k, 'p) tls_Config option"
  te_Default_Logger :: "logger option \<Rightarrow> logger \<Rightarrow> logger option"
  te_Default_string :: "string \<Rightarrow> string \<Rightarrow> string"

text \<open>
  What \<open>set.Default\<close> documents: a destination that holds its type's zero value gets the
  default, any other keeps its value.
\<close>

definition set_Default_ok :: "('k, 'p, 's) tls_env \<Rightarrow> bool" where
  "set_Default_ok env \<longleftrightarrow>
     (\<forall>c d. te_Default_Config env c d = (case c of None \<Rightarrow> Some d | Some _ \<Rightarrow> c)) \<and>
     (\<forall>l d. te_Default_Logger env l d = (case l of None \<Rightarrow> Some d | Some _ \<Rightarrow> l)) \<and>
     (\<forall>s d. te_Default_string env s d = (if s = [] then d else s))"

section \<open>Procedures\<close>

datatype 'a result = Ok 'a | Fail error | Nil_Deref

type_synonym ('k, 'p, 's, 'a) proc = "('k, 'p) TLSConfig \<times> 's \<Rightarrow> 'a result \<times> ('k, 'p) TLSConfig \<times> 's"

definition seq :: "('k, 'p, 's, 'a) proc \<Rightarrow> ('a \<Rightarrow> ('k, 'p, 's, 'b) proc) \<Rightarrow> ('k, 'p, 's, 'b) proc" where
  "seq m f st =
     (case m st of
        (Ok x, st') \<Rightarrow> f x st'
      | (Fail e, st') \<Rightarrow> (Fail e, st')
      | (Nil_Deref, st') \<Rightarrow> (Nil_Deref, st'))"

definition ret :: "'a \<Rightarrow> ('k, 'p, 's, 'a) proc" where
  "ret x st = (Ok x, st)"

definition conf_get :: "(('k, 'p) TLSConfig \<Rightarrow> 'a) \<Rightarrow> ('k, 'p, 's, 'a) proc" where
  "conf_get f = (\<lambda>(c, s). (Ok (f c), c, s))"

definition conf_put :: "(('k, 'p) TLSConfig \<Rightarrow> ('k, 'p) TLSConfig) \<Rightarrow> ('k, 'p, 's, unit) proc" where
  "conf_put f = (\<lambda>(c, s). (Ok (), f c, s))"

text \<open>A call that reads or changes the outside world.\<close>

definition world :: "('s \<Rightarrow> 'a \<times> 's) \<Rightarrow> ('k, 'p, 's, 'a) proc" where
  "world f = (\<lambda>(c, s). case f s of (x, s') \<Rightarrow> (Ok x, c, s'))"

text \<open>\<open>if err != nil { return fmt.Errorf(msg + ": %w", err) }\<close>\<close>

definition wrap :: "string \<Rightarrow> error \<Rightarrow> error" where
  "wrap msg err = ErrWrap (msg @ '': '' @ Error err) err"

definition check :: "string \<Rightarrow> error + 'a \<Rightarrow> ('k, 'p, 's, 'a) proc" where
  "check msg r st = (case r of Inl err \<Rightarrow> (Fail (wrap msg err), st) | Inr x \<Rightarrow> (Ok x, st))"

text \<open>The same for the error of a whole procedure.\<close>

definition context_of :: "string \<Rightarrow> ('k, 'p, 's, 'a) proc \<Rightarrow> ('k, 'p, 's, 'a) proc" where
  "context_of msg m st = (case m st of (Fail e, st') \<Rightarrow> (Fail (wrap msg e), st') | r \<Rightarrow> r)"

text \<open>Dereferencing a pointer.\<close>

definition deref :: "'a option \<Rightarrow> ('k, 'p, 's, 'a) proc" where
  "deref p st = (case p of None \<Rightarrow> (Nil_Deref, st) | Some x \<Rightarrow> (Ok x, st))"

definition log_to :: "('k, 'p, 's) tls_env \<Rightarrow> log_entry \<Rightarrow> ('k, 'p, 's, unit) proc" where
  "log_to env entry = (\<lambda>(c, s).
     case tc_Logger c of
       None \<Rightarrow> (Nil_Deref, c, s)
     | Some NoOpLogger \<Rightarrow> (Ok (), c, s)
     | Some UserLogger \<Rightarrow> (Ok (), c, te_Log env entry s))"

section \<open>Files\<close>

definition fromFile :: "('k, 'p, 's) tls_env \<Rightarrow> string \<Rightarrow> error + bytes option" where
  "fromFile env name =
     (if name = [] then Inr None
      else (case te_ReadFile env name of
              Inl err \<Rightarrow> Inl (wrap (''while reading file '' @ [CHR 0x27] @ name @ [CHR 0x27]) err)
            | Inr b \<Rightarrow> Inr (Some b)))"

text \<open>\<open>conf.X, err = fromFile(conf.XFile)\<close>: the field is assigned also when reading fails.\<close>

definition load ::
  "('k, 'p, 's) tls_env \<Rightarrow> (('k, 'p) TLSConfig \<Rightarrow> string) \<Rightarrow>
    (bytes option \<Rightarrow> ('k, 'p) TLSConfig \<Rightarrow> ('k, 'p) TLSConfig) \<Rightarrow> ('k, 'p, 's, unit) proc" where
  "load env name put = (\<lambda>(c, s).
     case fromFile env (name c) of
       Inl err \<Rightarrow> (Fail err, put None c, s)
     | Inr b \<Rightarrow> (Ok (), put b c, s))"

definition load_files :: "('k, 'p, 's) tls_env \<Rightarrow> ('k, 'p, 's, unit) proc" where
  "load_files env =
     seq (load env tc_CaFile (\<lambda>b c. c\<lparr>tc_CaPEM := b\<rparr>)) (\<lambda>_.
     seq (load env tc_CaKeyFile (\<lambda>b c. c\<lparr>tc_CaKeyPEM := b\<rparr>)) (\<lambda>_.
     seq (load env tc_KeyFile (\<lambda>b c. c\<lparr>tc_KeyPEM := b\<rparr>)) (\<lambda>_.
     seq (load env tc_CertFile (\<lambda>b c. c\<lparr>tc_CertPEM := b\<rparr>)) (\<lambda>_.
     seq (load env tc_ClientAuthCaFile (\<lambda>b c. c\<lparr>tc_ClientAuthCaPEM := b\<rparr>)) (\<lambda>_.
     seq (load env tc_ClientAuthKeyFile (\<lambda>b c. c\<lparr>tc_ClientAuthKeyPEM := b\<rparr>)) (\<lambda>_.
     load env tc_ClientAuthCertFile (\<lambda>b c. c\<lparr>tc_ClientAuthCertPEM := b\<rparr>)))))))"

section \<open>Self-signed certificates\<close>

definition ExtKeyUsageServerAuth :: int where "ExtKeyUsageServerAuth = 1"
definition ExtKeyUsageClientAuth :: int where "ExtKeyUsageClientAuth = 2"
definition KeyUsageDigitalSignature :: int where "KeyUsageDigitalSignature = 1"
definition KeyUsageKeyEncipherment :: int where "KeyUsageKeyEncipherment = 4"
definition KeyUsageCertSign :: int where "KeyUsageCertSign = 32"

text \<open>\<open>conf.X = new(bytes.Buffer)\<close> and \<open>pem.Encode\<close> into it.\<close>

definition encode_pem ::
  "('k, 'p, 's) tls_env \<Rightarrow> string \<Rightarrow> bytes \<Rightarrow> (bytes option \<Rightarrow> ('k, 'p) TLSConfig \<Rightarrow> ('k, 'p) TLSConfig) \<Rightarrow>
    string \<Rightarrow> ('k, 'p, 's, unit) proc" where
  "encode_pem env blockType b put msg = (\<lambda>(c, s).
     case te_pem_Encode env blockType b of
       (out, None) \<Rightarrow> (Ok (), put (Some out) c, s)
     | (out, Some err) \<Rightarrow> (Fail (wrap msg err), put (Some out) c, s))"

definition ca_template :: "string \<Rightarrow> int \<Rightarrow> int \<Rightarrow> x509_Certificate" where
  "ca_template org notBefore notAfter =
     \<lparr>x_SerialNumber = 2319, x_Organization = [org], x_NotBefore = notBefore, x_NotAfter = notAfter,
      x_ExtKeyUsage = [ExtKeyUsageClientAuth, ExtKeyUsageServerAuth],
      x_KeyUsage = KeyUsageDigitalSignature OR KeyUsageCertSign, x_DNSNames = [], x_IPAddresses = [],
      x_BasicConstraintsValid = True, x_IsCA = True, x_Raw = []\<rparr>"

definition generate_ca :: "('k, 'p, 's) tls_env \<Rightarrow> x509_Certificate \<Rightarrow> ('k, 'p, 's, unit) proc" where
  "generate_ca env ca =
     seq (log_to env (LInfo, ''Generating CA Certificates....'', [])) (\<lambda>_.
     seq (world (te_GenerateKey env)) (\<lambda>r.
     seq (check ''while generating pubic/private key pair'' r) (\<lambda>privKey.
     seq (world (te_CreateCertificate env ca ca privKey privKey)) (\<lambda>r.
     seq (check ''while self signing CA certificate'' r) (\<lambda>b.
     seq (encode_pem env blockTypeCert b (\<lambda>p c. c\<lparr>tc_CaPEM := p\<rparr>)
       ''while encoding CERTIFICATE PEM'') (\<lambda>_.
     seq (check ''while marshalling EC private key'' (te_MarshalECPrivateKey env privKey)) (\<lambda>b.
     encode_pem env blockTypeEC b (\<lambda>p c. c\<lparr>tc_CaKeyPEM := p\<rparr>)
       ''while encoding EC private key into PEM'')))))))"

definition selfCA :: "('k, 'p, 's) tls_env \<Rightarrow> ('k, 'p, 's, unit) proc" where
  "selfCA env =
     seq (world (te_Now env)) (\<lambda>t1.
     seq (world (te_Now env)) (\<lambda>t2.
     seq (conf_get (\<lambda>c. c)) (\<lambda>conf.
     (let ca = ca_template (tc_ServerOrgName conf) t1 (te_AddYears env t2 10) in
      if tc_CaPEM conf \<noteq> None \<and> tc_CaKeyPEM conf \<noteq> None then ret () else generate_ca env ca))))"

text \<open>The template of the server's certificate; the clock is read for the end first.\<close>

definition server_template ::
  "('k, 'p, 's) tls_env \<Rightarrow> string \<Rightarrow> netInfo \<Rightarrow> int \<Rightarrow> int \<Rightarrow> x509_Certificate" where
  "server_template env org network t1 t2 =
     \<lparr>x_SerialNumber = 0xC0FFEE, x_Organization = [org], x_NotBefore = t2,
      x_NotAfter = t1 + 365 * (24 * (3600 * 1000000000)),
      x_ExtKeyUsage = [ExtKeyUsageClientAuth, ExtKeyUsageServerAuth],
      x_KeyUsage = KeyUsageKeyEncipherment OR KeyUsageDigitalSignature,
      x_DNSNames = [''localhost''] @ ni_DNSNames network,
      x_IPAddresses = [ParseIP (te_text env) ''127.0.0.1''] @
        filter (\<lambda>ip. ip \<noteq> []) (map (ParseIP (te_text env)) (ni_IPAddresses network)),
      x_BasicConstraintsValid = True, x_IsCA = False, x_Raw = []\<rparr>"

text \<open>Signing the server's key with the CA of the configuration, and storing the result.\<close>

definition sign_server ::
  "('k, 'p, 's) tls_env \<Rightarrow> x509_Certificate \<Rightarrow> 'k \<Rightarrow> ('k, 'p, 's, unit) proc" where
  "sign_server env cert privKey =
     seq (conf_get tc_CaPEM) (\<lambda>p. seq (deref p) (\<lambda>caPEM.
     seq (conf_get tc_CaKeyPEM) (\<lambda>p. seq (deref p) (\<lambda>caKeyPEM.
     seq (check ''while reading generated PEMs'' (te_X509KeyPair env caPEM caKeyPEM)) (\<lambda>keyPair.
     (case kp_Certificate keyPair of
        [] \<Rightarrow> (\<lambda>st. (Fail (ErrText ''no certificates found in CA PEM''), st))
      | der # _ \<Rightarrow>
          seq (check ''while parsing CA Cert'' (te_ParseCertificate env der)) (\<lambda>caCert.
          seq (world (te_CreateCertificate env cert caCert privKey (kp_PrivateKey keyPair))) (\<lambda>r.
          seq (check ''while self signing server cert'' r) (\<lambda>signedBytes.
          seq (encode_pem env blockTypeCert signedBytes (\<lambda>p c. c\<lparr>tc_CertPEM := p\<rparr>)
            ''while encoding CERTIFICATE PEM'') (\<lambda>_.
          seq (check ''while encoding EC Marshalling'' (te_MarshalECPrivateKey env privKey)) (\<lambda>b.
          encode_pem env blockTypeEC b (\<lambda>p c. c\<lparr>tc_KeyPEM := p\<rparr>)
            ''while encoding EC KEY PEM'')))))))))))"

definition selfCert :: "('k, 'p, 's) tls_env \<Rightarrow> ('k, 'p, 's, unit) proc" where
  "selfCert env =
     seq (conf_get (\<lambda>c. c)) (\<lambda>conf.
     if tc_CertPEM conf \<noteq> None \<and> tc_KeyPEM conf \<noteq> None then ret ()
     else
       seq (check ''while detecting ip and host names''
         (discoverNetwork (te_text env) (te_Interfaces env) (te_LookupAddr env))) (\<lambda>network.
       seq (world (te_Now env)) (\<lambda>t1.
       seq (world (te_Now env)) (\<lambda>t2.
       (let cert = server_template env (tc_ServerOrgName conf) network t1 t2 in
        seq (log_to env (LInfo, ''Generating Server Private Key and Certificate....'',
          [(''dns-names'', Join (x_DNSNames cert) '',''),
           (''cert-ips'', Join (map (IP_String (te_text env)) (x_IPAddresses cert)) '','')])) (\<lambda>_.
        seq (world (te_GenerateKey env)) (\<lambda>r.
        seq (check ''while generating pubic/private key pair'' r) (\<lambda>privKey.
        if tc_CaPEM conf = None \<and> tc_CaKeyPEM conf = None
        then (\<lambda>st. (Fail (ErrText ''unable to generate server certs without a signing CA''), st))
        else sign_server env cert privKey))))))))"

section \<open>SetupTLS\<close>

definition VersionTLS13 :: "16 word" where "VersionTLS13 = 0x0304"
definition NoClientCert :: int where "NoClientCert = 0"

definition default_ciphers :: "16 word list" where
  "default_ciphers = [0xc02b, 0xc02f, 0xc02c, 0xc030, 0xcca9, 0xcca8, 0xc023, 0xc027, 0xc009, 0xc013,
     0xc00a, 0xc014, 0x009c, 0x009d, 0x003c, 0x002f, 0x0035]"

definition default_server :: "('k, 'p) TLSConfig \<Rightarrow> ('k, 'p) tls_Config" where
  "default_server conf = zero_Config
     \<lparr>tls_CipherSuites := default_ciphers, tls_ClientAuth := tc_ClientAuth conf,
      tls_MinVersion := (if tc_MinVersion conf = 0 then VersionTLS13 else tc_MinVersion conf),
      tls_NextProtos := [''h2'', ''http/1.1'']\<rparr>"

definition default_configs :: "('k, 'p, 's) tls_env \<Rightarrow> ('k, 'p) TLSConfig \<Rightarrow> ('k, 'p) TLSConfig" where
  "default_configs env conf =
     conf\<lparr>tc_ServerTLS := te_Default_Config env (tc_ServerTLS conf) (default_server conf),
          tc_ClientTLS := te_Default_Config env (tc_ClientTLS conf) zero_Config\<rparr>"

text \<open>Assigning a field of a configuration the struct points to.\<close>

definition set_server ::
  "(('k, 'p) tls_Config \<Rightarrow> ('k, 'p) tls_Config) \<Rightarrow> ('k, 'p, 's, unit) proc" where
  "set_server f = seq (conf_get tc_ServerTLS) (\<lambda>p. seq (deref p) (\<lambda>t.
     conf_put (\<lambda>c. c\<lparr>tc_ServerTLS := Some (f t)\<rparr>)))"

definition set_client ::
  "(('k, 'p) tls_Config \<Rightarrow> ('k, 'p) tls_Config) \<Rightarrow> ('k, 'p, 's, unit) proc" where
  "set_client f = seq (conf_get tc_ClientTLS) (\<lambda>p. seq (deref p) (\<lambda>t.
     conf_put (\<lambda>c. c\<lparr>tc_ClientTLS := Some (f t)\<rparr>)))"

definition auto_tls :: "('k, 'p, 's) tls_env \<Rightarrow> ('k, 'p, 's, unit) proc" where
  "auto_tls env =
     seq (conf_get tc_AutoTLS) (\<lambda>auto.
     if \<not> auto then ret ()
     else
       seq (log_to env (LInfo, ''AutoTLS Enabled'', [])) (\<lambda>_.
       seq (conf_put (\<lambda>c. c\<lparr>tc_ServerOrgName :=
         te_Default_string env (tc_ServerOrgName c) ''Self Signed Org''\<rparr>)) (\<lambda>_.
       seq (context_of ''while generating self signed CA certs'' (selfCA env)) (\<lambda>_.
       context_of ''while generating self signed server certs'' (selfCert env)))))"

definition root_pool :: "('k, 'p, 's) tls_env \<Rightarrow> ('k, 'p, 's, 'p) proc" where
  "root_pool env =
     (case te_SystemCertPool env of
        Inr pool \<Rightarrow> ret pool
      | Inl err \<Rightarrow>
          seq (log_to env (LWarn, ''while loading system CA Certs; using provided pool instead'',
            [(''err'', Error err)])) (\<lambda>_. ret (te_NewCertPool env)))"

definition install_ca :: "('k, 'p, 's) tls_env \<Rightarrow> ('k, 'p, 's, unit) proc" where
  "install_ca env =
     seq (conf_get tc_CaPEM) (\<lambda>p.
     case p of
       None \<Rightarrow> ret ()
     | Some caPEM \<Rightarrow>
         seq (root_pool env) (\<lambda>pool.
         (let rootPool = te_AppendCertsFromPEM env pool caPEM in
          seq (set_server (\<lambda>t. t\<lparr>tls_RootCAs := Some rootPool\<rparr>)) (\<lambda>_.
          set_client (\<lambda>t. t\<lparr>tls_RootCAs := Some rootPool\<rparr>)))))"

definition install_cert :: "('k, 'p, 's) tls_env \<Rightarrow> ('k, 'p, 's, unit) proc" where
  "install_cert env =
     seq (conf_get (\<lambda>c. (tc_KeyPEM c, tc_CertPEM c))) (\<lambda>p.
     case p of
       (Some keyPEM, Some certPEM) \<Rightarrow>
         seq (check ''while parsing server certificate and private key''
           (te_X509KeyPair env certPEM keyPEM)) (\<lambda>serverCert.
         seq (set_server (\<lambda>t. t\<lparr>tls_Certificates := [serverCert]\<rparr>)) (\<lambda>_.
         set_client (\<lambda>t. t\<lparr>tls_Certificates := [serverCert]\<rparr>)))
     | _ \<Rightarrow> ret ())"

text \<open>The client CA if there is one, else the server's.\<close>

definition auth_ca :: "('k, 'p) TLSConfig \<Rightarrow> bytes option" where
  "auth_ca c = (if tc_ClientAuthCaPEM c \<noteq> None then tc_ClientAuthCaPEM c else tc_CaPEM c)"

definition client_auth :: "('k, 'p, 's) tls_env \<Rightarrow> ('k, 'p, 's, unit) proc" where
  "client_auth env =
     seq (conf_get (\<lambda>c. c)) (\<lambda>conf.
     if tc_ClientAuth conf = NoClientCert then ret ()
     else
       (case auth_ca conf of
          None \<Rightarrow> (\<lambda>st. (Fail (ErrText (''client auth enabled, but no CA'' @ [CHR 0x27] @ ''s provided'')), st))
        | Some b \<Rightarrow>
            seq (set_server (\<lambda>t. t\<lparr>tls_ClientCAs :=
              Some (te_AppendCertsFromPEM env (te_NewCertPool env) b)\<rparr>)) (\<lambda>_.
            (case (tc_ClientAuthKeyPEM conf, tc_ClientAuthCertPEM conf) of
               (Some keyPEM, Some certPEM) \<Rightarrow>
                 seq (check ''while parsing client certificate and private key''
                   (te_X509KeyPair env certPEM keyPEM)) (\<lambda>clientCert.
                 set_client (\<lambda>t. t\<lparr>tls_Certificates := [clientCert]\<rparr>))
             | _ \<Rightarrow> ret ()))))"

definition finish_client :: "('k, 'p, 's, unit) proc" where
  "finish_client =
     seq (conf_get (\<lambda>c. (tc_ClientAuthServerName c, tc_InsecureSkipVerify c))) (\<lambda>(name, skip).
     seq (set_client (\<lambda>t. t\<lparr>tls_ServerName := name\<rparr>)) (\<lambda>_.
     set_client (\<lambda>t. t\<lparr>tls_InsecureSkipVerify := skip\<rparr>)))"

definition configure :: "('k, 'p, 's) tls_env \<Rightarrow> ('k, 'p, 's, unit) proc" where
  "configure env =
     seq (conf_put (default_configs env)) (\<lambda>_.
     seq (load_files env) (\<lambda>_.
     seq (conf_put (\<lambda>c. c\<lparr>tc_Logger := te_Default_Logger env (tc_Logger c) NoOpLogger\<rparr>)) (\<lambda>_.
     seq (auto_tls env) (\<lambda>_.
     seq (install_ca env) (\<lambda>_.
     seq (install_cert env) (\<lambda>_.
     seq (client_auth env) (\<lambda>_.
     finish_client)))))))"

text \<open>The argument is a pointer: \<open>None\<close> is nil.\<close>

definition SetupTLS ::
  "('k, 'p, 's) tls_env \<Rightarrow> ('k, 'p) TLSConfig option \<Rightarrow> 's \<Rightarrow>
    unit result \<times> ('k, 'p) TLSConfig option \<times> 's" where
  "SetupTLS env p s =
     (case p of
        None \<Rightarrow> (Ok (), None, s)
      | Some conf \<Rightarrow>
          (if tc_ServerTLS conf \<noteq> None \<and> tc_ClientTLS conf \<noteq> None then (Ok (), Some conf, s)
           else (case configure env (conf, s) of (r, conf', s') \<Rightarrow> (r, Some conf', s'))))"

section \<open>A logic for the procedures\<close>

text \<open>
  From configurations that satisfy \<open>P\<close> the procedure does not dereference nil, and if it
  succeeds its result and the configuration it leaves satisfy \<open>Q\<close>.
\<close>

fun accept :: "('a \<Rightarrow> ('k, 'p) TLSConfig \<Rightarrow> bool) \<Rightarrow> 'a result \<times> ('k, 'p) TLSConfig \<times> 's \<Rightarrow> bool" where
  "accept Q (Ok x, c, s) = Q x c"
| "accept Q (Fail e, c, s) = True"
| "accept Q (Nil_Deref, c, s) = False"

definition safe ::
  "(('k, 'p) TLSConfig \<Rightarrow> bool) \<Rightarrow> ('k, 'p, 's, 'a) proc \<Rightarrow> ('a \<Rightarrow> ('k, 'p) TLSConfig \<Rightarrow> bool) \<Rightarrow> bool" where
  "safe P m Q \<longleftrightarrow> (\<forall>c s. P c \<longrightarrow> accept Q (m (c, s)))"

lemma safe_seq:
  assumes "safe P m R" and "\<And>x. safe (R x) (f x) Q"
  shows "safe P (seq m f) Q"
  unfolding safe_def
proof (intro allI impI)
  fix c s
  assume "P c"
  with assms(1) have a: "accept R (m (c, s))" by (simp add: safe_def)
  obtain r c' s' where m: "m (c, s) = (r, c', s')" by (cases "m (c, s)")
  show "accept Q (seq m f (c, s))"
    using a assms(2) unfolding m safe_def seq_def by (cases r) auto
qed

lemma safe_weaken: "safe P m Q \<Longrightarrow> (\<And>c. P' c \<Longrightarrow> P c) \<Longrightarrow> (\<And>x c. Q x c \<Longrightarrow> Q' x c) \<Longrightarrow> safe P' m Q'"
  unfolding safe_def by (metis accept.elims(2) accept.simps(1,2))

lemma safe_ret: "(\<And>c. P c \<Longrightarrow> Q x c) \<Longrightarrow> safe P (ret x) Q"
  by (simp add: safe_def ret_def)

lemma safe_get: "safe P (conf_get f) (\<lambda>x c. P c \<and> x = f c)"
  by (simp add: safe_def conf_get_def)

lemma safe_put: "(\<And>c. P c \<Longrightarrow> Q (f c)) \<Longrightarrow> safe P (conf_put f) (\<lambda>_. Q)"
  by (simp add: safe_def conf_put_def)

lemma safe_world: "safe P (world f) (\<lambda>_. P)"
  by (simp add: safe_def world_def split: prod.splits)

lemma safe_check: "safe P (check msg r) (\<lambda>x c. P c \<and> r = Inr x)"
  by (simp add: safe_def check_def split: sum.splits)

lemma safe_fail: "safe P (\<lambda>st. (Fail e, st)) Q"
  by (simp add: safe_def)

lemma safe_context: "safe P m Q \<Longrightarrow> safe P (context_of msg m) Q"
  unfolding safe_def context_of_def by (auto split: prod.splits result.splits) (metis accept.simps)+

lemma safe_deref: "(\<And>c. P c \<Longrightarrow> p \<noteq> None) \<Longrightarrow> safe P (deref p) (\<lambda>x c. P c \<and> p = Some x)"
  by (auto simp: safe_def deref_def split: option.splits)

lemma safe_log: "(\<And>c. P c \<Longrightarrow> tc_Logger c \<noteq> None) \<Longrightarrow> safe P (log_to env entry) (\<lambda>_. P)"
  by (fastforce simp: safe_def log_to_def split: option.splits logger.splits)

lemma safe_pem: "(\<And>c b. P c \<Longrightarrow> Q (put (Some b) c)) \<Longrightarrow> safe P (encode_pem env ty b put msg) (\<lambda>_. Q)"
  by (auto simp: safe_def encode_pem_def split: prod.splits option.splits)

lemma safe_set_server:
  assumes "\<And>c. P c \<Longrightarrow> tc_ServerTLS c \<noteq> None"
    and "\<And>c t. P c \<Longrightarrow> tc_ServerTLS c = Some t \<Longrightarrow> Q (c\<lparr>tc_ServerTLS := Some (f t)\<rparr>)"
  shows "safe P (set_server f) (\<lambda>_. Q)"
  using assms by (fastforce simp: safe_def set_server_def seq_def conf_get_def conf_put_def deref_def
      split: option.splits)

lemma safe_set_client:
  assumes "\<And>c. P c \<Longrightarrow> tc_ClientTLS c \<noteq> None"
    and "\<And>c t. P c \<Longrightarrow> tc_ClientTLS c = Some t \<Longrightarrow> Q (c\<lparr>tc_ClientTLS := Some (f t)\<rparr>)"
  shows "safe P (set_client f) (\<lambda>_. Q)"
  using assms by (fastforce simp: safe_def set_client_def seq_def conf_get_def conf_put_def deref_def
      split: option.splits)

lemma safe_load: "(\<And>c b. P c \<Longrightarrow> Q (put b c)) \<Longrightarrow> safe P (load env name put) (\<lambda>_. Q)"
  by (auto simp: safe_def load_def split: sum.splits)

lemma safe_if: "(b \<Longrightarrow> safe P m Q) \<Longrightarrow> (\<not> b \<Longrightarrow> safe P m' Q) \<Longrightarrow> safe P (if b then m else m') Q"
  by simp

lemma safe_option:
  "(p = None \<Longrightarrow> safe P m Q) \<Longrightarrow> (\<And>x. p = Some x \<Longrightarrow> safe P (f x) Q) \<Longrightarrow>
    safe P (case p of None \<Rightarrow> m | Some x \<Rightarrow> f x) Q"
  by (cases p) auto

lemma safe_assume: "(\<And>c. P c \<Longrightarrow> safe (\<lambda>c'. c' = c) m Q) \<Longrightarrow> safe P m Q"
  by (simp add: safe_def)

section \<open>The stages\<close>

text \<open>What of the caller's configuration no stage changes.\<close>

definition options_kept :: "('k, 'p) TLSConfig \<Rightarrow> ('k, 'p) TLSConfig \<Rightarrow> bool" where
  "options_kept c0 c \<longleftrightarrow> tc_AutoTLS c = tc_AutoTLS c0 \<and> tc_ClientAuth c = tc_ClientAuth c0 \<and>
     tc_ClientAuthServerName c = tc_ClientAuthServerName c0 \<and>
     tc_InsecureSkipVerify c = tc_InsecureSkipVerify c0"

text \<open>The server's configuration is the caller's or the default one, but for certificates and pools.\<close>

definition server_base :: "('k, 'p) TLSConfig \<Rightarrow> ('k, 'p) tls_Config \<Rightarrow> bool" where
  "server_base c0 t \<longleftrightarrow>
     (let t0 = (case tc_ServerTLS c0 of Some t0 \<Rightarrow> t0 | None \<Rightarrow> default_server c0) in
      tls_MinVersion t = tls_MinVersion t0 \<and> tls_ClientAuth t = tls_ClientAuth t0 \<and>
      tls_CipherSuites t = tls_CipherSuites t0 \<and> tls_NextProtos t = tls_NextProtos t0)"

definition based :: "('k, 'p) TLSConfig \<Rightarrow> ('k, 'p) TLSConfig \<Rightarrow> bool" where
  "based c0 c \<longleftrightarrow> options_kept c0 c \<and> (\<exists>t. tc_ServerTLS c = Some t \<and> server_base c0 t) \<and>
     tc_ClientTLS c \<noteq> None"

definition ready :: "('k, 'p) TLSConfig \<Rightarrow> ('k, 'p) TLSConfig \<Rightarrow> bool" where
  "ready c0 c \<longleftrightarrow> based c0 c \<and> tc_Logger c \<noteq> None"

lemma based_pem [simp]:
  "based c0 (c\<lparr>tc_CaPEM := x\<rparr>) = based c0 c" "based c0 (c\<lparr>tc_CaKeyPEM := x\<rparr>) = based c0 c"
  "based c0 (c\<lparr>tc_KeyPEM := x\<rparr>) = based c0 c" "based c0 (c\<lparr>tc_CertPEM := x\<rparr>) = based c0 c"
  "based c0 (c\<lparr>tc_ClientAuthCaPEM := x\<rparr>) = based c0 c"
  "based c0 (c\<lparr>tc_ClientAuthKeyPEM := x\<rparr>) = based c0 c"
  "based c0 (c\<lparr>tc_ClientAuthCertPEM := x\<rparr>) = based c0 c"
  "based c0 (c\<lparr>tc_Logger := l\<rparr>) = based c0 c" "based c0 (c\<lparr>tc_ServerOrgName := n\<rparr>) = based c0 c"
  by (simp_all add: based_def options_kept_def)

lemma defaults_based:
  "set_Default_ok env \<Longrightarrow> based c0 (default_configs env c0)"
  by (auto simp: set_Default_ok_def based_def options_kept_def default_configs_def server_base_def
      Let_def split: option.splits)

lemma load_files_based: "safe (based c0) (load_files env) (\<lambda>_. based c0)"
  unfolding load_files_def
  by (intro safe_seq [where R = "\<lambda>_. based c0"] safe_load) simp_all

lemma logger_ready:
  "set_Default_ok env \<Longrightarrow> safe (based c0)
    (conf_put (\<lambda>c. c\<lparr>tc_Logger := te_Default_Logger env (tc_Logger c) NoOpLogger\<rparr>)) (\<lambda>_. ready c0)"
  by (rule safe_put) (auto simp: set_Default_ok_def ready_def split: option.splits)

definition has_ca :: "('k, 'p) TLSConfig \<Rightarrow> bool" where
  "has_ca c \<longleftrightarrow> tc_CaPEM c \<noteq> None \<and> tc_CaKeyPEM c \<noteq> None"

definition has_cert :: "('k, 'p) TLSConfig \<Rightarrow> bool" where
  "has_cert c \<longleftrightarrow> tc_CertPEM c \<noteq> None \<and> tc_KeyPEM c \<noteq> None"

lemma generate_ca_ready: "safe (ready c0) (generate_ca env ca) (\<lambda>_ c. ready c0 c \<and> has_ca c)"
proof -
  let ?half = "\<lambda>_ c. ready c0 c \<and> tc_CaPEM c \<noteq> None"
  show ?thesis unfolding generate_ca_def
    by (intro safe_seq [OF safe_log] safe_seq [OF safe_world] safe_seq [OF safe_check]
        safe_seq [where R = ?half, OF safe_pem] safe_pem) (auto simp: ready_def has_ca_def)
qed

lemma selfCA_ready: "safe (ready c0) (selfCA env) (\<lambda>_ c. ready c0 c \<and> has_ca c)"
  unfolding selfCA_def Let_def
  by (intro safe_seq [OF safe_world] safe_seq [OF safe_get] safe_if safe_ret
      safe_weaken [OF generate_ca_ready [of c0]])
    (auto simp: has_ca_def)

lemma sign_server_ready:
  "safe (\<lambda>c. ready c0 c \<and> has_ca c) (sign_server env cert k)
    (\<lambda>_ c. ready c0 c \<and> has_ca c \<and> has_cert c)"
proof -
  let ?half = "\<lambda>_ c. ready c0 c \<and> has_ca c \<and> tc_CertPEM c \<noteq> None"
  have issue: "safe (\<lambda>c. ready c0 c \<and> has_ca c)
      (case kp_Certificate kp of
        [] \<Rightarrow> (\<lambda>st. (Fail (ErrText ''no certificates found in CA PEM''), st))
      | der # _ \<Rightarrow>
          seq (check ''while parsing CA Cert'' (te_ParseCertificate env der)) (\<lambda>caCert.
          seq (world (te_CreateCertificate env cert caCert k (kp_PrivateKey kp))) (\<lambda>r.
          seq (check ''while self signing server cert'' r) (\<lambda>signedBytes.
          seq (encode_pem env blockTypeCert signedBytes (\<lambda>p c. c\<lparr>tc_CertPEM := p\<rparr>)
            ''while encoding CERTIFICATE PEM'') (\<lambda>_.
          seq (check ''while encoding EC Marshalling'' (te_MarshalECPrivateKey env k)) (\<lambda>b.
          encode_pem env blockTypeEC b (\<lambda>p c. c\<lparr>tc_KeyPEM := p\<rparr>)
            ''while encoding EC KEY PEM''))))))
      (\<lambda>_ c. ready c0 c \<and> has_ca c \<and> has_cert c)" for kp
  proof (cases "kp_Certificate kp")
    case Nil
    then show ?thesis by (simp add: safe_fail)
  next
    case (Cons der rest)
    show ?thesis unfolding Cons list.case
      by (intro safe_seq [OF safe_check] safe_seq [OF safe_world]
          safe_seq [where R = ?half, OF safe_pem] safe_pem)
        (auto simp: ready_def has_ca_def has_cert_def)
  qed
  show ?thesis unfolding sign_server_def
    by (intro safe_seq [OF safe_get] safe_seq [OF safe_deref] safe_seq [OF safe_check]
        safe_weaken [OF issue]) (auto simp: has_ca_def)
qed

lemma selfCert_ready:
  "safe (\<lambda>c. ready c0 c \<and> has_ca c) (selfCert env)
    (\<lambda>_ c. ready c0 c \<and> has_ca c \<and> has_cert c)"
  unfolding selfCert_def Let_def
  by (intro safe_seq [OF safe_get] safe_if safe_ret safe_seq [OF safe_check] safe_seq [OF safe_world]
      safe_seq [OF safe_log] safe_fail safe_weaken [OF sign_server_ready [of c0]])
    (auto simp: has_cert_def ready_def)

lemma auto_tls_ready:
  "safe (ready c0) (auto_tls env) (\<lambda>_ c. ready c0 c \<and> (tc_AutoTLS c0 \<longrightarrow> has_ca c \<and> has_cert c))"
proof -
  have gen: "safe (ready c0)
      (seq (context_of ''while generating self signed CA certs'' (selfCA env)) (\<lambda>_.
       context_of ''while generating self signed server certs'' (selfCert env)))
      (\<lambda>_ c. ready c0 c \<and> has_ca c \<and> has_cert c)"
    by (rule safe_seq [OF safe_context [OF selfCA_ready] safe_context [OF selfCert_ready]])
  have "safe (\<lambda>c. ready c0 c) (conf_put (\<lambda>c. c\<lparr>tc_ServerOrgName :=
      te_Default_string env (tc_ServerOrgName c) ''Self Signed Org''\<rparr>)) (\<lambda>_. ready c0)"
    by (rule safe_put) (simp add: ready_def)
  note org = safe_seq [OF this]
  show ?thesis unfolding auto_tls_def
    by (intro safe_seq [OF safe_get] safe_if safe_ret safe_seq [OF safe_log]
        safe_weaken [OF org [OF gen]])
      (auto simp: ready_def based_def options_kept_def)
qed

text \<open>What each later stage establishes.\<close>

definition system_pool :: "('k, 'p, 's) tls_env \<Rightarrow> 'p" where
  "system_pool env = (case te_SystemCertPool env of Inr pool \<Rightarrow> pool | Inl _ \<Rightarrow> te_NewCertPool env)"

definition roots_ok :: "('k, 'p, 's) tls_env \<Rightarrow> ('k, 'p) TLSConfig \<Rightarrow> bool" where
  "roots_ok env c \<longleftrightarrow> (\<forall>pem. tc_CaPEM c = Some pem \<longrightarrow>
     tls_RootCAs (the (tc_ServerTLS c)) = Some (te_AppendCertsFromPEM env (system_pool env) pem) \<and>
     tls_RootCAs (the (tc_ClientTLS c)) = Some (te_AppendCertsFromPEM env (system_pool env) pem))"

definition own_cert_ok :: "('k, 'p, 's) tls_env \<Rightarrow> ('k, 'p) TLSConfig \<Rightarrow> bool" where
  "own_cert_ok env c \<longleftrightarrow> (\<forall>key cert. tc_KeyPEM c = Some key \<longrightarrow> tc_CertPEM c = Some cert \<longrightarrow>
     (\<exists>pair. te_X509KeyPair env cert key = Inr pair \<and>
       tls_Certificates (the (tc_ServerTLS c)) = [pair]))"

definition auth_ok :: "('k, 'p, 's) tls_env \<Rightarrow> ('k, 'p) TLSConfig \<Rightarrow> bool" where
  "auth_ok env c \<longleftrightarrow> (tc_ClientAuth c \<noteq> NoClientCert \<longrightarrow>
     (\<exists>pem. auth_ca c = Some pem \<and>
       tls_ClientCAs (the (tc_ServerTLS c)) =
         Some (te_AppendCertsFromPEM env (te_NewCertPool env) pem)))"

definition generated :: "('k, 'p) TLSConfig \<Rightarrow> ('k, 'p) TLSConfig \<Rightarrow> bool" where
  "generated c0 c \<longleftrightarrow> (tc_AutoTLS c0 \<longrightarrow> has_ca c \<and> has_cert c)"

lemma auth_ca_upd [simp]:
  "auth_ca (c\<lparr>tc_ServerTLS := t\<rparr>) = auth_ca c" "auth_ca (c\<lparr>tc_ClientTLS := t\<rparr>) = auth_ca c"
  by (simp_all add: auth_ca_def)

lemmas stage_defs = safe_def seq_def conf_get_def conf_put_def ret_def log_to_def deref_def check_def
  set_server_def set_client_def

lemmas ready_defs = ready_def based_def server_base_def options_kept_def generated_def has_ca_def
  has_cert_def

lemma stage_set [simp]:
  "ready c0 c \<Longrightarrow> tc_ServerTLS c = Some t \<Longrightarrow> ready c0 (c\<lparr>tc_ServerTLS := Some (t\<lparr>tls_RootCAs := r\<rparr>)\<rparr>)"
  "ready c0 c \<Longrightarrow> tc_ServerTLS c = Some t \<Longrightarrow> ready c0 (c\<lparr>tc_ServerTLS := Some (t\<lparr>tls_Certificates := cs\<rparr>)\<rparr>)"
  "ready c0 c \<Longrightarrow> tc_ServerTLS c = Some t \<Longrightarrow> ready c0 (c\<lparr>tc_ServerTLS := Some (t\<lparr>tls_ClientCAs := r\<rparr>)\<rparr>)"
  "ready c0 c \<Longrightarrow> ready c0 (c\<lparr>tc_ClientTLS := Some u\<rparr>)"
  "generated c0 (c\<lparr>tc_ServerTLS := x\<rparr>) = generated c0 c" "generated c0 (c\<lparr>tc_ClientTLS := x\<rparr>) = generated c0 c"
  by (auto simp: ready_defs)

lemma ready_configs: "ready c0 c \<Longrightarrow> tc_ServerTLS c \<noteq> None" "ready c0 c \<Longrightarrow> tc_ClientTLS c \<noteq> None"
  "ready c0 c \<Longrightarrow> tc_Logger c \<noteq> None"
  by (auto simp: ready_defs)

lemma root_pool_ready: "safe (\<lambda>c. ready c0 c \<and> I c) (root_pool env) (\<lambda>pool c. (ready c0 c \<and> I c) \<and> pool = system_pool env)"
  unfolding root_pool_def system_pool_def
  by (cases "te_SystemCertPool env")
    (auto intro!: safe_ret safe_seq [OF safe_log [where P = "\<lambda>c. ready c0 c \<and> I c"]] dest: ready_configs)

lemma install_ca_ready:
  "safe (\<lambda>c. ready c0 c \<and> generated c0 c) (install_ca env)
    (\<lambda>_ c. ready c0 c \<and> generated c0 c \<and> roots_ok env c)"
  unfolding install_ca_def Let_def
proof (rule safe_seq [OF safe_get], rule safe_option)
  fix p :: "bytes option"
  assume "p = None"
  then show "safe (\<lambda>c. (ready c0 c \<and> generated c0 c) \<and> p = tc_CaPEM c) (ret ())
      (\<lambda>_ c. ready c0 c \<and> generated c0 c \<and> roots_ok env c)"
    by (intro safe_ret) (auto simp: roots_ok_def)
next
  fix p :: "bytes option" and ca
  assume p: "p = Some ca"
  let ?P = "\<lambda>c. ready c0 c \<and> generated c0 c \<and> p = tc_CaPEM c"
  let ?root = "Some (te_AppendCertsFromPEM env (system_pool env) ca)"
  have srv: "safe (\<lambda>c. ?P c \<and> pool = system_pool env)
      (set_server (\<lambda>t. t\<lparr>tls_RootCAs := Some (te_AppendCertsFromPEM env pool ca)\<rparr>))
      (\<lambda>_ c. ?P c \<and> tls_RootCAs (the (tc_ServerTLS c)) = ?root \<and> pool = system_pool env)" for pool
    by (rule safe_set_server) (use ready_configs in blast, auto)
  have cli: "safe (\<lambda>c. ?P c \<and> tls_RootCAs (the (tc_ServerTLS c)) = ?root \<and> pool = system_pool env)
      (set_client (\<lambda>t. t\<lparr>tls_RootCAs := Some (te_AppendCertsFromPEM env pool ca)\<rparr>))
      (\<lambda>_ c. ready c0 c \<and> generated c0 c \<and> roots_ok env c)" for pool
    by (rule safe_set_client) (use ready_configs in blast, auto simp: roots_ok_def p)
  show "safe (\<lambda>c. (ready c0 c \<and> generated c0 c) \<and> p = tc_CaPEM c)
      (seq (root_pool env) (\<lambda>pool. seq
        (set_server (\<lambda>t. t\<lparr>tls_RootCAs := Some (te_AppendCertsFromPEM env pool ca)\<rparr>)) (\<lambda>_.
        set_client (\<lambda>t. t\<lparr>tls_RootCAs := Some (te_AppendCertsFromPEM env pool ca)\<rparr>))))
      (\<lambda>_ c. ready c0 c \<and> generated c0 c \<and> roots_ok env c)"
    using safe_seq [OF root_pool_ready [where I = "\<lambda>c. generated c0 c \<and> p = tc_CaPEM c"]
        safe_seq [OF srv cli]] by (simp add: conj_assoc)
qed

lemma install_cert_ready:
  "safe (\<lambda>c. ready c0 c \<and> generated c0 c \<and> roots_ok env c) (install_cert env)
    (\<lambda>_ c. ready c0 c \<and> generated c0 c \<and> roots_ok env c \<and> own_cert_ok env c)"
  by (auto simp: stage_defs install_cert_def roots_ok_def own_cert_ok_def ready_defs
      split: option.splits sum.splits)

lemma client_auth_ready:
  "safe (\<lambda>c. ready c0 c \<and> generated c0 c \<and> roots_ok env c \<and> own_cert_ok env c) (client_auth env)
    (\<lambda>_ c. ready c0 c \<and> generated c0 c \<and> roots_ok env c \<and> own_cert_ok env c \<and> auth_ok env c)"
  by (auto simp: stage_defs client_auth_def roots_ok_def own_cert_ok_def auth_ok_def ready_defs
      split: option.splits sum.splits)

definition configured :: "('k, 'p, 's) tls_env \<Rightarrow> ('k, 'p) TLSConfig \<Rightarrow> ('k, 'p) TLSConfig \<Rightarrow> bool" where
  "configured env c0 c \<longleftrightarrow> ready c0 c \<and> generated c0 c \<and> roots_ok env c \<and> own_cert_ok env c \<and>
     auth_ok env c \<and> tls_ServerName (the (tc_ClientTLS c)) = tc_ClientAuthServerName c0 \<and>
     tls_InsecureSkipVerify (the (tc_ClientTLS c)) = tc_InsecureSkipVerify c0"

lemma finish_client_ready:
  "safe (\<lambda>c. ready c0 c \<and> generated c0 c \<and> roots_ok env c \<and> own_cert_ok env c \<and> auth_ok env c)
    finish_client (\<lambda>_. configured env c0)"
  by (auto simp: stage_defs finish_client_def configured_def roots_ok_def own_cert_ok_def auth_ok_def
      ready_defs)

lemma auto_tls_generated: "safe (ready c0) (auto_tls env) (\<lambda>_ c. ready c0 c \<and> generated c0 c)"
  using auto_tls_ready by (simp add: generated_def)

lemma configure_configured:
  assumes "set_Default_ok env"
  shows "safe (\<lambda>c. c = c0) (configure env) (\<lambda>_. configured env c0)"
proof -
  have "safe (\<lambda>c. c = c0) (conf_put (default_configs env)) (\<lambda>_. based c0)"
    by (rule safe_put) (simp add: defaults_based [OF assms])
  then show ?thesis unfolding configure_def
    by (intro safe_seq [OF _ safe_seq [OF load_files_based safe_seq [OF logger_ready [OF assms]
        safe_seq [OF auto_tls_generated safe_seq [OF install_ca_ready safe_seq [OF install_cert_ready
        safe_seq [OF client_auth_ready finish_client_ready]]]]]]])
qed

section \<open>Loading files\<close>

definition tls_files :: "('k, 'p) TLSConfig \<Rightarrow> string list" where
  "tls_files c = [tc_CaFile c, tc_CaKeyFile c, tc_KeyFile c, tc_CertFile c, tc_ClientAuthCaFile c,
     tc_ClientAuthKeyFile c, tc_ClientAuthCertFile c]"

definition unreadable :: "('k, 'p, 's) tls_env \<Rightarrow> string \<Rightarrow> bool" where
  "unreadable env name \<longleftrightarrow> name \<noteq> [] \<and> (\<exists>e. te_ReadFile env name = Inl e)"

definition file_pem :: "('k, 'p, 's) tls_env \<Rightarrow> string \<Rightarrow> bytes option" where
  "file_pem env name = (if name = [] then None else Some (projr (te_ReadFile env name)))"

text \<open>The configuration with every PEM field read from its file, nil for no file.\<close>

definition loaded :: "('k, 'p, 's) tls_env \<Rightarrow> ('k, 'p) TLSConfig \<Rightarrow> ('k, 'p) TLSConfig" where
  "loaded env c =
     c\<lparr>tc_CaPEM := file_pem env (tc_CaFile c), tc_CaKeyPEM := file_pem env (tc_CaKeyFile c),
       tc_KeyPEM := file_pem env (tc_KeyFile c), tc_CertPEM := file_pem env (tc_CertFile c),
       tc_ClientAuthCaPEM := file_pem env (tc_ClientAuthCaFile c),
       tc_ClientAuthKeyPEM := file_pem env (tc_ClientAuthKeyFile c),
       tc_ClientAuthCertPEM := file_pem env (tc_ClientAuthCertFile c)\<rparr>"

definition file_error :: "string \<Rightarrow> error \<Rightarrow> error" where
  "file_error name e = wrap (''while reading file '' @ [CHR 0x27] @ name @ [CHR 0x27]) e"

lemma load_readable:
  "\<not> unreadable env (name c) \<Longrightarrow> load env name put (c, s) = (Ok (), put (file_pem env (name c)) c, s)"
  by (auto simp: load_def fromFile_def unreadable_def file_pem_def split: sum.splits)

lemma load_unreadable:
  "unreadable env (name c) \<Longrightarrow> load env name put (c, s) =
    (Fail (file_error (name c) (projl (te_ReadFile env (name c)))), put None c, s)"
  by (auto simp: load_def fromFile_def unreadable_def file_error_def)

lemma seq_Ok [simp]: "m st = (Ok x, st') \<Longrightarrow> seq m f st = f x st'"
  by (simp add: seq_def)

lemma seq_Fail [simp]: "m st = (Fail e, st') \<Longrightarrow> seq m f st = (Fail e, st')"
  by (simp add: seq_def)

lemma seq_same: "m st = m st' \<Longrightarrow> seq m f st = seq m f st'"
  by (simp add: seq_def)

lemma configure_load:
  "\<exists>rest. \<forall>c s. configure env (c, s) = seq (load_files env) rest (default_configs env c, s)"
  unfolding configure_def by (rule exI, intro allI, rule seq_Ok, simp add: conf_put_def)

lemma load_files_all:
  assumes "find (unreadable env) (tls_files c) = None"
  shows "load_files env (c, s) = (Ok (), loaded env c, s)"
proof -
  from assms have "\<forall>n \<in> set (tls_files c). \<not> unreadable env n" by (simp add: find_None_iff)
  then show ?thesis
    by (simp add: tls_files_def load_files_def load_readable loaded_def)
qed

lemma load_files_first_error:
  assumes "find (unreadable env) (tls_files c) = Some name"
  shows "\<exists>e c'. te_ReadFile env name = Inl e \<and> load_files env (c, s) = (Fail (file_error name e), c', s)"
proof -
  from assms have "unreadable env name" by (auto simp: find_Some_iff)
  then have "te_ReadFile env name = Inl (projl (te_ReadFile env name))" by (auto simp: unreadable_def)
  moreover have "\<exists>c'. load_files env (c, s) = (Fail (file_error name (projl (te_ReadFile env name))), c', s)"
    using assms unfolding tls_files_def load_files_def find.simps
    by (auto simp: load_readable load_unreadable split: if_splits)
  ultimately show ?thesis by blast
qed

lemma SetupTLS_same:
  "tc_ServerTLS c' = tc_ServerTLS c \<Longrightarrow> tc_ClientTLS c' = tc_ClientTLS c \<Longrightarrow>
    tc_ServerTLS c = None \<or> tc_ClientTLS c = None \<Longrightarrow> configure env (c', s) = configure env (c, s) \<Longrightarrow>
    SetupTLS env (Some c') s = SetupTLS env (Some c) s"
  by (auto simp: SetupTLS_def)

end
