(* ===== verification/Tls_Properties.thy ===== *)
theory Tls_Properties
  imports Tls
begin

text \<open>
  Properties of SetupTLS. The witnesses use an environment with one interface, keys that are
  numbers and a counter as the state of the outside world.
\<close>

section \<open>A sample environment\<close>

definition sample_iface :: iface where
  "sample_iface = \<lparr>if_Flags = 1, if_Addrs = Inr [IPNet [10, 0, 0, 7], IPNet [127, 0, 0, 1], OtherAddr]\<rparr>"

definition sample_text :: net_text where
  "sample_text = \<lparr>v6_parse = (\<lambda>_. []), v6_text = (\<lambda>_. [])\<rparr>"

definition sample_tls :: "(nat, bytes list, nat) tls_env" where
  "sample_tls =
     \<lparr>te_ReadFile = (\<lambda>name. if name = ''ca.pem'' then Inr [7] else Inl (ErrText ''no such file'')),
      te_text = sample_text, te_Interfaces = Inr [sample_iface], te_LookupAddr = (\<lambda>_. [''host'']),
      te_Now = (\<lambda>s. (int s, s + 1)), te_AddYears = (\<lambda>t n. t + int n),
      te_GenerateKey = (\<lambda>s. (Inr s, s + 1)),
      te_CreateCertificate = (\<lambda>cert parent pub key s. (Inr [1, word_of_nat key], s + 1)),
      te_MarshalECPrivateKey = (\<lambda>k. Inr [2, word_of_nat k]),
      te_X509KeyPair = (\<lambda>cert key. Inr \<lparr>kp_Certificate = [cert], kp_PrivateKey = length key\<rparr>),
      te_ParseCertificate = (\<lambda>b. Inr (ca_template ''org'' 0 0)),
      te_SystemCertPool = Inr [], te_NewCertPool = [], te_AppendCertsFromPEM = (\<lambda>pool b. pool @ [b]),
      te_pem_Encode = (\<lambda>ty b. (b, None)), te_Log = (\<lambda>_ s. s),
      te_Default_Config = (\<lambda>c d. case c of None \<Rightarrow> Some d | Some _ \<Rightarrow> c),
      te_Default_Logger = (\<lambda>l d. case l of None \<Rightarrow> Some d | Some _ \<Rightarrow> l),
      te_Default_string = (\<lambda>s d. if s = [] then d else s)\<rparr>"

definition sample_conf :: "(nat, bytes list) TLSConfig" where
  "sample_conf =
     \<lparr>tc_CaFile = [], tc_CaKeyFile = [], tc_KeyFile = [], tc_CertFile = [], tc_AutoTLS = True,
      tc_MinVersion = VersionTLS13, tc_ClientAuth = 4, tc_ClientAuthCaFile = [], tc_ClientAuthKeyFile = [],
      tc_ClientAuthCertFile = [], tc_InsecureSkipVerify = False, tc_Logger = None, tc_CaPEM = None,
      tc_CaKeyPEM = None, tc_KeyPEM = None, tc_CertPEM = None, tc_ClientAuthCaPEM = None,
      tc_ClientAuthKeyPEM = None, tc_ClientAuthCertPEM = None, tc_ClientAuthServerName = ''srv'',
      tc_ServerOrgName = [], tc_ServerTLS = None, tc_ClientTLS = None\<rparr>"

lemma sample_tls_ok: "set_Default_ok sample_tls"
  by (simp add: set_Default_ok_def sample_tls_def)

lemma sample_succeeds: "fst (SetupTLS sample_tls (Some sample_conf) 0) = Ok ()"
proof -
  have "case fst (SetupTLS sample_tls (Some sample_conf) 0) of Ok _ \<Rightarrow> True | Fail _ \<Rightarrow> False | Nil_Deref \<Rightarrow> False"
    by code_simp
  then show ?thesis by (simp split: result.splits)
qed

section \<open>SetupTLS\<close>

text \<open>C31: Whatever the files, the host and the cryptographic library give, SetupTLS never
  dereferences a nil pointer, in particular not the CA buffers when it signs a generated server
  certificate, although the guard there only refuses when both of them are nil.\<close>

theorem SetupTLS_never_derefs_nil:
  assumes "set_Default_ok env"
  shows "fst (SetupTLS env p s) \<noteq> Nil_Deref"
proof (cases p)
  case None
  then show ?thesis by (simp add: SetupTLS_def)
next
  case (Some c)
  have "accept (\<lambda>_. configured env c) (configure env (c, s))"
    using configure_configured [OF assms, of c] by (simp add: safe_def)
  then show ?thesis using Some by (auto simp: SetupTLS_def split: prod.splits)
qed

theorem SetupTLS_never_derefs_nil_witness:
  "fst (SetupTLS sample_tls (Some (sample_conf\<lparr>tc_CaFile := ''ca.pem''\<rparr>)) 3) \<noteq> Nil_Deref"
  by (rule SetupTLS_never_derefs_nil [OF sample_tls_ok])

text \<open>C29: When SetupTLS succeeds on a configuration without TLS configurations of the caller and
  with a minimum version, it has created both: the server's has that minimum version, the client
  authentication asked for, the fixed cipher suites and protocols; a CA is the root of both; the certificate of the server is the parsed pair; with client authentication the server
  verifies clients against the client CA or else the server's; with AutoTLS a CA and a
  certificate are always there; the client's server name and verification are as asked.\<close>

theorem SetupTLS_result:
  assumes "set_Default_ok env" and "tc_ServerTLS c0 = None" and "tc_ClientTLS c0 = None"
    and "tc_MinVersion c0 \<noteq> 0" and "SetupTLS env (Some c0) s = (Ok (), p, s')"
  shows "\<exists>c srv cli. p = Some c \<and> tc_ServerTLS c = Some srv \<and> tc_ClientTLS c = Some cli \<and>
    tls_MinVersion srv = tc_MinVersion c0 \<and> tls_ClientAuth srv = tc_ClientAuth c0 \<and>
    tls_CipherSuites srv = default_ciphers \<and> tls_NextProtos srv = [''h2'', ''http/1.1''] \<and>
    (\<forall>ca. tc_CaPEM c = Some ca \<longrightarrow>
      tls_RootCAs srv = Some (te_AppendCertsFromPEM env (system_pool env) ca) \<and>
      tls_RootCAs cli = tls_RootCAs srv) \<and>
    (\<forall>key cert. tc_KeyPEM c = Some key \<and> tc_CertPEM c = Some cert \<longrightarrow>
      (\<exists>pair. te_X509KeyPair env cert key = Inr pair \<and> tls_Certificates srv = [pair])) \<and>
    (tc_ClientAuth c0 \<noteq> NoClientCert \<longrightarrow> (\<exists>ca. auth_ca c = Some ca \<and>
      tls_ClientCAs srv = Some (te_AppendCertsFromPEM env (te_NewCertPool env) ca))) \<and>
    (tc_AutoTLS c0 \<longrightarrow> has_ca c \<and> has_cert c) \<and>
    tls_ServerName cli = tc_ClientAuthServerName c0 \<and>
    tls_InsecureSkipVerify cli = tc_InsecureSkipVerify c0"
proof -
  obtain r c s'' where run: "configure env (c0, s) = (r, c, s'')" by (cases "configure env (c0, s)")
  then have r: "r = Ok ()" "p = Some c" using assms(2,5) by (auto simp: SetupTLS_def)
  have "configured env c0 c"
    using configure_configured [OF assms(1), of c0] run r by (simp add: safe_def) (metis accept.simps(1))
  then show ?thesis using r assms(2,4)
    by (auto simp: configured_def ready_def based_def options_kept_def generated_def roots_ok_def
        own_cert_ok_def auth_ok_def server_base_def default_server_def)
qed

theorem SetupTLS_result_witness:
  "\<exists>c srv. fst (snd (SetupTLS sample_tls (Some sample_conf) 0)) = Some c \<and> tc_ServerTLS c = Some srv \<and>
    tls_MinVersion srv = VersionTLS13 \<and> has_ca c \<and> has_cert c \<and>
    (\<exists>ca. tls_ClientCAs srv = Some ca)"
proof -
  obtain p s' where run: "SetupTLS sample_tls (Some sample_conf) 0 = (Ok (), p, s')"
    using sample_succeeds by (cases "SetupTLS sample_tls (Some sample_conf) 0") auto
  have opts: "tc_ServerTLS sample_conf = None" "tc_ClientTLS sample_conf = None" "tc_AutoTLS sample_conf"
    "tc_ClientAuth sample_conf \<noteq> NoClientCert" "tc_MinVersion sample_conf = VersionTLS13" "VersionTLS13 \<noteq> 0"
    by (simp_all add: sample_conf_def NoClientCert_def VersionTLS13_def)
  with SetupTLS_result [OF sample_tls_ok _ _ _ run] show ?thesis by (auto simp: run)
qed

text \<open>If a file named in the configuration cannot be read, SetupTLS fails with the error of the
  first such file, in the order CA, CA key, key, certificate and the client's, wrapped with its
  name; nothing was generated or logged before.\<close>

theorem SetupTLS_file_error:
  assumes "set_Default_ok env" and "tc_ServerTLS c = None \<or> tc_ClientTLS c = None"
    and "find (unreadable env) (tls_files c) = Some name"
  shows "\<exists>e p. te_ReadFile env name = Inl e \<and>
    SetupTLS env (Some c) s = (Fail (file_error name e), p, s)"
proof -
  have files: "tls_files (default_configs env c) = tls_files c"
    by (simp add: tls_files_def default_configs_def)
  from load_files_first_error [OF assms(3) [folded files], of s] obtain e c' where
    e: "te_ReadFile env name = Inl e"
    "load_files env (default_configs env c, s) = (Fail (file_error name e), c', s)" by blast
  then have "configure env (c, s) = (Fail (file_error name e), c', s)"
    by (simp add: configure_def conf_put_def)
  with e(1) assms(2) show ?thesis by (auto simp: SetupTLS_def)
qed

theorem SetupTLS_file_error_witness:
  "\<exists>p. SetupTLS sample_tls (Some (sample_conf\<lparr>tc_CaFile := ''ca.pem'', tc_KeyFile := ''key''\<rparr>)) 3 =
    (Fail (file_error ''key'' (ErrText ''no such file'')), p, 3)"
proof -
  have "find (unreadable sample_tls)
      (tls_files (sample_conf\<lparr>tc_CaFile := ''ca.pem'', tc_KeyFile := ''key''\<rparr>)) = Some ''key''"
    by (simp add: tls_files_def unreadable_def sample_tls_def sample_conf_def)
  from SetupTLS_file_error [OF sample_tls_ok _ this, of 3] show ?thesis
    by (auto simp: sample_conf_def sample_tls_def)
qed

text \<open>The PEM buffers of the caller's configuration have no effect: with readable files SetupTLS
  gives the same result, error or configuration whatever buffers were set, although the
  comments of the fields say that a buffer is used when its file is unset.\<close>

theorem SetupTLS_ignores_PEM_buffers:
  assumes "tc_ServerTLS c = None \<or> tc_ClientTLS c = None"
    and "find (unreadable env) (tls_files c) = None"
  shows "SetupTLS env (Some (c\<lparr>tc_CaPEM := a1, tc_CaKeyPEM := a2, tc_KeyPEM := a3, tc_CertPEM := a4,
      tc_ClientAuthCaPEM := a5, tc_ClientAuthKeyPEM := a6, tc_ClientAuthCertPEM := a7\<rparr>)) s =
    SetupTLS env (Some c) s"
proof -
  let ?c = "c\<lparr>tc_CaPEM := a1, tc_CaKeyPEM := a2, tc_KeyPEM := a3, tc_CertPEM := a4,
      tc_ClientAuthCaPEM := a5, tc_ClientAuthKeyPEM := a6, tc_ClientAuthCertPEM := a7\<rparr>"
  let ?upd = "default_configs env ?c" and ?base = "default_configs env c"
  have files: "tls_files ?upd = tls_files c" "tls_files ?base = tls_files c"
    by (simp_all add: tls_files_def default_configs_def)
  have "loaded env ?upd = loaded env ?base"
    by (simp add: loaded_def default_configs_def default_server_def)
  then have load: "load_files env (?upd, s) = load_files env (?base, s)"
    using load_files_all [of env ?upd s] load_files_all [of env ?base s] assms(2) by (simp add: files)
  obtain rest where
    rest: "\<forall>c s. configure env (c, s) = seq (load_files env) rest (default_configs env c, s)"
    using configure_load [of env] ..
  have same: "configure env (?c, s) = configure env (c, s)"
    by (simp only: rest seq_same [of "load_files env", OF load])
  show ?thesis by (rule SetupTLS_same [OF _ _ assms(1) same]) simp_all
qed

theorem SetupTLS_ignores_PEM_buffers_witness:
  "SetupTLS sample_tls (Some (sample_conf\<lparr>tc_CaPEM := Some [1], tc_CaKeyPEM := Some [2],
      tc_KeyPEM := None, tc_CertPEM := None, tc_ClientAuthCaPEM := None, tc_ClientAuthKeyPEM := None,
      tc_ClientAuthCertPEM := None\<rparr>)) 0 = SetupTLS sample_tls (Some sample_conf) 0"
  by (rule SetupTLS_ignores_PEM_buffers)
    (simp_all add: sample_conf_def tls_files_def unreadable_def)

section \<open>The generated certificate\<close>

text \<open>The certificate SetupTLS generates is valid for the loopback address and for exactly the
  IPv4 addresses, loopback ones excepted, of the interfaces that are up and no loopback: every
  address found is printed and parsed back unchanged.\<close>

theorem server_template_addresses:
  assumes "discoverNetwork (te_text env) (te_Interfaces env) lookup = Inr network"
    and "te_Interfaces env = Inr ifaces"
  shows "x_IPAddresses (server_template env org network t1 t2) =
    (v4InV6Prefix @ [127, 0, 0, 1]) # map (\<lambda>ip. v4InV6Prefix @ ip)
      (List.map_filter external (concat (map (\<lambda>i. projr (if_Addrs i)) (filter usable ifaces))))"
proof -
  let ?ips = "List.map_filter external (concat (map (\<lambda>i. projr (if_Addrs i)) (filter usable ifaces)))"
  have "add_ifaces (te_text env) ifaces [] = Inr (ni_IPAddresses network)"
    using assms by (auto simp: discoverNetwork_def discoverNetworkAddresses_def split: sum.splits)
  from add_ifaces_Inr [OF this] have ips: "ni_IPAddresses network = map dotted ?ips" by simp
  have four: "\<forall>ip \<in> set ?ips. length ip = 4"
    by (auto simp: List.map_filter_def external_def To4_length split: if_splits)
  then have "map (ParseIP (te_text env)) (map dotted ?ips) = map (\<lambda>ip. v4InV6Prefix @ ip) ?ips"
    by (auto simp: ParseIP_dotted)
  moreover have "ParseIP (te_text env) ''127.0.0.1'' = v4InV6Prefix @ [127, 0, 0, 1]" 
    using ParseIP_dotted [of "[127, 0, 0, 1]"] by (simp add: dotted_def itoa_eval)
  ultimately show ?thesis by (simp add: server_template_def ips v4InV6Prefix_def)
qed

theorem server_template_addresses_witness:
  "x_IPAddresses (server_template sample_tls ''org'' \<lparr>ni_IPAddresses = [''10.0.0.7''], ni_DNSNames = [''host'']\<rparr> 0 0) =
    [v4InV6Prefix @ [127, 0, 0, 1], v4InV6Prefix @ [10, 0, 0, 7]]"
proof -
  have i: "te_Interfaces sample_tls = Inr [sample_iface]" by (simp add: sample_tls_def)
  have d: "discoverNetwork (te_text sample_tls) (te_Interfaces sample_tls) (\<lambda>_. [''host'']) =
      Inr \<lparr>ni_IPAddresses = [''10.0.0.7''], ni_DNSNames = [''host'']\<rparr>"
    by (simp add: discoverNetwork_def discoverNetworkAddresses_def i sample_iface_def FlagUp_def
        FlagLoopback_def IsLoopback_def To4_def IP_String_def dotted_def itoa_eval)
  have "List.map_filter external (concat (map (\<lambda>i. projr (if_Addrs i)) (filter usable [sample_iface]))) =
      [[10, 0, 0, 7]]"
    by code_simp
  with server_template_addresses [OF d i, of "''org''" 0 0] show ?thesis by simp
qed

end
