(* ===== verification/Scanner.thy ===== *)
theory Scanner
  imports Go_IO
begin

text \<open>
  \<open>bufio.Scanner\<close> splitting lines, as log.go and cmd/duh use it, as a function of the bytes
  its reader delivers and of the error the reader ends with. A line of 64 KiB or more without
  its newline does not fit the scanner's buffer and ends the scan with an error; the last line
  may lack its newline (a reader is meant that reports its end on its own, as files and pipes
  do).
\<close>

definition MaxScanTokenSize :: nat where
  "MaxScanTokenSize = 64 * 1024"

definition ErrTooLong :: error where
  "ErrTooLong = ErrText ''bufio.Scanner: token too long''"

definition newline :: byte where "newline = 10"

text \<open>\<open>ScanLines\<close> drops one carriage return at the end of a line.\<close>

definition dropCR :: "bytes \<Rightarrow> bytes" where
  "dropCR line = (if line \<noteq> [] \<and> last line = 13 then butlast line else line)"

definition read_result :: "error \<Rightarrow> error option" where
  "read_result e = (if e = EOF then None else Some e)"

text \<open>The lines and the error \<open>Err\<close> reports after the last \<open>Scan\<close>.\<close>

function scan_lines :: "bytes \<Rightarrow> error \<Rightarrow> bytes list \<times> error option" where
  "scan_lines b e =
     (if b = [] then ([], read_result e)
      else
        (let line = takeWhile (\<lambda>x. x \<noteq> newline) b; rest = dropWhile (\<lambda>x. x \<noteq> newline) b in
         if MaxScanTokenSize \<le> length line then ([], Some ErrTooLong)
         else if rest = [] then ([dropCR line], read_result e)
         else (case scan_lines (tl rest) e of (ls, err) \<Rightarrow> (dropCR line # ls, err))))"
  by pat_completeness auto
termination
proof (relation "measure (\<lambda>(b, e). length b)", goal_cases)
  case (2 b e line rest)
  have "length rest \<le> length b" using 2 by (simp add: length_dropWhile_le)
  moreover have "length (tl rest) < length rest" using 2 by simp
  ultimately show ?case by simp
qed simp

declare scan_lines.simps [simp del]

section \<open>Lemmas\<close>

lemma scan_lines_Nil [simp]: "scan_lines [] e = ([], read_result e)"
  by (simp add: scan_lines.simps)

text \<open>One complete line, then the rest.\<close>

lemma scan_lines_line:
  assumes "newline \<notin> set line" and "length line < MaxScanTokenSize"
  shows "scan_lines (line @ newline # b) e =
    (dropCR line # fst (scan_lines b e), snd (scan_lines b e))"
  using assms by (subst scan_lines.simps)
    (auto simp: takeWhile_append dropWhile_append Let_def split: prod.splits)

lemma scan_lines_last:
  assumes "newline \<notin> set line" and "length line < MaxScanTokenSize" and "line \<noteq> []"
  shows "scan_lines line e = ([dropCR line], read_result e)"
proof -
  have "\<forall>x \<in> set line. x \<noteq> newline" using assms(1) by auto
  then have "takeWhile (\<lambda>x. x \<noteq> newline) line = line" and "dropWhile (\<lambda>x. x \<noteq> newline) line = []"
    by (simp_all add: takeWhile_eq_all_conv)
  note cut = this
  show ?thesis using assms(2,3) by (subst scan_lines.simps) (simp add: Let_def cut)
qed

lemma scan_lines_long:
  assumes "newline \<notin> set line" and "MaxScanTokenSize \<le> length line"
  shows "scan_lines (line @ b) e = ([], Some ErrTooLong)"
proof -
  have "MaxScanTokenSize \<le> length (takeWhile (\<lambda>x. x \<noteq> newline) (line @ b))"
    using assms by (auto simp: takeWhile_append)
  moreover have "line @ b \<noteq> []" using assms(2) by (auto simp: MaxScanTokenSize_def)
  ultimately show ?thesis by (subst scan_lines.simps) (auto simp: Let_def)
qed

text \<open>Printing lines and scanning them back.\<close>

definition plain_line :: "bytes \<Rightarrow> bool" where
  "plain_line l \<longleftrightarrow> newline \<notin> set l \<and> length l < MaxScanTokenSize \<and> (l = [] \<or> last l \<noteq> 13)"

lemma scan_print_lines:
  "\<forall>l \<in> set ls. plain_line l \<Longrightarrow> scan_lines (concat (map (\<lambda>l. l @ [newline]) ls)) EOF = (ls, None)"
proof (induction ls)
  case (Cons l ls)
  then have "scan_lines (l @ newline # concat (map (\<lambda>l. l @ [newline]) ls)) EOF = (l # ls, None)"
    by (subst scan_lines_line) (auto simp: plain_line_def dropCR_def)
  then show ?case by simp
qed (simp add: read_result_def)

end
