(* ===== verification/Log_Adaptor.thy ===== *)
theory Log_Adaptor
  imports Scanner
begin

text \<open>
  log.go: the adaptor that turns what is written to it into entries of a logger. The caller
  writes to a pipe; a goroutine scans the lines from its other end. The pipe has no buffer:
  a \<open>Write\<close> waits until the goroutine has taken all its bytes, in as many reads as its
  buffer makes it, or has closed its end. \<open>Close\<close> closes the pipe and waits for the
  goroutine. A run is any interleaving of the two.

  The caller is the list of its calls; the model keeps the calls still to make, the bytes a
  blocked \<open>Write\<close> has left, the result of each call, the scanner's buffer and the log. There is one
  caller, which makes its calls one after the other, as the log package does for the HTTP server's
  error log: a \<open>log.Logger\<close> writes under its own mutex.
\<close>

datatype adaptor_call = AWrite bytes | AClose

datatype adaptor_entry = EInfo bytes | EError error

text \<open>
  \<open>CWriting once n p\<close>: in \<open>Write\<close>, \<open>n\<close> bytes taken, \<open>p\<close> left, nothing offered yet if
  \<open>once\<close> (a pipe hands over an empty slice too); \<open>CWaiting\<close>: in \<open>wg.Wait\<close>.
\<close>

datatype caller_pc = CIdle | CWriting bool nat bytes | CWaiting

datatype scanner_pc = GScan | GExited

record adaptor =
  ad_calls :: "adaptor_call list"
  ad_caller :: caller_pc
  ad_results :: "(nat \<times> error option) list"
  ad_wclosed :: bool
  ad_goroutine :: scanner_pc
  ad_buf :: bytes
  ad_empties :: nat
  ad_log :: "adaptor_entry list"

definition ErrClosedPipe :: error where
  "ErrClosedPipe = ErrText ''io: read/write on closed pipe''"

definition ErrNoProgress :: error where
  "ErrNoProgress = ErrText ''multiple Read calls return no data or error''"

definition maxConsecutiveEmptyReads :: nat where
  "maxConsecutiveEmptyReads = 100"

definition NewHttpLogAdaptor :: "adaptor_call list \<Rightarrow> adaptor" where
  "NewHttpLogAdaptor calls = \<lparr>ad_calls = calls, ad_caller = CIdle, ad_results = [], ad_wclosed = False,
     ad_goroutine = GScan, ad_buf = [], ad_empties = 0, ad_log = []\<rparr>"

section \<open>The goroutine\<close>

text \<open>
  With a complete line in its buffer the scanner yields it. Otherwise a full buffer ends the
  scan; else it reads: \<open>k\<close> bytes of a blocked \<open>Write\<close>, or the end of a closed pipe, at
  which a partial line is the last one. Leaving the loop closes the reader.
\<close>

definition first_line :: "bytes \<Rightarrow> (bytes \<times> bytes) option" where
  "first_line b = (if newline \<in> set b
     then Some (takeWhile (\<lambda>x. x \<noteq> newline) b, tl (dropWhile (\<lambda>x. x \<noteq> newline) b)) else None)"

definition scan_end :: "error option \<Rightarrow> adaptor \<Rightarrow> adaptor" where
  "scan_end err s = s\<lparr>ad_goroutine := GExited, ad_buf := [],
     ad_log := ad_log s @ (if ad_buf s = [] then [] else [EInfo (dropCR (ad_buf s))]) @
       (case err of None \<Rightarrow> [] | Some e \<Rightarrow> [EError e])\<rparr>"

definition scan_too_long :: "adaptor \<Rightarrow> adaptor" where
  "scan_too_long s = s\<lparr>ad_goroutine := GExited, ad_buf := [], ad_log := ad_log s @ [EError ErrTooLong]\<rparr>"

text \<open>A read that gives nothing: too many in a row end the scan.\<close>

definition empty_read :: "adaptor \<Rightarrow> adaptor" where
  "empty_read s =
     (if maxConsecutiveEmptyReads \<le> ad_empties s then scan_end (Some ErrNoProgress) s
      else s\<lparr>ad_empties := ad_empties s + 1\<rparr>)"

definition step_goroutine :: "nat \<Rightarrow> adaptor \<Rightarrow> adaptor option" where
  "step_goroutine k s =
     (case ad_goroutine s of
        GExited \<Rightarrow> None
      | GScan \<Rightarrow>
          (case first_line (ad_buf s) of
             Some (line, rest) \<Rightarrow> Some (s\<lparr>ad_buf := rest, ad_log := ad_log s @ [EInfo (dropCR line)]\<rparr>)
           | None \<Rightarrow>
               (if MaxScanTokenSize \<le> length (ad_buf s) then Some (scan_too_long s)
                else
                  (case ad_caller s of
                     CWriting once n p \<Rightarrow>
                       (if p = [] then
                          (if once then Some (empty_read (s\<lparr>ad_caller := CWriting False n []\<rparr>)) else None)
                        else if 0 < k \<and> k \<le> length p \<and> length (ad_buf s) + k \<le> MaxScanTokenSize
                        then Some (s\<lparr>ad_buf := ad_buf s @ take k p, ad_empties := 0,
                          ad_caller := CWriting False (n + k) (drop k p)\<rparr>)
                        else None)
                   | _ \<Rightarrow> (if ad_wclosed s then Some (scan_end None s) else None)))))"

section \<open>The caller\<close>

definition step_caller :: "adaptor \<Rightarrow> adaptor option" where
  "step_caller s =
     (case ad_caller s of
        CIdle \<Rightarrow>
          (case ad_calls s of
             [] \<Rightarrow> None
           | AWrite p # calls \<Rightarrow>
               (if ad_wclosed s \<or> ad_goroutine s = GExited
                then Some (s\<lparr>ad_calls := calls, ad_results := ad_results s @ [(0, Some ErrClosedPipe)]\<rparr>)
                else Some (s\<lparr>ad_calls := calls, ad_caller := CWriting True 0 p\<rparr>))
           | AClose # calls \<Rightarrow> Some (s\<lparr>ad_calls := calls, ad_wclosed := True, ad_caller := CWaiting\<rparr>))
      | CWriting once n p \<Rightarrow>
          (if \<not> once \<and> p = []
           then Some (s\<lparr>ad_caller := CIdle, ad_results := ad_results s @ [(n, None)]\<rparr>)
           else if ad_goroutine s = GExited
           then Some (s\<lparr>ad_caller := CIdle, ad_results := ad_results s @ [(n, Some ErrClosedPipe)]\<rparr>)
           else None)
      | CWaiting \<Rightarrow>
          (if ad_goroutine s = GExited
           then Some (s\<lparr>ad_caller := CIdle, ad_results := ad_results s @ [(0, None)]\<rparr>) else None))"

inductive ad_step :: "adaptor \<Rightarrow> adaptor \<Rightarrow> bool" where
  caller: "step_caller s = Some t \<Longrightarrow> ad_step s t"
| goroutine: "step_goroutine k s = Some t \<Longrightarrow> ad_step s t"

inductive_cases ad_stepE: "ad_step s t"

section \<open>Lemmas\<close>

text \<open>The bytes that have not reached the scanner, and the log the whole stream is to give.\<close>

fun calls_bytes :: "adaptor_call list \<Rightarrow> bytes" where
  "calls_bytes [] = []"
| "calls_bytes (AWrite p # calls) = p @ calls_bytes calls"
| "calls_bytes (AClose # calls) = []"

definition unread :: "adaptor \<Rightarrow> bytes" where
  "unread s = (case ad_caller s of CWriting once n p \<Rightarrow> p | _ \<Rightarrow> []) @
     (if ad_wclosed s then [] else calls_bytes (ad_calls s))"

definition entries :: "bytes list \<times> error option \<Rightarrow> adaptor_entry list" where
  "entries r = map EInfo (fst r) @ (case snd r of None \<Rightarrow> [] | Some e \<Rightarrow> [EError e])"

text \<open>
  Scanning what the buffer and the caller still hold completes the log; when the goroutine has
  left, the log is complete. Calls with empty slices are excluded.
\<close>

definition offered :: "caller_pc \<Rightarrow> bool" where
  "offered pc \<longleftrightarrow> (\<forall>n. pc \<noteq> CWriting True n [])"

definition ad_inv :: "adaptor_entry list \<Rightarrow> adaptor \<Rightarrow> bool" where
  "ad_inv full s \<longleftrightarrow>
     (if ad_goroutine s = GExited then full = ad_log s
      else full = ad_log s @ entries (scan_lines (ad_buf s @ unread s) EOF)) \<and>
     length (ad_buf s) \<le> MaxScanTokenSize \<and> AWrite [] \<notin> set (ad_calls s) \<and> offered (ad_caller s) \<and>
     (ad_caller s = CWaiting \<longrightarrow> ad_wclosed s) \<and>
     (ad_wclosed s \<and> ad_caller s \<noteq> CWaiting \<longrightarrow> ad_goroutine s = GExited)"

lemma first_line_Some:
  assumes "first_line b = Some (line, rest)"
  shows "b = line @ newline # rest" and "newline \<notin> set line"
proof -
  from assms have n: "newline \<in> set b" and l: "line = takeWhile (\<lambda>x. x \<noteq> newline) b"
    and r: "rest = tl (dropWhile (\<lambda>x. x \<noteq> newline) b)"
    by (auto simp: first_line_def split: if_splits)
  have "dropWhile (\<lambda>x. x \<noteq> newline) b \<noteq> []" using n by (auto simp: dropWhile_eq_Nil_conv)
  moreover from this have "hd (dropWhile (\<lambda>x. x \<noteq> newline) b) = newline"
    using hd_dropWhile [of "\<lambda>x. x \<noteq> newline" b] by simp
  ultimately have "dropWhile (\<lambda>x. x \<noteq> newline) b = newline # rest"
    unfolding r by (metis list.collapse)
  then show "b = line @ newline # rest" using takeWhile_dropWhile_id [of "\<lambda>x. x \<noteq> newline" b] l by metis
  show "newline \<notin> set line" unfolding l by (auto dest: set_takeWhileD)
qed

lemma take_drop_append: "take k p @ drop k p @ r = p @ r"
  by (metis append.assoc append_take_drop_id)

lemma first_line_None: "first_line b = None \<longleftrightarrow> newline \<notin> set b"
  by (simp add: first_line_def)

lemma entries_line: "entries (x # ls, err) = EInfo x # entries (ls, err)"
  by (simp add: entries_def)

lemma step_goroutine_inv:
  assumes "step_goroutine k s = Some t" and inv: "ad_inv full s"
  shows "ad_inv full t"
proof -
  have g: "ad_goroutine s = GScan" using assms(1) by (cases "ad_goroutine s") (simp_all add: step_goroutine_def)
  with inv have full: "full = ad_log s @ entries (scan_lines (ad_buf s @ unread s) EOF)"
    and len: "length (ad_buf s) \<le> MaxScanTokenSize" by (simp_all add: ad_inv_def)
  show ?thesis
  proof (cases "first_line (ad_buf s)")
    case (Some lr)
    then obtain line rest where fl: "first_line (ad_buf s) = Some (line, rest)" by (cases lr) auto
    note b = first_line_Some [OF fl]
    have "length line < MaxScanTokenSize" using len b(1) by simp
    note sc = scan_lines_line [OF b(2) this, of "rest @ unread s" EOF]
    have t: "t = s\<lparr>ad_buf := rest, ad_log := ad_log s @ [EInfo (dropCR line)]\<rparr>"
      using assms(1) g fl by (simp add: step_goroutine_def)
    have "unread t = unread s" by (simp add: t unread_def)
    then show ?thesis using inv g full sc b(1) by (simp add: ad_inv_def t entries_line)
  next
    case None
    then have nn: "newline \<notin> set (ad_buf s)" by (simp add: first_line_None)
    show ?thesis
    proof (cases "MaxScanTokenSize \<le> length (ad_buf s)")
      case True
      then have "t = scan_too_long s" using assms(1) g None by (simp add: step_goroutine_def)
      with inv full scan_lines_long [OF nn True] show ?thesis
        by (simp add: ad_inv_def scan_too_long_def entries_def)
    next
      case False
      show ?thesis
      proof (cases "\<exists>once n p. ad_caller s = CWriting once n p")
        case True
        then show ?thesis using assms(1) g None False inv
          by (auto simp: take_drop_append step_goroutine_def ad_inv_def unread_def offered_def split: if_splits)
      next
        case idle: False
        then have "ad_wclosed s" "t = scan_end None s" "unread s = []"
          using assms(1) g None False
          by (auto simp: step_goroutine_def unread_def split: if_splits caller_pc.splits)
        moreover have "entries (scan_lines (ad_buf s) EOF) =
            (if ad_buf s = [] then [] else [EInfo (dropCR (ad_buf s))])"
          using scan_lines_last [OF nn, of EOF] False by (simp add: entries_def read_result_def)
        ultimately show ?thesis using inv g full
          by (auto simp: ad_inv_def scan_end_def)
      qed
    qed
  qed
qed

lemma step_caller_inv: "step_caller s = Some t \<Longrightarrow> ad_inv full s \<Longrightarrow> ad_inv full t"
  by (auto simp: step_caller_def ad_inv_def unread_def offered_def
      split: caller_pc.splits list.splits adaptor_call.splits if_splits)

interpretation adaptor: inductive_invariant ad_step "ad_inv full" for full
  by unfold_locales (auto elim!: ad_stepE intro: step_goroutine_inv step_caller_inv)

text \<open>Progress: until every call has returned some step is possible, and every step shortens the run.\<close>

lemma ad_progress:
  assumes "ad_inv full s" and "ad_calls s \<noteq> [] \<or> ad_caller s \<noteq> CIdle"
  shows "\<exists>t. ad_step s t"
proof (cases "step_caller s")
  case (Some t)
  then show ?thesis by (auto intro: ad_step.caller)
next
  case None
  have "\<exists>k t. step_goroutine k s = Some t"
  proof (cases "first_line (ad_buf s) = None \<and> length (ad_buf s) < MaxScanTokenSize")
    case True
    with None assms show ?thesis
      by (auto simp: step_caller_def step_goroutine_def ad_inv_def offered_def Suc_le_eq
          split: caller_pc.splits list.splits adaptor_call.splits scanner_pc.splits if_splits
          intro!: exI [of _ 1])
  next
    case False
    with None assms show ?thesis
      by (auto simp: step_caller_def step_goroutine_def ad_inv_def
          split: caller_pc.splits list.splits adaptor_call.splits scanner_pc.splits if_splits option.splits)
  qed
  then show ?thesis by (auto intro: ad_step.goroutine)
qed

fun call_rank :: "adaptor_call \<Rightarrow> nat" where
  "call_rank (AWrite p) = 4 + 2 * length p"
| "call_rank AClose = 4"

fun caller_rank :: "caller_pc \<Rightarrow> nat" where
  "caller_rank CIdle = 0"
| "caller_rank (CWriting once n p) = (if once then 3 else 2) + 2 * length p"
| "caller_rank CWaiting = 2"

definition ad_rank :: "adaptor \<Rightarrow> nat" where
  "ad_rank s = sum_list (map call_rank (ad_calls s)) + caller_rank (ad_caller s) + length (ad_buf s) +
     (if ad_goroutine s = GScan then 1 else 0)"

lemma ad_step_rank: "ad_step s t \<Longrightarrow> ad_rank t < ad_rank s"
proof (elim ad_stepE)
  assume "step_caller s = Some t"
  then show ?thesis
    by (auto simp: step_caller_def ad_rank_def split: caller_pc.splits list.splits adaptor_call.splits if_splits)
next
  fix k
  assume st: "step_goroutine k s = Some t"
  show ?thesis
  proof (cases "first_line (ad_buf s)")
    case (Some lr)
    then obtain line rest where fl: "first_line (ad_buf s) = Some (line, rest)" by (cases lr) auto
    then show ?thesis using st first_line_Some(1) [OF fl]
      by (auto simp: step_goroutine_def ad_rank_def split: scanner_pc.splits)
  next
    case None
    then show ?thesis using st
      by (auto simp: step_goroutine_def ad_rank_def scan_end_def scan_too_long_def empty_read_def
          split: scanner_pc.splits caller_pc.splits if_splits)
  qed
qed

end
