(* ===== verification/Wait.thy ===== *)
theory Wait
  imports Errors
begin

text \<open>
  wait.go: \<open>WaitForConnect\<close> dials until a connection is accepted or the context is done. The
  dialler, the context and the clock act on a state of the outside world of any type; without a
  TLS configuration the plain dialler is used. The loop may run for ever, so it is a partial
  function. The accepted connection is closed at once; that has no effect in the model.
\<close>

record 's dial_world =
  dw_Dial :: "bool \<Rightarrow> string \<Rightarrow> 's \<Rightarrow> error option \<times> 's"
  dw_ctx_Err :: "'s \<Rightarrow> error option"
  dw_Sleep :: "int \<Rightarrow> 's \<Rightarrow> 's"

definition dial_pause :: int where
  "dial_pause = 1000000 * 100"

partial_function (option) wait_loop ::
  "'s dial_world \<Rightarrow> bool \<Rightarrow> string \<Rightarrow> string list \<Rightarrow> 's \<Rightarrow> (error option \<times> 's) option" where
  "wait_loop w tls address errs s =
     (case dw_Dial w tls address s of
        (None, s1) \<Rightarrow> Some (None, s1)
      | (Some err, s1) \<Rightarrow>
          (let errs1 = errs @ [Error err] in
           case dw_ctx_Err w s1 of
             Some e \<Rightarrow> Some (Some (ErrText (Join (errs1 @ [Error e]) [CHR 0x0A])), s1)
           | None \<Rightarrow> wait_loop w tls address errs1 (dw_Sleep w dial_pause s1)))"

text \<open>\<open>tls\<close> tells whether a TLS configuration was given.\<close>

definition WaitForConnect ::
  "'s dial_world \<Rightarrow> bool \<Rightarrow> string \<Rightarrow> 's \<Rightarrow> (error option \<times> 's) option" where
  "WaitForConnect w tls address s =
     (if address = [] then Some (Some (ErrText ''WaitForConnect() requires a valid address''), s)
      else wait_loop w tls address [] s)"

section \<open>Lemmas\<close>

text \<open>
  The world before the attempt number \<open>n\<close>, if all attempts before it fail and the context is
  not done, and the texts of their errors.
\<close>

definition attempt :: "'s dial_world \<Rightarrow> bool \<Rightarrow> string \<Rightarrow> 's \<Rightarrow> 's" where
  "attempt w tls address s = dw_Sleep w dial_pause (snd (dw_Dial w tls address s))"

definition attempts_fail :: "'s dial_world \<Rightarrow> bool \<Rightarrow> string \<Rightarrow> 's \<Rightarrow> nat \<Rightarrow> bool" where
  "attempts_fail w tls address s n \<longleftrightarrow> (\<forall>i < n.
     let r = dw_Dial w tls address ((attempt w tls address ^^ i) s) in
     fst r \<noteq> None \<and> dw_ctx_Err w (snd r) = None)"

definition dial_errors :: "'s dial_world \<Rightarrow> bool \<Rightarrow> string \<Rightarrow> 's \<Rightarrow> nat \<Rightarrow> string list" where
  "dial_errors w tls address s n =
     map (\<lambda>i. Error (the (fst (dw_Dial w tls address ((attempt w tls address ^^ i) s))))) [0..<n]"

lemma wait_loop_step:
  assumes "attempts_fail w tls address s 1"
  shows "wait_loop w tls address errs s =
    wait_loop w tls address (errs @ dial_errors w tls address s 1) (attempt w tls address s)"
  using assms by (subst wait_loop.simps)
    (auto simp: attempts_fail_def dial_errors_def attempt_def Let_def split: prod.splits option.splits)

lemma attempts_fail_Suc:
  "attempts_fail w tls address s (Suc n) \<longleftrightarrow>
    attempts_fail w tls address s n \<and> attempts_fail w tls address ((attempt w tls address ^^ n) s) 1"
  by (auto simp: attempts_fail_def less_Suc_eq)

lemma wait_loop_steps:
  "attempts_fail w tls address s n \<Longrightarrow> wait_loop w tls address errs s =
    wait_loop w tls address (errs @ dial_errors w tls address s n) ((attempt w tls address ^^ n) s)"
proof (induction n)
  case 0
  then show ?case by (simp add: dial_errors_def)
next
  case (Suc n)
  then have a: "attempts_fail w tls address s n"
    and b: "attempts_fail w tls address ((attempt w tls address ^^ n) s) 1"
    by (simp_all only: attempts_fail_Suc)
  have "dial_errors w tls address s (Suc n) =
      dial_errors w tls address s n @ dial_errors w tls address ((attempt w tls address ^^ n) s) 1"
    by (simp add: dial_errors_def)
  with Suc.IH [OF a] wait_loop_step [OF b, of "errs @ dial_errors w tls address s n"] show ?case by simp
qed

end
