(* ===== verification/Flag_Set.thy ===== *)
theory Flag_Set
  imports Errors "HOL-Library.Char_ord" "HOL-Library.List_Lexorder"
begin

text \<open>
  The two commands share how they read their command line and how they print and end. What a
  command does is a list of events; \<open>os.Exit\<close> is an outcome of its own, \<open>Exit\<close>.

  The command line is read by the package flag of the standard library: a \<open>FlagSet\<close> of string and
  boolean flags, each writing the variable it was given, and \<open>Parse\<close> in the mode
  \<open>ExitOnError\<close>. A flag's variable is a field of the command's configuration, so a flag carries the
  update of that field. The usage texts of the commands contain no back quotes and their
  default values only characters that \<open>%q\<close> does not escape, and the usage is modelled for such texts.
\<close>

section \<open>Commands\<close>

text \<open>An \<open>Fprintf\<close> to standard error is the format it is given and its operands.\<close>

datatype event = Stdout string | Stderr string "string list" | Logged string

datatype 'a run = Return_run 'a | Exit int

type_synonym 's cmd = "'s \<times> event list"

section \<open>Flags\<close>

datatype 'c flag_value = StringFlag "string \<Rightarrow> 'c \<Rightarrow> 'c" string | BoolFlag "bool \<Rightarrow> 'c \<Rightarrow> 'c" bool

record 'c Flag =
  fl_Name :: string
  fl_Usage :: string
  fl_Value :: "'c flag_value"

record 'c FlagSet =
  fs_name :: string
  fs_formal :: "'c Flag list"
  fs_config :: 'c

definition NewFlagSet :: "string \<Rightarrow> 'c \<Rightarrow> 'c FlagSet" where
  "NewFlagSet name c = \<lparr>fs_name = name, fs_formal = [], fs_config = c\<rparr>"

text \<open>Defining a flag stores its default value in its variable.\<close>

definition StringVar ::
  "(string \<Rightarrow> 'c \<Rightarrow> 'c) \<Rightarrow> string \<Rightarrow> string \<Rightarrow> string \<Rightarrow> 'c FlagSet \<Rightarrow> 'c FlagSet" where
  "StringVar p name value usage f =
     f\<lparr>fs_formal := fs_formal f @ [\<lparr>fl_Name = name, fl_Usage = usage, fl_Value = StringFlag p value\<rparr>],
       fs_config := p value (fs_config f)\<rparr>"

definition BoolVar ::
  "(bool \<Rightarrow> 'c \<Rightarrow> 'c) \<Rightarrow> string \<Rightarrow> bool \<Rightarrow> string \<Rightarrow> 'c FlagSet \<Rightarrow> 'c FlagSet" where
  "BoolVar p name value usage f =
     f\<lparr>fs_formal := fs_formal f @ [\<lparr>fl_Name = name, fl_Usage = usage, fl_Value = BoolFlag p value\<rparr>],
       fs_config := p value (fs_config f)\<rparr>"

section \<open>Usage\<close>

definition flag_usage :: "'c Flag \<Rightarrow> string" where
  "flag_usage fl =
     (let head = ''  -'' @ fl_Name fl @ (case fl_Value fl of StringFlag _ _ \<Rightarrow> '' string'' | BoolFlag _ _ \<Rightarrow> []);
          default = (case fl_Value fl of
              StringFlag _ v \<Rightarrow>
                (if v = [] then [] else '' (default '' @ [CHR 0x22] @ v @ [CHR 0x22] @ '')'')
            | BoolFlag _ v \<Rightarrow> (if v then '' (default true)'' else []))
      in head @ (if length head \<le> 4 then [CHR 0x09] else [CHR 0x0A] @ ''    '' @ [CHR 0x09]) @
         concat (map (\<lambda>c. if c = CHR 0x0A then [CHR 0x0A] @ ''    '' @ [CHR 0x09] else [c]) (fl_Usage fl)) @
         default @ [CHR 0x0A])"

text \<open>The default usage of a flag set: its flags in the order of their names.\<close>

definition defaultUsage :: "'c FlagSet \<Rightarrow> event" where
  "defaultUsage f =
     Stderr ''%s'' [''Usage of '' @ fs_name f @ '':'' @ [CHR 0x0A] @
       concat (map flag_usage (sort_key fl_Name (fs_formal f)))]"

section \<open>Parsing\<close>

datatype flag_error = ErrHelp | FlagFail string "string list"

definition ParseBool :: "string \<Rightarrow> bool option" where
  "ParseBool s =
     (if s \<in> {''1'', ''t'', ''T'', ''TRUE'', ''true'', ''True''} then Some True
      else if s \<in> {''0'', ''f'', ''F'', ''FALSE'', ''false'', ''False''} then Some False else None)"

definition lookup_flag :: "'c FlagSet \<Rightarrow> string \<Rightarrow> 'c Flag option" where
  "lookup_flag f name = List.find (\<lambda>fl. fl_Name fl = name) (fs_formal f)"

text \<open>The name of a flag and its value, if the argument has one: what follows the first \<open>=\<close>.\<close>

definition split_flag :: "string \<Rightarrow> string \<times> string option" where
  "split_flag s =
     (let name = hd s # takeWhile (\<lambda>c. c \<noteq> CHR ''='') (tl s);
          rest = dropWhile (\<lambda>c. c \<noteq> CHR ''='') (tl s)
      in (name, if rest = [] then None else Some (tl rest)))"

text \<open>Setting a flag, with the value of the argument or the argument after it.\<close>

definition set_flag ::
  "'c FlagSet \<Rightarrow> 'c Flag \<Rightarrow> string option \<Rightarrow> string list \<Rightarrow> flag_error + 'c FlagSet \<times> string list" where
  "set_flag f fl value args =
     (case fl_Value fl of
        BoolFlag p _ \<Rightarrow>
          (case value of
             None \<Rightarrow> Inr (f\<lparr>fs_config := p True (fs_config f)\<rparr>, args)
           | Some v \<Rightarrow>
               (case ParseBool v of
                  Some b \<Rightarrow> Inr (f\<lparr>fs_config := p b (fs_config f)\<rparr>, args)
                | None \<Rightarrow> Inl (FlagFail ''invalid boolean value %q for -%s: %v'' [v, fl_Name fl, ''parse error''])))
      | StringFlag p _ \<Rightarrow>
          (case value of
             Some v \<Rightarrow> Inr (f\<lparr>fs_config := p v (fs_config f)\<rparr>, args)
           | None \<Rightarrow>
               (case args of
                  v # args' \<Rightarrow> Inr (f\<lparr>fs_config := p v (fs_config f)\<rparr>, args')
                | [] \<Rightarrow> Inl (FlagFail ''flag needs an argument: -%s'' [fl_Name fl]))))"

text \<open>\<open>parseOne\<close>: the first component of a success says whether a flag was seen.\<close>

definition parseOne :: "'c FlagSet \<Rightarrow> string list \<Rightarrow> flag_error + bool \<times> 'c FlagSet \<times> string list" where
  "parseOne f args =
     (case args of
        [] \<Rightarrow> Inr (False, f, [])
      | s # rest \<Rightarrow>
          (if length s < 2 \<or> s ! 0 \<noteq> CHR ''-'' then Inr (False, f, args)
           else if s = ''--'' then Inr (False, f, rest)
           else
             (let name = drop (if s ! 1 = CHR ''-'' then 2 else 1) s in
              if name = [] \<or> hd name = CHR ''-'' \<or> hd name = CHR ''='' then
                Inl (FlagFail ''bad flag syntax: %s'' [s])
              else
                (case split_flag name of (n, value) \<Rightarrow>
                  (case lookup_flag f n of
                     None \<Rightarrow>
                       (if n = ''help'' \<or> n = ''h'' then Inl ErrHelp
                        else Inl (FlagFail ''flag provided but not defined: -%s'' [n]))
                   | Some fl \<Rightarrow>
                       (case set_flag f fl value rest of
                          Inl e \<Rightarrow> Inl e
                        | Inr (f', args') \<Rightarrow> Inr (True, f', args')))))))"

lemma set_flag_shorter: "set_flag f fl value args = Inr (f', args') \<Longrightarrow> length args' \<le> length args"
  by (auto simp: set_flag_def split: flag_value.splits option.splits list.splits)

lemma parseOne_shorter: "parseOne f args = Inr (True, f', args') \<Longrightarrow> length args' < length args"
  by (auto simp: parseOne_def Let_def split: list.splits if_splits prod.splits option.splits sum.splits
      dest!: set_flag_shorter)

function parse_args :: "'c FlagSet \<Rightarrow> string list \<Rightarrow> flag_error + 'c FlagSet \<times> string list" where
  "parse_args f args =
     (case parseOne f args of
        Inl e \<Rightarrow> Inl e
      | Inr (seen, f', args') \<Rightarrow> (if seen then parse_args f' args' else Inr (f', args')))"
  by pat_completeness auto
termination
  by (relation "measure (\<lambda>(f, args). length args)") (auto dest: parseOne_shorter)

declare parse_args.simps [simp del]

text \<open>
  \<open>Parse\<close> with \<open>ExitOnError\<close>: a failure prints its message and the usage and exits with 2, a
  request for help prints the usage and exits with 0.
\<close>

definition Parse :: "'c FlagSet \<Rightarrow> string list \<Rightarrow> 's cmd \<Rightarrow> ('c \<times> string list) run \<times> 's cmd" where
  "Parse f args st =
     (case parse_args f args of
        Inr (f', rest) \<Rightarrow> (Return_run (fs_config f', rest), st)
      | Inl ErrHelp \<Rightarrow> (Exit 0, fst st, snd st @ [defaultUsage f])
      | Inl (FlagFail format a) \<Rightarrow> (Exit 2, fst st, snd st @ [Stderr (format @ [CHR 0x0A]) a, defaultUsage f]))"

section \<open>Writing a command line\<close>

text \<open>
  The ways to write a setting: \<open>-name=value\<close>, \<open>-name value\<close> and \<open>-name\<close>, and each with two dashes.
\<close>

datatype setting =
    Joined string string | Joined2 string string
  | Separate string string | Separate2 string string
  | Switch string | Switch2 string

fun render :: "setting \<Rightarrow> string list" where
  "render (Joined n v) = [CHR ''-'' # n @ CHR ''='' # v]"
| "render (Joined2 n v) = [''--'' @ n @ CHR ''='' # v]"
| "render (Separate n v) = [CHR ''-'' # n, v]"
| "render (Separate2 n v) = [''--'' @ n, v]"
| "render (Switch n) = [CHR ''-'' # n]"
| "render (Switch2 n) = [''--'' @ n]"

text \<open>The effect of a setting on the configuration; \<open>None\<close> when the flag set does not allow it.\<close>

definition assign :: "'c FlagSet \<Rightarrow> string \<Rightarrow> string \<Rightarrow> ('c \<Rightarrow> 'c) option" where
  "assign f n v =
     (case lookup_flag f n of
        None \<Rightarrow> None
      | Some fl \<Rightarrow>
          (case fl_Value fl of StringFlag p _ \<Rightarrow> Some (p v) | BoolFlag p _ \<Rightarrow> map_option p (ParseBool v)))"

definition assign_next :: "'c FlagSet \<Rightarrow> string \<Rightarrow> string \<Rightarrow> ('c \<Rightarrow> 'c) option" where
  "assign_next f n v =
     (case lookup_flag f n of
        None \<Rightarrow> None
      | Some fl \<Rightarrow> (case fl_Value fl of StringFlag p _ \<Rightarrow> Some (p v) | BoolFlag _ _ \<Rightarrow> None))"

definition switch_on :: "'c FlagSet \<Rightarrow> string \<Rightarrow> ('c \<Rightarrow> 'c) option" where
  "switch_on f n =
     (case lookup_flag f n of
        None \<Rightarrow> None
      | Some fl \<Rightarrow> (case fl_Value fl of StringFlag _ _ \<Rightarrow> None | BoolFlag p _ \<Rightarrow> Some (p True)))"

fun effect :: "'c FlagSet \<Rightarrow> setting \<Rightarrow> ('c \<Rightarrow> 'c) option" where
  "effect f (Joined n v) = assign f n v"
| "effect f (Joined2 n v) = assign f n v"
| "effect f (Separate n v) = assign_next f n v"
| "effect f (Separate2 n v) = assign_next f n v"
| "effect f (Switch n) = switch_on f n"
| "effect f (Switch2 n) = switch_on f n"

fun effects :: "'c FlagSet \<Rightarrow> setting list \<Rightarrow> 'c \<Rightarrow> 'c option" where
  "effects f [] c = Some c"
| "effects f (s # ss) c = (case effect f s of None \<Rightarrow> None | Some g \<Rightarrow> effects f ss (g c))"

text \<open>Names a flag can have on a command line.\<close>

definition plain_name :: "string \<Rightarrow> bool" where
  "plain_name n \<longleftrightarrow> n \<noteq> [] \<and> hd n \<noteq> CHR ''-'' \<and> CHR ''='' \<notin> set n"

definition plain_flags :: "'c FlagSet \<Rightarrow> bool" where
  "plain_flags f \<longleftrightarrow> list_all (\<lambda>fl. plain_name (fl_Name fl)) (fs_formal f)"

text \<open>Arguments at which the flags end, and what is left of them.\<close>

definition operands :: "string list \<Rightarrow> string list option" where
  "operands args =
     (case args of
        [] \<Rightarrow> Some []
      | s # rest \<Rightarrow>
          (if s = ''--'' then Some rest
           else if length s < 2 \<or> s ! 0 \<noteq> CHR ''-'' then Some args else None))"

section \<open>Lemmas\<close>

lemma lookup_flag_plain: "plain_flags f \<Longrightarrow> lookup_flag f n = Some fl \<Longrightarrow> plain_name n \<and> fl_Name fl = n"
  by (auto simp: lookup_flag_def plain_flags_def list_all_iff find_Some_iff)

lemma split_flag_joined: "plain_name n \<Longrightarrow> split_flag (n @ CHR ''='' # v) = (n, Some v)"
  by (cases n) (auto simp: split_flag_def plain_name_def takeWhile_append dropWhile_append Let_def)

lemma split_flag_alone: "plain_name n \<Longrightarrow> split_flag n = (n, None)"
  by (cases n) (auto simp: split_flag_def plain_name_def Let_def takeWhile_eq_all_conv dropWhile_eq_Nil_conv)

text \<open>One setting is read as it was written.\<close>

lemma parseOne_flag:
  assumes "plain_flags f" and "lookup_flag f n = Some fl" and "s \<in> {CHR ''-'' # n, ''--'' @ n}"
  shows "parseOne f (s # rest) =
    (case set_flag f fl None rest of Inl e \<Rightarrow> Inl e | Inr (f', args') \<Rightarrow> Inr (True, f', args'))"
proof -
  have n: "plain_name n" using lookup_flag_plain [OF assms(1,2)] by simp
  then obtain c m where "n = c # m" "c \<noteq> CHR ''-''" "c \<noteq> CHR ''=''" by (cases n) (auto simp: plain_name_def)
  with assms(2,3) split_flag_alone [OF n] show ?thesis by (auto simp: parseOne_def)
qed

lemma parseOne_assign:
  assumes "plain_flags f" and "lookup_flag f n = Some fl"
    and "s \<in> {CHR ''-'' # n @ CHR ''='' # v, ''--'' @ n @ CHR ''='' # v}"
  shows "parseOne f (s # rest) =
    (case set_flag f fl (Some v) rest of Inl e \<Rightarrow> Inl e | Inr (f', args') \<Rightarrow> Inr (True, f', args'))"
proof -
  have n: "plain_name n" using lookup_flag_plain [OF assms(1,2)] by simp
  then obtain c m where "n = c # m" "c \<noteq> CHR ''-''" "c \<noteq> CHR ''=''" by (cases n) (auto simp: plain_name_def)
  with assms(2,3) split_flag_joined [OF n, of v] show ?thesis by (auto simp: parseOne_def)
qed

text \<open>The three forms, with either number of dashes.\<close>

lemma parseOne_joined:
  assumes "plain_flags f" and "assign f n v = Some g"
    and "s \<in> {CHR ''-'' # n @ CHR ''='' # v, ''--'' @ n @ CHR ''='' # v}"
  shows "parseOne f (s # rest) = Inr (True, f\<lparr>fs_config := g (fs_config f)\<rparr>, rest)"
proof -
  from assms(2) obtain fl where fl: "lookup_flag f n = Some fl" by (auto simp: assign_def split: option.splits)
  from parseOne_assign [OF assms(1) fl assms(3)] fl assms(2) show ?thesis
    by (auto simp: assign_def set_flag_def split: flag_value.splits option.splits)
qed

lemma parseOne_separate:
  assumes "plain_flags f" and "assign_next f n v = Some g" and "s \<in> {CHR ''-'' # n, ''--'' @ n}"
  shows "parseOne f (s # v # rest) = Inr (True, f\<lparr>fs_config := g (fs_config f)\<rparr>, rest)"
proof -
  from assms(2) obtain fl where fl: "lookup_flag f n = Some fl" by (auto simp: assign_next_def split: option.splits)
  from parseOne_flag [OF assms(1) fl assms(3)] fl assms(2) show ?thesis
    by (auto simp: assign_next_def set_flag_def split: flag_value.splits)
qed

lemma parseOne_switch:
  assumes "plain_flags f" and "switch_on f n = Some g" and "s \<in> {CHR ''-'' # n, ''--'' @ n}"
  shows "parseOne f (s # rest) = Inr (True, f\<lparr>fs_config := g (fs_config f)\<rparr>, rest)"
proof -
  from assms(2) obtain fl where fl: "lookup_flag f n = Some fl" by (auto simp: switch_on_def split: option.splits)
  from parseOne_flag [OF assms(1) fl assms(3)] fl assms(2) show ?thesis
    by (auto simp: switch_on_def set_flag_def split: flag_value.splits)
qed

lemma parseOne_render:
  "plain_flags f \<Longrightarrow> effect f s = Some g \<Longrightarrow>
    parseOne f (render s @ rest) = Inr (True, f\<lparr>fs_config := g (fs_config f)\<rparr>, rest)"
  by (cases s) (simp_all add: parseOne_joined parseOne_separate parseOne_switch)

lemma parseOne_operands: "operands args = Some rest \<Longrightarrow> parseOne f args = Inr (False, f, rest)"
  by (auto simp: operands_def parseOne_def split: list.splits if_splits)

lemma lookup_flag_config [simp]: "lookup_flag (f\<lparr>fs_config := c\<rparr>) n = lookup_flag f n"
  by (simp add: lookup_flag_def)

lemma effect_config [simp]: "effect (f\<lparr>fs_config := c\<rparr>) s = effect f s"
  by (cases s) (simp_all add: assign_def assign_next_def switch_on_def)

lemma effects_config [simp]: "effects (f\<lparr>fs_config := c\<rparr>) ss = effects f ss"
  by (rule ext, induction ss) (simp_all split: option.splits)

text \<open>A whole command line: the settings in order, then the operands.\<close>

lemma parse_args_render:
  "plain_flags f \<Longrightarrow> effects f ss (fs_config f) = Some c \<Longrightarrow> operands args = Some rest \<Longrightarrow>
    parse_args f (concat (map render ss) @ args) = Inr (f\<lparr>fs_config := c\<rparr>, rest)"
proof (induction ss arbitrary: f)
  case Nil
  then show ?case by (simp add: parse_args.simps [of f args] parseOne_operands)
next
  case (Cons s ss)
  from Cons.prems(2) obtain g where g: "effect f s = Some g" by (auto split: option.splits)
  let ?f = "f\<lparr>fs_config := g (fs_config f)\<rparr>"
  have "parse_args ?f (concat (map render ss) @ args) = Inr (?f\<lparr>fs_config := c\<rparr>, rest)"
    using Cons.prems g by (intro Cons.IH) (simp_all add: plain_flags_def)
  with parseOne_render [OF Cons.prems(1) g] show ?case
    by (simp add: parse_args.simps [of f "render s @ _"])
qed

text \<open>The settings before an argument that is refused do not matter.\<close>

lemma parse_args_refused:
  "plain_flags f \<Longrightarrow> effects f ss (fs_config f) = Some c \<Longrightarrow> parseOne (f\<lparr>fs_config := c\<rparr>) args = Inl e \<Longrightarrow>
    parse_args f (concat (map render ss) @ args) = Inl e"
proof (induction ss arbitrary: f)
  case Nil
  then have "f\<lparr>fs_config := c\<rparr> = f" by simp
  with Nil show ?case by (simp add: parse_args.simps [of f args])
next
  case (Cons s ss)
  from Cons.prems(2) obtain g where g: "effect f s = Some g" by (auto split: option.splits)
  let ?f = "f\<lparr>fs_config := g (fs_config f)\<rparr>"
  have "parse_args ?f (concat (map render ss) @ args) = Inl e"
    using Cons.prems g by (intro Cons.IH) (simp_all add: plain_flags_def)
  with parseOne_render [OF Cons.prems(1) g] show ?case
    by (simp add: parse_args.simps [of f "render s @ _"])
qed

lemma parseOne_undefined:
  assumes "plain_name n" and "lookup_flag f n = None"
  shows "parseOne f ((CHR ''-'' # n) # args) =
    Inl (if n = ''help'' \<or> n = ''h'' then ErrHelp else FlagFail ''flag provided but not defined: -%s'' [n])"
proof -
  from assms(1) obtain c m where "n = c # m" "c \<noteq> CHR ''-''" "c \<noteq> CHR ''=''" by (cases n) (auto simp: plain_name_def)
  with assms split_flag_alone [OF assms(1)] show ?thesis by (auto simp: parseOne_def)
qed

lemma Parse_render:
  "plain_flags f \<Longrightarrow> effects f ss (fs_config f) = Some c \<Longrightarrow> operands args = Some rest \<Longrightarrow>
    Parse f (concat (map render ss) @ args) st = (Return_run (c, rest), st)"
  using parse_args_render [of f ss c args rest] by (simp add: Parse_def)

end
