(* ===== verification/Cmd_Duh.thy ===== *)
theory Cmd_Duh
  imports Client Scanner Flag_Set
begin

text \<open>
  cmd/duh/main.go, the command that sends the documents of a YAML file to a service. YAML, JSON,
  the file system and the transport are the fields of \<open>cmd_env\<close>; \<open>'v\<close> is the type of YAML
  values, \<open>'s\<close> the state of the outside world the transport acts on. The deferred close of a
  response's body has no effect in the model.
\<close>

record config =
  cfg_FileName :: string
  cfg_Address :: string
  cfg_Timeout :: string
  cfg_Verbose :: bool

record ('v, 's) cmd_env =
  ce_Unmarshal :: "bytes \<Rightarrow> error + (string \<rightharpoonup> 'v)"
  ce_MarshalIndent :: "(string \<rightharpoonup> 'v) \<Rightarrow> error + bytes"
  ce_Marshal :: "'v \<Rightarrow> error + bytes"
  ce_as_string :: "'v \<Rightarrow> string option"
  ce_format :: "'v \<Rightarrow> string"
  ce_unmarshal_reply :: "bytes \<Rightarrow> error + reply"
  ce_ParseDuration :: "string \<Rightarrow> error + int"
  ce_unicode :: unicode
  ce_NewRequest :: "string \<Rightarrow> string \<Rightarrow> bytes \<Rightarrow> error + request"
  ce_Do :: "int \<Rightarrow> request \<Rightarrow> 's \<Rightarrow> (error + response) \<times> 's"
  ce_Open :: "string \<Rightarrow> error + source"

section \<open>Errors\<close>

text \<open>The error's text becomes part of the format, the operands follow.\<close>

definition checkErr :: "error option \<Rightarrow> string \<Rightarrow> string list \<Rightarrow> 's cmd \<Rightarrow> unit run \<times> 's cmd" where
  "checkErr err format a st =
     (case err of
        None \<Rightarrow> (Return_run (), st)
      | Some e \<Rightarrow> (Exit 1, fst st, snd st @ [Stderr (format @ '': '' @ Error e @ [CHR 0x0A]) a]))"

definition fail :: "string \<Rightarrow> string list \<Rightarrow> 's cmd \<Rightarrow> 'a run \<times> 's cmd" where
  "fail format a st = (Exit 1, fst st, snd st @ [Stderr (format @ [CHR 0x0A]) a])"

text \<open>A value or \<open>checkErr\<close>.\<close>

definition must ::
  "error + 'a \<Rightarrow> string \<Rightarrow> string list \<Rightarrow> ('a \<Rightarrow> 's cmd \<Rightarrow> 'b run \<times> 's cmd) \<Rightarrow> 's cmd \<Rightarrow> 'b run \<times> 's cmd" where
  "must r format a f st =
     (case r of
        Inr x \<Rightarrow> f x st
      | Inl e \<Rightarrow> (Exit 1, fst st, snd st @ [Stderr (format @ '': '' @ Error e @ [CHR 0x0A]) a]))"

definition parseTimeout :: "('v, 's) cmd_env \<Rightarrow> string \<Rightarrow> int" where
  "parseTimeout env s = (case ce_ParseDuration env s of Inl _ \<Rightarrow> 0 | Inr d \<Rightarrow> d)"

section \<open>sendRequest\<close>

text \<open>Reading a body to its end: what it delivers and the error it ends with.\<close>

definition read_all :: "source \<Rightarrow> bytes \<times> error option" where
  "read_all b = (src_content b, read_result (src_err b))"

definition request_error :: "request \<Rightarrow> error \<Rightarrow> error" where
  "request_error r err = NewClientError '''' (Some err)
     (Some [DetailsHttpUrl \<mapsto> req_url r, DetailsHttpMethod \<mapsto> req_method r])"

definition response_error :: "('v, 's) cmd_env \<Rightarrow> request \<Rightarrow> response \<Rightarrow> error" where
  "response_error env r resp =
     (let b = fst (read_all (resp_body resp)) in
      case ce_unmarshal_reply env b of
        Inl _ \<Rightarrow> NewInfraError r resp b
      | Inr reply \<Rightarrow> NewReplyError r resp reply)"

definition sendRequest ::
  "('v, 's) cmd_env \<Rightarrow> int \<Rightarrow> config \<Rightarrow> string \<Rightarrow> 'v \<Rightarrow> 's cmd \<Rightarrow> error option run \<times> 's cmd" where
  "sendRequest env timeout c api req st =
     (case ce_Marshal env req of
        Inl err \<Rightarrow>
          (Return_run (Some (NewClientError ''while marshaling request payload: %w'' (Some err) None)), st)
      | Inr payload \<Rightarrow>
          (case ce_NewRequest env ''POST'' (''http://'' @ cfg_Address c @ api) payload of
             Inl err \<Rightarrow> (Return_run (Some (NewClientError '''' (Some err) None)), st)
           | Inr r0 \<Rightarrow>
               (let r = r0\<lparr>req_header := hset (req_header r0) ''Content-Type'' ContentTypeJSON\<rparr> in
                case ce_Do env timeout r (fst st) of
                  (Inl err, s') \<Rightarrow> (Return_run (Some (request_error r err)), s', snd st)
                | (Inr resp, s') \<Rightarrow>
                    (if resp_StatusCode resp \<noteq> CodeOK
                     then (Return_run (Some (response_error env r resp)), s', snd st)
                     else if cfg_Verbose c then
                       (let (out, err) = read_all (resp_body resp) in
                        case checkErr err ''while reading response body'' []
                               (s', snd st @ [Stdout (string_of_bytes out)]) of
                          (Return_run _, st') \<Rightarrow> (Return_run None, st')
                        | (Exit n, st') \<Rightarrow> (Exit n, st'))
                     else (Return_run None, s', snd st)))))"

section \<open>process\<close>

definition at_index :: "string \<Rightarrow> string" where
  "at_index s = s @ [CHR 0x27] @ ''%d'' @ [CHR 0x27]"

definition deliver ::
  "('v, 's) cmd_env \<Rightarrow> config \<Rightarrow> string \<Rightarrow> 'v \<Rightarrow> int \<Rightarrow> 's cmd \<Rightarrow> unit run \<times> 's cmd" where
  "deliver env c api resource idx st =
     (case sendRequest env (parseTimeout env (cfg_Timeout c)) c api resource st of
        (Exit n, st') \<Rightarrow> (Exit n, st')
      | (Return_run err, st') \<Rightarrow>
          (case checkErr err ''during sendRequest()'' [] st' of
             (Exit n, st'') \<Rightarrow> (Exit n, st'')
           | (Return_run _, s'', out) \<Rightarrow>
               (Return_run (), s'', out @ [Stdout ([CHR 0x0A] @ ''['' @ Itoa idx @ ''] OK'' @ [CHR 0x0A])])))"

text \<open>After the document is parsed and, with \<open>verbose\<close>, printed.\<close>

definition process_object ::
  "('v, 's) cmd_env \<Rightarrow> config \<Rightarrow> (string \<rightharpoonup> 'v) \<Rightarrow> int \<Rightarrow> 's cmd \<Rightarrow> unit run \<times> 's cmd" where
  "process_object env c obj idx st =
     (case obj ''api'' of
        None \<Rightarrow> fail (''expected '' @ [CHR 0x27] @ ''api'' @ [CHR 0x27] @ '' field at '' @ [CHR 0x27] @ ''%d'' @
          [CHR 0x27] @ '', but found none'') [Itoa idx] st
      | Some apiAny \<Rightarrow>
          (case ce_as_string env apiAny of
             None \<Rightarrow> fail (''expected '' @ [CHR 0x27] @ ''api'' @ [CHR 0x27] @ '' field to be of type string at '' @
               [CHR 0x27] @ ''%d'' @ [CHR 0x27] @ '', but is '' @ [CHR 0x27] @ ''%v'' @ [CHR 0x27])
               [Itoa idx, ce_format env apiAny] st
           | Some api \<Rightarrow>
               (case obj ''resource'' of
                  None \<Rightarrow> fail (''expected '' @ [CHR 0x27] @ ''resource'' @ [CHR 0x27] @ '' field at '' @
                    [CHR 0x27] @ ''%d'' @ [CHR 0x27] @ '', but found none'') [Itoa idx] st
                | Some resource \<Rightarrow> deliver env c api resource idx st)))"

definition process ::
  "('v, 's) cmd_env \<Rightarrow> config \<Rightarrow> bytes \<Rightarrow> int \<Rightarrow> 's cmd \<Rightarrow> unit run \<times> 's cmd" where
  "process env c doc idx st =
     (if TrimSpace (ce_unicode env) (string_of_bytes doc) = [] then (Return_run (), st)
      else
        must (ce_Unmarshal env doc) (at_index ''while parsing YAML at '') [Itoa idx] (\<lambda>obj st.
        if cfg_Verbose c
        then must (ce_MarshalIndent env obj) (at_index ''error converting YAML to JSON at '') [Itoa idx]
          (\<lambda>json st. process_object env c obj idx (fst st, snd st @ [Stdout (string_of_bytes json @ [CHR 0x0A])])) st
        else process_object env c obj idx st) st)"

section \<open>main\<close>

definition separator :: bytes where
  "separator = bytes_of_string ''---''"

text \<open>The loop over the scanned lines; \<open>buf\<close> is the document so far. The last one is processed too.\<close>

fun main_loop ::
  "('v, 's) cmd_env \<Rightarrow> config \<Rightarrow> bytes list \<Rightarrow> bytes \<Rightarrow> int \<Rightarrow> 's cmd \<Rightarrow> unit run \<times> 's cmd" where
  "main_loop env c [] buf idx st = process env c buf idx st"
| "main_loop env c (line # ls) buf idx st =
     (if line = separator then
        (case process env c buf idx st of
           (Exit n, st') \<Rightarrow> (Exit n, st')
         | (Return_run _, st') \<Rightarrow> main_loop env c ls [] (idx + 1) st')
      else main_loop env c ls (buf @ line @ [newline]) idx st)"

text \<open>
  The flags. The command also assigns a usage text to the package's own flag set, which it does
  not use.
\<close>

definition duh_flags :: "config FlagSet" where
  "duh_flags =
     BoolVar (\<lambda>v c. c\<lparr>cfg_Verbose := v\<rparr>) ''verbose'' False ''be verbose''
    (StringVar (\<lambda>v c. c\<lparr>cfg_Timeout := v\<rparr>) ''timeout'' ''10s''
       ''The duration to wait for a successful api call (default: 10s)''
    (StringVar (\<lambda>v c. c\<lparr>cfg_Address := v\<rparr>) ''address'' ''localhost:8080''
       (''The address of the service in the format '' @ [CHR 0x27] @ ''<host|ip>:<port>'' @ [CHR 0x27])
    (NewFlagSet ''duh'' \<lparr>cfg_FileName = [], cfg_Address = [], cfg_Timeout = [], cfg_Verbose = False\<rparr>)))"

text \<open>What follows the parsing of the flags; \<open>args\<close> are the arguments left after them.\<close>

definition main_file ::
  "('v, 's) cmd_env \<Rightarrow> config \<Rightarrow> string list \<Rightarrow> 's cmd \<Rightarrow> unit run \<times> 's cmd" where
  "main_file env c0 args st =
     (case args of
        [] \<Rightarrow> (Exit 1, fst st, snd st @ [Logged ''path to yaml file is required'', defaultUsage duh_flags])
      | name # _ \<Rightarrow>
          (let c = c0\<lparr>cfg_FileName := name\<rparr> in
           must (ce_Open env name) ''Error opening file'' [] (\<lambda>file st.
           (let (ls, err) = scan_lines (src_content file) (src_err file) in
            case main_loop env c ls [] 0 st of
              (Exit n, st') \<Rightarrow> (Exit n, st')
            | (Return_run _, st') \<Rightarrow>
                (case checkErr err (''while scanning '' @ [CHR 0x27] @ ''%s'' @ [CHR 0x27]) [name] st' of
                   (Exit n, st'') \<Rightarrow> (Exit n, st'')
                 | (Return_run _, s'', out) \<Rightarrow> (Return_run (), s'', out @ [Stdout [CHR 0x0A]])))) st))"

text \<open>\<open>args\<close> is \<open>os.Args[1:]\<close>. In its mode \<open>Parse\<close> returns no error, so \<open>checkErr\<close> has none to report.\<close>

definition main_duh :: "('v, 's) cmd_env \<Rightarrow> string list \<Rightarrow> 's cmd \<Rightarrow> unit run \<times> 's cmd" where
  "main_duh env args st =
     (case Parse duh_flags args st of
        (Exit n, st') \<Rightarrow> (Exit n, st')
      | (Return_run (c, rest), st') \<Rightarrow> main_file env c rest st')"

section \<open>Lemmas\<close>

definition default_config :: config where
  "default_config = \<lparr>cfg_FileName = [], cfg_Address = ''localhost:8080'', cfg_Timeout = ''10s'', cfg_Verbose = False\<rparr>"

lemma duh_flags_config [simp]: "fs_config duh_flags = default_config"
  by (simp add: duh_flags_def default_config_def StringVar_def BoolVar_def NewFlagSet_def)

lemma duh_flags_plain: "plain_flags duh_flags"
  by (simp add: duh_flags_def StringVar_def BoolVar_def NewFlagSet_def plain_flags_def plain_name_def)

lemma main_duh_flags:
  "effects duh_flags ss default_config = Some c \<Longrightarrow> operands args = Some rest \<Longrightarrow>
    main_duh env (concat (map render ss) @ args) st = main_file env c rest st"
  by (simp add: main_duh_def Parse_render [OF duh_flags_plain])

text \<open>The documents of a list of lines, and processing them one after the other.\<close>

definition doc_bytes :: "bytes list \<Rightarrow> bytes" where
  "doc_bytes ls = concat (map (\<lambda>l. l @ [newline]) ls)"

definition documents :: "bytes list \<Rightarrow> bytes list" where
  "documents ls = map doc_bytes (split_on separator ls)"

fun run_docs ::
  "('v, 's) cmd_env \<Rightarrow> config \<Rightarrow> bytes list \<Rightarrow> int \<Rightarrow> 's cmd \<Rightarrow> unit run \<times> 's cmd" where
  "run_docs env c [] idx st = (Return_run (), st)"
| "run_docs env c (doc # docs) idx st =
     (case process env c doc idx st of
        (Exit n, st') \<Rightarrow> (Exit n, st')
      | (Return_run _, st') \<Rightarrow> run_docs env c docs (idx + 1) st')"

lemma main_loop_run_docs:
  "main_loop env c ls buf idx st =
    run_docs env c ((buf @ hd (documents ls)) # tl (documents ls)) idx st"
proof (induction env c ls buf idx st rule: main_loop.induct)
  case (1 env c buf idx st)
  then show ?case by (auto simp: documents_def doc_bytes_def split: prod.splits run.splits)
next
  case (2 env c line ls buf idx st)
  show ?case
  proof (cases "line = separator")
    case True
    have "hd (documents ls) # tl (documents ls) = documents ls" by (simp add: documents_def)
    with 2 True show ?thesis by (auto simp: documents_def doc_bytes_def split: prod.splits run.splits)
  next
    case False
    obtain d ds where "split_on separator ls = d # ds" by (cases "split_on separator ls") auto
    with 2 False show ?thesis by (simp add: documents_def doc_bytes_def)
  qed
qed

lemma main_loop_documents: "main_loop env c ls [] idx st = run_docs env c (documents ls) idx st"
  by (simp add: main_loop_run_docs documents_def)

text \<open>Printing documents and reading them back.\<close>

fun join_docs :: "bytes list list \<Rightarrow> bytes list" where
  "join_docs [] = []"
| "join_docs [d] = d"
| "join_docs (d # d' # ds) = d @ separator # join_docs (d' # ds)"

definition doc_ok :: "bytes list \<Rightarrow> bool" where
  "doc_ok d \<longleftrightarrow> (\<forall>l \<in> set d. plain_line l \<and> l \<noteq> separator)"

lemma separator_plain: "plain_line separator"
  by (simp add: separator_def plain_line_def newline_def MaxScanTokenSize_def bytes_of_string_def)

lemma join_docs_plain: "\<forall>d \<in> set docs. doc_ok d \<Longrightarrow> \<forall>l \<in> set (join_docs docs). plain_line l"
  by (induction docs rule: join_docs.induct) (auto simp: doc_ok_def separator_plain)

lemma documents_join: "docs \<noteq> [] \<Longrightarrow> \<forall>d \<in> set docs. doc_ok d \<Longrightarrow> documents (join_docs docs) = map doc_bytes docs"
proof (induction docs rule: join_docs.induct)
  case (2 d)
  then have "separator \<notin> set d" by (auto simp: doc_ok_def)
  then show ?case by (simp add: documents_def split_on_none)
next
  case (3 d d' ds)
  then have "separator \<notin> set d" by (auto simp: doc_ok_def)
  with 3 show ?case by (simp add: documents_def split_on_append)
qed simp

subsection \<open>What a document prints\<close>

definition ok_line :: "int \<Rightarrow> event" where
  "ok_line idx = Stdout ([CHR 0x0A] @ ''['' @ Itoa idx @ ''] OK'' @ [CHR 0x0A])"

definition blank :: "('v, 's) cmd_env \<Rightarrow> bytes \<Rightarrow> bool" where
  "blank env doc \<longleftrightarrow> TrimSpace (ce_unicode env) (string_of_bytes doc) = []"

lemma sendRequest_out: "sendRequest env t c api req st = (r, st') \<Longrightarrow> \<exists>more. snd st' = snd st @ more"
  by (auto simp: sendRequest_def Let_def checkErr_def
      split: sum.splits prod.splits if_splits option.splits run.splits)

lemma deliver_out:
  assumes "deliver env c api res idx st = (r, st')"
  shows "(\<exists>more. snd st' = snd st @ more) \<and> (r = Return_run () \<longrightarrow> ok_line idx \<in> set (snd st'))"
proof -
  obtain r1 st1 where sent: "sendRequest env (parseTimeout env (cfg_Timeout c)) c api res st = (r1, st1)"
    by (cases "sendRequest env (parseTimeout env (cfg_Timeout c)) c api res st")
  from sendRequest_out [OF this] obtain more where "snd st1 = snd st @ more" ..
  with assms sent show ?thesis
    by (cases r1) (auto simp: deliver_def checkErr_def ok_line_def split: option.splits prod.splits)
qed

lemma process_object_out:
  assumes "process_object env c obj idx st = (r, st')"
  shows "(\<exists>more. snd st' = snd st @ more) \<and> (r = Return_run () \<longrightarrow> ok_line idx \<in> set (snd st'))"
  using assms by (auto simp: process_object_def fail_def dest: deliver_out split: option.splits)

lemma process_out:
  assumes "process env c doc idx st = (r, st')"
  shows "\<exists>more. snd st' = snd st @ more" and "r = Return_run () \<Longrightarrow> blank env doc \<or> ok_line idx \<in> set (snd st')"
  using assms
  by (fastforce simp: process_def must_def blank_def dest: process_object_out split: sum.splits if_splits)+

text \<open>The only exit code is 1.\<close>

lemma checkErr_Exit: "checkErr err format a st = (Exit n, st') \<Longrightarrow> n = 1"
  by (auto simp: checkErr_def split: option.splits)

lemma sendRequest_Exit: "sendRequest env t c api req st = (Exit n, st') \<Longrightarrow> n = 1"
  by (auto simp: sendRequest_def Let_def dest: checkErr_Exit split: sum.splits prod.splits if_splits run.splits)

lemma process_Exit: "process env c doc idx st = (Exit n, st') \<Longrightarrow> n = 1"
  by (auto simp: process_def must_def process_object_def fail_def deliver_def
      dest: checkErr_Exit sendRequest_Exit split: sum.splits prod.splits if_splits run.splits option.splits)

lemma run_docs_Exit: "run_docs env c docs idx st = (Exit n, st') \<Longrightarrow> n = 1"
  by (induction docs arbitrary: idx st) (auto dest: process_Exit split: prod.splits run.splits)

lemma run_docs_out:
  "run_docs env c docs idx st = (r, st') \<Longrightarrow> (\<exists>more. snd st' = snd st @ more) \<and>
    (r = Return_run () \<longrightarrow> (\<forall>i < length docs. blank env (docs ! i) \<or> ok_line (idx + int i) \<in> set (snd st')))"
proof (induction docs arbitrary: idx st)
  case Nil
  then show ?case by simp
next
  case (Cons doc docs)
  obtain r1 st1 where p: "process env c doc idx st = (r1, st1)" by (cases "process env c doc idx st")
  note out = process_out [OF p]
  show ?case
  proof (cases r1)
    case (Exit n)
    then show ?thesis using Cons.prems p out by auto
  next
    case (Return_run u)
    then have rest: "run_docs env c docs (idx + 1) st1 = (r, st')" using Cons.prems p by simp
    note ih = Cons.IH [OF rest]
    have first: "blank env doc \<or> ok_line idx \<in> set (snd st')" using out(2) ih Return_run by auto
    have "blank env ((doc # docs) ! i) \<or> ok_line (idx + int i) \<in> set (snd st')"
      if "r = Return_run ()" "i < length (doc # docs)" for i
      using first ih that by (cases i) (auto simp: algebra_simps)
    then show ?thesis using out(1) ih by auto
  qed
qed

end
