(* ===== verification/Cmd_Demo.thy ===== *)
theory Cmd_Demo
  imports Flag_Set
begin

text \<open>
  cmd/demo/main.go, which serves the demo (\<open>Demo\<close>) until it is signalled. The goroutine that
  serves and the one that waits for a signal are taken in the order in which something happens to
  them. The server is \<open>http.Server\<close>; what its \<open>ListenAndServe\<close> and \<open>Shutdown\<close> return are arguments.
\<close>

record demo_config =
  dc_Address :: string
  dc_Verbose :: bool

definition demo_checkErr :: "error option \<Rightarrow> string \<Rightarrow> string list \<Rightarrow> 's cmd \<Rightarrow> unit run \<times> 's cmd" where
  "demo_checkErr err format a st =
     (case err of
        None \<Rightarrow> (Return_run (), st)
      | Some e \<Rightarrow> (Exit 1, fst st, snd st @ [Stderr (format @ '': '' @ Error e @ [CHR 0x0A]) a]))"

definition demo_fail :: "string \<Rightarrow> string list \<Rightarrow> 's cmd \<Rightarrow> 'a run \<times> 's cmd" where
  "demo_fail format a st = (Exit 1, fst st, snd st @ [Stderr (format @ [CHR 0x0A]) a])"

definition demo_flags :: "demo_config FlagSet" where
  "demo_flags =
     BoolVar (\<lambda>v c. c\<lparr>dc_Verbose := v\<rparr>) ''verbose'' False ''be verbose''
    (StringVar (\<lambda>v c. c\<lparr>dc_Address := v\<rparr>) ''address'' ''localhost:8080''
       (''The address to bind the server to in the format '' @ [CHR 0x27] @ ''<host|ip>:<port>'' @ [CHR 0x27])
    (NewFlagSet ''demo'' \<lparr>dc_Address = [], dc_Verbose = False\<rparr>))"

definition ErrServerClosed :: error where
  "ErrServerClosed = ErrText ''http: Server closed''"

text \<open>\<open>errors.Is\<close>\<close>

fun Is_err :: "error \<Rightarrow> error \<Rightarrow> bool" where
  "Is_err (ErrWrap m e) target \<longleftrightarrow> ErrWrap m e = target \<or> Is_err e target"
| "Is_err e target \<longleftrightarrow> e = target"

text \<open>
  What happens to the running command: the serving goroutine starts, \<open>ListenAndServe\<close> returns, a
  signal arrives, \<open>Shutdown\<close> returns.
\<close>

datatype demo_event = Listening | Served "error option" | Signalled | ShutDown "error option"

text \<open>
  \<open>demo_wait\<close> takes what happens in order until the command ends; \<open>None\<close> means it is still
  running. \<open>stopping\<close>: the signal has been received. A further signal stays in the channel.
\<close>

fun demo_wait :: "string \<Rightarrow> bool \<Rightarrow> demo_event list \<Rightarrow> 's cmd \<Rightarrow> (unit run \<times> 's cmd) option" where
  "demo_wait addr stopping [] st = None"
| "demo_wait addr stopping (Listening # evs) st =
     demo_wait addr stopping evs (fst st, snd st @ [Logged (''Listening on '' @ addr @ ''....'' @ [CHR 0x0A])])"
| "demo_wait addr stopping (Served err # evs) st =
     (case err of
        Some e \<Rightarrow>
          (if Is_err e ErrServerClosed then demo_wait addr stopping evs st
           else Some (demo_fail ''ListenAndServe(): %v'' [Error e] st))
      | None \<Rightarrow> demo_wait addr stopping evs st)"
| "demo_wait addr stopping (Signalled # evs) st =
     (if stopping then demo_wait addr stopping evs st
      else demo_wait addr True evs (fst st, snd st @ [Logged ''Shutting down the service...'']))"
| "demo_wait addr stopping (ShutDown err # evs) st =
     (if stopping then
        (case demo_checkErr err ''during service shutdown'' [] st of
           (Exit n, st') \<Rightarrow> Some (Exit n, st')
         | (Return_run _, s', out) \<Rightarrow> Some (Return_run (), s', out @ [Logged ''Service shutdown complete'']))
      else demo_wait addr stopping evs st)"

text \<open>\<open>args\<close> is \<open>os.Args[1:]\<close>.\<close>

definition main_demo :: "string list \<Rightarrow> demo_event list \<Rightarrow> 's cmd \<Rightarrow> (unit run \<times> 's cmd) option" where
  "main_demo args evs st =
     (case Parse demo_flags args st of
        (Exit n, st') \<Rightarrow> Some (Exit n, st')
      | (Return_run (c, rest), st') \<Rightarrow> demo_wait (dc_Address c) False evs st')"

section \<open>Lemmas\<close>

lemma demo_flags_config [simp]: "fs_config demo_flags = \<lparr>dc_Address = ''localhost:8080'', dc_Verbose = False\<rparr>"
  by (simp add: demo_flags_def StringVar_def BoolVar_def NewFlagSet_def)

lemma demo_flags_plain: "plain_flags demo_flags"
  by (simp add: demo_flags_def StringVar_def BoolVar_def NewFlagSet_def plain_flags_def plain_name_def)

text \<open>What the command only notes: it started listening, or its server was closed.\<close>

definition harmless :: "demo_event \<Rightarrow> bool" where
  "harmless ev \<longleftrightarrow>
     (case ev of
        Listening \<Rightarrow> True
      | Served (Some e) \<Rightarrow> Is_err e ErrServerClosed
      | Served None \<Rightarrow> True
      | _ \<Rightarrow> False)"

definition listening_logs :: "string \<Rightarrow> demo_event list \<Rightarrow> event list" where
  "listening_logs addr evs =
     concat (map (\<lambda>ev. if ev = Listening then [Logged (''Listening on '' @ addr @ ''....'' @ [CHR 0x0A])] else []) evs)"

lemma demo_wait_harmless:
  "list_all harmless evs \<Longrightarrow> demo_wait addr stopping (evs @ evs') st =
    demo_wait addr stopping evs' (fst st, snd st @ listening_logs addr evs)"
proof (induction evs arbitrary: st)
  case Nil
  then show ?case by (simp add: listening_logs_def)
next
  case (Cons ev evs)
  then show ?case
    by (cases ev) (auto simp: harmless_def listening_logs_def split: option.splits)
qed

text \<open>Signals that come during the shutdown change nothing.\<close>

lemma demo_wait_stopping:
  "list_all (\<lambda>ev. harmless ev \<or> ev = Signalled) evs \<Longrightarrow> demo_wait addr True (evs @ evs') st =
    demo_wait addr True evs' (fst st, snd st @ listening_logs addr evs)"
proof (induction evs arbitrary: st)
  case Nil
  then show ?case by (simp add: listening_logs_def)
next
  case (Cons ev evs)
  then show ?case
    by (cases ev) (auto simp: harmless_def listening_logs_def split: option.splits)
qed

end
