(* ===== verification/Tools_Properties.thy ===== *)
theory Tools_Properties
  imports Log_Adaptor Wait Cmd_Duh Cmd_Demo Client_Properties
begin

text \<open>
  Properties of the smaller tools: the log adaptor (log.go), waiting for a server (wait.go) and
  the command duh (cmd/duh).
\<close>

section \<open>The log adaptor\<close>

definition close_pending :: "adaptor_call list \<Rightarrow> adaptor \<Rightarrow> bool" where
  "close_pending calls s \<longleftrightarrow> AClose \<in> set calls \<longrightarrow> ad_wclosed s \<or> AClose \<in> set (ad_calls s)"

interpretation closing: inductive_invariant ad_step "close_pending calls" for calls
  by unfold_locales (auto simp: close_pending_def step_caller_def step_goroutine_def scan_end_def
      scan_too_long_def empty_read_def elim!: ad_stepE
      split: caller_pc.splits list.splits adaptor_call.splits if_splits scanner_pc.splits option.splits)

lemma NewHttpLogAdaptor_inv:
  "AWrite [] \<notin> set calls \<Longrightarrow> ad_inv (entries (scan_lines (calls_bytes calls) EOF)) (NewHttpLogAdaptor calls)"
  by (simp add: ad_inv_def NewHttpLogAdaptor_def unread_def offered_def)

text \<open>C33: However the caller's writes are cut, none of them empty, and interleave with the scanning
  goroutine, once all calls have returned, Close among them, the logger has received exactly the lines of the bytes
  written before the first Close, in order, and, after a line of 64 KiB or more, one error and
  nothing else.\<close>

theorem adaptor_logs_lines:
  assumes "AWrite [] \<notin> set calls" and "AClose \<in> set calls"
    and "ad_step\<^sup>*\<^sup>* (NewHttpLogAdaptor calls) s" and "ad_calls s = []" and "ad_caller s = CIdle"
  shows "ad_log s = map EInfo (fst (scan_lines (calls_bytes calls) EOF)) @
    (case snd (scan_lines (calls_bytes calls) EOF) of None \<Rightarrow> [] | Some e \<Rightarrow> [EError e])"
proof -
  have "close_pending calls (NewHttpLogAdaptor calls)"
    by (simp add: close_pending_def NewHttpLogAdaptor_def)
  from closing.always [OF assms(3) this] have "ad_wclosed s"
    using assms(2,4) by (simp add: close_pending_def)
  with adaptor.always [OF assms(3) NewHttpLogAdaptor_inv [OF assms(1)]] assms(5)
  show ?thesis by (simp add: ad_inv_def entries_def)
qed

text \<open>C38: No interleaving blocks: from every reachable state in which a call has not returned a step
  is possible, and every step shortens what is left, so every run of calls without an
  empty write ends with all calls returned.\<close>

theorem adaptor_calls_return:
  assumes "AWrite [] \<notin> set calls" and "ad_step\<^sup>*\<^sup>* (NewHttpLogAdaptor calls) s"
  shows "(ad_calls s \<noteq> [] \<or> ad_caller s \<noteq> CIdle \<longrightarrow> (\<exists>t. ad_step s t)) \<and>
    (\<forall>t. ad_step s t \<longrightarrow> ad_rank t < ad_rank s)"
proof -
  have "ad_inv (entries (scan_lines (calls_bytes calls) EOF)) s"
    by (rule adaptor.always [OF assms(2) NewHttpLogAdaptor_inv [OF assms(1)]])
  then show ?thesis using ad_progress ad_step_rank by blast
qed

definition sample_calls :: "adaptor_call list" where
  "sample_calls = [AWrite [104, 105, 10, 104], AClose]"

definition adaptor_run :: adaptor where
  "adaptor_run = NewHttpLogAdaptor sample_calls
     \<lparr>ad_calls := [], ad_results := [(4, None), (0, None)], ad_wclosed := True, ad_goroutine := GExited,
      ad_log := [EInfo [104, 105], EInfo [104]]\<rparr>"

lemma sample_adaptor_reach: "ad_step\<^sup>*\<^sup>* (NewHttpLogAdaptor sample_calls) adaptor_run"
proof -
  let ?c = "\<lambda>s. the (step_caller s)" and ?g = "\<lambda>k s. the (step_goroutine k s)"
  have c: "step_caller s \<noteq> None \<Longrightarrow> ad_step s (?c s)" for s by (auto intro: ad_step.caller)
  have g: "step_goroutine k s \<noteq> None \<Longrightarrow> ad_step s (?g k s)" for k s by (auto intro: ad_step.goroutine)
  note evals = step_caller_def step_goroutine_def NewHttpLogAdaptor_def sample_calls_def first_line_def
    newline_def MaxScanTokenSize_def scan_end_def dropCR_def adaptor_run_def
  let ?s = "NewHttpLogAdaptor sample_calls"
  let ?t = "?g 3 (?c ?s)"
  let ?u = "?g 1 (?g 1 ?t)"
  let ?v = "?g 0 (?c (?c ?u))"
  have "ad_step ?s (?c ?s)" by (rule c) (simp add: evals)
  moreover have "ad_step (?c ?s) ?t" by (rule g) (simp add: evals)
  moreover have "ad_step ?t (?g 1 ?t)" by (rule g) (simp add: evals)
  moreover have "ad_step (?g 1 ?t) ?u" by (rule g) (simp add: evals)
  moreover have "ad_step ?u (?c ?u)" by (rule c) (simp add: evals)
  moreover have "ad_step (?c ?u) (?c (?c ?u))" by (rule c) (simp add: evals)
  moreover have "ad_step (?c (?c ?u)) ?v" by (rule g) (simp add: evals)
  moreover have "ad_step ?v (?c ?v)" by (rule c) (simp add: evals)
  moreover have "?c ?v = adaptor_run" by (simp add: evals)
  ultimately show ?thesis by (metis (no_types, lifting) converse_rtranclp_into_rtranclp rtranclp.rtrancl_refl)
qed

theorem adaptor_logs_lines_witness:
  "map EInfo (fst (scan_lines [104, 105, 10, 104] EOF)) @
    (case snd (scan_lines [104, 105, 10, 104] EOF) of None \<Rightarrow> [] | Some e \<Rightarrow> [EError e]) =
    [EInfo [104, 105], EInfo [104]]"
proof -
  have "ad_log adaptor_run = map EInfo (fst (scan_lines (calls_bytes sample_calls) EOF)) @
      (case snd (scan_lines (calls_bytes sample_calls) EOF) of None \<Rightarrow> [] | Some e \<Rightarrow> [EError e])"
    by (rule adaptor_logs_lines [OF _ _ sample_adaptor_reach])
      (simp_all add: sample_calls_def adaptor_run_def NewHttpLogAdaptor_def)
  then show ?thesis by (simp add: adaptor_run_def sample_calls_def)
qed

theorem adaptor_calls_return_witness: "\<exists>t. ad_step (NewHttpLogAdaptor sample_calls) t"
  using adaptor_calls_return [of sample_calls "NewHttpLogAdaptor sample_calls"]
  by (simp add: sample_calls_def NewHttpLogAdaptor_def)

section \<open>Waiting for a server\<close>

text \<open>C37: WaitForConnect dials again after every failed attempt while the context is not done: if
  the first n attempts fail so, it returns nil when the next one is accepted, and when the next
  one fails with the context done, an error that lists the texts of all the attempts' errors and
  of the context's, one per line.\<close>

theorem WaitForConnect_outcome:
  assumes "address \<noteq> []" and "attempts_fail w tls address s n"
    and "dw_Dial w tls address ((attempt w tls address ^^ n) s) = (r, s')"
    and "r = None \<or> dw_ctx_Err w s' = Some e"
  shows "WaitForConnect w tls address s = Some (case r of
      None \<Rightarrow> None
    | Some err \<Rightarrow> Some (ErrText (Join (dial_errors w tls address s n @ [Error err, Error e]) [CHR 0x0A])), s')"
proof -
  have "WaitForConnect w tls address s =
      wait_loop w tls address (dial_errors w tls address s n) ((attempt w tls address ^^ n) s)"
    using wait_loop_steps [OF assms(2), of "[]"] assms(1) by (simp add: WaitForConnect_def)
  then show ?thesis using assms(3,4)
    by (subst (asm) wait_loop.simps) (auto simp: Let_def split: option.splits)
qed

text \<open>A server that accepts the third attempt; the state counts the attempts.\<close>

definition sample_dial :: "nat dial_world" where
  "sample_dial = \<lparr>dw_Dial = (\<lambda>tls address i. (if i < 2 then Some (ErrText ''refused'') else None, i + 1)),
     dw_ctx_Err = (\<lambda>_. None), dw_Sleep = (\<lambda>d i. i)\<rparr>"

lemma sample_attempts: "(attempt sample_dial tls address ^^ i) 0 = i"
  by (induction i) (simp_all add: attempt_def sample_dial_def)

theorem WaitForConnect_outcome_witness: "WaitForConnect sample_dial False ''localhost:8080'' 0 = Some (None, 3)"
proof -
  have "attempts_fail sample_dial False ''localhost:8080'' 0 2"
    by (simp add: attempts_fail_def sample_attempts) (simp add: sample_dial_def)
  from WaitForConnect_outcome [OF _ this, of None 3 Canceled] show ?thesis
    by (simp add: sample_attempts) (simp add: sample_dial_def)
qed

section \<open>The command duh\<close>

text \<open>A file of documents.\<close>

lemma main_file_documents:
  assumes "ce_Open env name = Inr file" and "src_err file = EOF"
    and "docs \<noteq> []" and "\<forall>d \<in> set docs. doc_ok d"
    and "src_content file = doc_bytes (join_docs docs)"
  shows "main_file env c (name # args) st =
    (case run_docs env (c\<lparr>cfg_FileName := name\<rparr>) (map doc_bytes docs) 0 st of
       (Exit n, st') \<Rightarrow> (Exit n, st')
     | (Return_run _, s', out) \<Rightarrow> (Return_run (), s', out @ [Stdout [CHR 0x0A]]))"
proof -
  have "scan_lines (src_content file) (src_err file) = (join_docs docs, None)"
    using scan_print_lines [OF join_docs_plain [OF assms(4)]] assms(2,5) by (simp add: doc_bytes_def)
  then show ?thesis
    using assms(1) documents_join [OF assms(3,4)]
    by (auto simp: main_file_def must_def Let_def main_loop_documents checkErr_def
        split: prod.splits run.splits)
qed

text \<open>C32: Given a command line of flags, written as -name=value, -name value or -name, with one dash
  or two, and the name of a file that holds documents separated by lines of three dashes, where no
  line of a document is such a line, has 64 KiB or more or ends with a carriage return, the command
  sets each variable to the last value given for its flag (to its default if none is) and handles
  exactly the documents of that file, in order and numbered from 0; it stops with exit code 1 at the
  first that fails and ends normally otherwise.\<close>

theorem duh_handles_documents:
  assumes "effects duh_flags settings default_config = Some c"
    and "operands args = Some (name # others)"
    and "ce_Open env name = Inr file" and "src_err file = EOF"
    and "docs \<noteq> []" and "\<forall>d \<in> set docs. doc_ok d"
    and "src_content file = doc_bytes (join_docs docs)"
  shows "main_duh env (concat (map render settings) @ args) st =
    (case run_docs env (c\<lparr>cfg_FileName := name\<rparr>) (map doc_bytes docs) 0 st of
       (Exit n, st') \<Rightarrow> (Exit 1, st')
     | (Return_run _, s', out) \<Rightarrow> (Return_run (), s', out @ [Stdout [CHR 0x0A]]))"
  unfolding main_duh_flags [OF assms(1,2)] main_file_documents [OF assms(3-7)]
  by (auto dest: run_docs_Exit split: prod.splits run.splits)

text \<open>A file of two documents and a server that answers every request with 200.\<close>

definition sample_docs :: "bytes list list" where
  "sample_docs = [[bytes_of_string ''a''], [bytes_of_string ''b'']]"

definition sample_file :: source where
  "sample_file = sample_source (doc_bytes (join_docs sample_docs))"

definition sample_cmd :: "(string, nat) cmd_env" where
  "sample_cmd =
     \<lparr>ce_Unmarshal = (\<lambda>b. Inr [''api'' \<mapsto> ''/v1/x'', ''resource'' \<mapsto> string_of_bytes b]),
      ce_MarshalIndent = (\<lambda>_. Inr []), ce_Marshal = (\<lambda>v. Inr (bytes_of_string v)),
      ce_as_string = Some, ce_format = (\<lambda>v. v), ce_unmarshal_reply = sample_unmarshal_reply,
      ce_ParseDuration = (\<lambda>_. Inr 10), ce_unicode = sample_unicode,
      ce_NewRequest = (\<lambda>method url b. Inr (sample_request Map.empty b)),
      ce_Do = (\<lambda>timeout r n. (Inr (sample_response 200 ContentTypeJSON []), n + 1)),
      ce_Open = (\<lambda>_. Inr sample_file)\<rparr>"

definition sample_config :: config where
  "sample_config = \<lparr>cfg_FileName = [], cfg_Address = ''localhost:8080'', cfg_Timeout = ''10s'', cfg_Verbose = False\<rparr>"

lemma sample_docs_ok: "\<forall>d \<in> set sample_docs. doc_ok d"
  by (simp add: sample_docs_def doc_ok_def plain_line_def newline_def separator_def MaxScanTokenSize_def
      bytes_of_string_def)

lemma sample_run_docs:
  "run_docs sample_cmd (sample_config\<lparr>cfg_FileName := ''f''\<rparr>) (map doc_bytes sample_docs) 0 (0, []) =
    (Return_run (), 2, [ok_line 0, ok_line 1])"
  by (simp add: sample_docs_def doc_bytes_def newline_def process_def must_def process_object_def deliver_def
      sendRequest_def checkErr_def sample_cmd_def sample_config_def sample_response_def TrimSpace_def
      bytes_of_string_def string_of_bytes_def is_ascii_def trim_def is_space_def Let_def CodeOK_def ok_line_def)

theorem duh_handles_documents_witness:
  "main_duh sample_cmd [''--timeout'', ''5s'', ''--address=localhost:8080'', ''-timeout=10s'', ''f''] (0, []) =
    (Return_run (), 2, [ok_line 0, ok_line 1, Stdout [CHR 0x0A]])"
proof -
  let ?ss = "[Separate2 ''timeout'' ''5s'', Joined2 ''address'' ''localhost:8080'', Joined ''timeout'' ''10s'']"
  have "effects duh_flags ?ss default_config = Some sample_config"
    by (simp add: duh_flags_def StringVar_def BoolVar_def NewFlagSet_def assign_def assign_next_def lookup_flag_def
        default_config_def sample_config_def)
  moreover have "operands [''f''] = Some [''f'']" by (simp add: operands_def)
  ultimately have "main_duh sample_cmd (concat (map render ?ss) @ [''f'']) (0, []) =
    (case run_docs sample_cmd (sample_config\<lparr>cfg_FileName := ''f''\<rparr>) (map doc_bytes sample_docs) 0 (0, []) of
       (Exit n, st') \<Rightarrow> (Exit 1, st')
     | (Return_run _, s', out) \<Rightarrow> (Return_run (), s', out @ [Stdout [CHR 0x0A]]))"
    by (rule duh_handles_documents [of _ _ _ _ _ _ sample_file])
      (simp_all add: sample_docs_ok, simp_all add: sample_cmd_def sample_file_def sample_docs_def)
  then show ?thesis by (simp add: sample_run_docs)
qed

text \<open>When the command ends normally the file was scanned to its end and an OK line was printed
  for every document that is not blank.\<close>

theorem duh_success_is_complete:
  assumes "ce_Open env name = Inr file"
    and "main_file env c (name # args) st = (Return_run (), s', out)"
  shows "snd (scan_lines (src_content file) (src_err file)) = None \<and>
    (\<forall>i < length (documents (fst (scan_lines (src_content file) (src_err file)))).
      blank env (documents (fst (scan_lines (src_content file) (src_err file))) ! i) \<or>
      ok_line (int i) \<in> set out)"
proof -
  obtain ls err where sc: "scan_lines (src_content file) (src_err file) = (ls, err)"
    by (cases "scan_lines (src_content file) (src_err file)")
  obtain r st1 where run: "run_docs env (c\<lparr>cfg_FileName := name\<rparr>) (documents ls) 0 st = (r, st1)"
    by (cases "run_docs env (c\<lparr>cfg_FileName := name\<rparr>) (documents ls) 0 st")
  have "err = None" "r = Return_run ()" "out = snd st1 @ [Stdout [CHR 0x0A]]"
    using assms sc run
    by (auto simp: main_file_def must_def Let_def main_loop_documents checkErr_def
        split: prod.splits run.splits option.splits)
  with run_docs_out [OF run] sc show ?thesis by auto
qed

definition sample_cmd_one :: "(string, nat) cmd_env" where
  "sample_cmd_one = sample_cmd\<lparr>ce_Open := (\<lambda>_. Inr (sample_source [97]))\<rparr>"

lemma sample_one_line: "scan_lines [97] EOF = ([[97]], None)"
  by (subst scan_lines_last) (simp_all add: newline_def MaxScanTokenSize_def dropCR_def read_result_def)

lemma sample_one_run:
  "main_file sample_cmd_one sample_config [''f''] (0, []) = (Return_run (), 1, [ok_line 0, Stdout [CHR 0x0A]])"
  by (simp add: main_file_def sample_one_line newline_def separator_def process_def must_def process_object_def
      deliver_def sendRequest_def checkErr_def sample_cmd_one_def sample_cmd_def sample_config_def
      TrimSpace_def bytes_of_string_def string_of_bytes_def is_ascii_def trim_def is_space_def Let_def
      CodeOK_def ok_line_def)

theorem duh_success_is_complete_witness:
  "snd (scan_lines [97] EOF) = None \<and>
    (blank sample_cmd_one (documents [[97]] ! 0) \<or> ok_line 0 \<in> set [ok_line 0, Stdout [CHR 0x0A]])"
proof -
  have "ce_Open sample_cmd_one ''f'' = Inr (sample_source [97])" by (simp add: sample_cmd_one_def)
  moreover have "0 < length (documents [[97]])" by (simp add: documents_def)
  ultimately show ?thesis
    using duh_success_is_complete [OF _ sample_one_run, of "sample_source [97]"] by (simp add: sample_one_line)
qed

text \<open>A flag that is not defined ends the command before anything is sent, whatever flags are before and
  arguments after it: with the usage and exit code 0 if it asks for help, and otherwise with a
  message, the usage and exit code 2. Without a file name the exit code is 1.\<close>

theorem duh_refuses_undefined:
  assumes "effects duh_flags settings default_config = Some c"
    and "plain_name n" and "lookup_flag duh_flags n = None"
  shows "main_duh env (concat (map render settings) @ (CHR ''-'' # n) # args) st =
    (if n = ''help'' \<or> n = ''h'' then (Exit 0, fst st, snd st @ [defaultUsage duh_flags])
     else (Exit 2, fst st, snd st @
       [Stderr (''flag provided but not defined: -%s'' @ [CHR 0x0A]) [n], defaultUsage duh_flags]))"
  using parse_args_refused [OF duh_flags_plain _ parseOne_undefined [OF assms(2)], of settings c args] assms(1,3)
  by (simp add: main_duh_def Parse_def)

theorem duh_needs_a_file:
  assumes "effects duh_flags settings default_config = Some c"
  shows "main_duh env (concat (map render settings)) st =
    (Exit 1, fst st, snd st @ [Logged ''path to yaml file is required'', defaultUsage duh_flags])"
  using main_duh_flags [OF assms, of "[]" "[]"] by (simp add: operands_def main_file_def)

section \<open>The command demo\<close>

text \<open>The demo serves at the address given on its command line, or at localhost:8080; on a signal it
  shuts the server down, and ends normally exactly if the shutdown succeeds. A server that fails
  for a reason other than its being closed ends the command with exit code 1 at any time.\<close>

theorem demo_lifecycle:
  assumes "effects demo_flags settings (fs_config demo_flags) = Some c" and "operands args = Some rest"
    and "list_all harmless before" and "list_all (\<lambda>ev. harmless ev \<or> ev = Signalled) during"
    and "out = snd st @ listening_logs (dc_Address c) before @
      [Logged ''Shutting down the service...''] @ listening_logs (dc_Address c) during"
  shows "main_demo (concat (map render settings) @ args) (before @ Signalled # during @ ShutDown err # evs) st =
    Some (case err of
        None \<Rightarrow> (Return_run (), fst st, out @ [Logged ''Service shutdown complete''])
      | Some e \<Rightarrow> (Exit 1, fst st, out @ [Stderr (''during service shutdown: '' @ Error e @ [CHR 0x0A]) []]))"
    and "\<not> Is_err e ErrServerClosed \<Longrightarrow>
      main_demo (concat (map render settings) @ args) (before @ Served (Some e) # evs) st =
      Some (Exit 1, fst st, snd st @ listening_logs (dc_Address c) before @
        [Stderr (''ListenAndServe(): %v'' @ [CHR 0x0A]) [Error e]])"
  using assms(3-5)
  by (simp_all add: main_demo_def Parse_render [OF demo_flags_plain assms(1,2)] demo_wait_harmless
      demo_wait_stopping demo_checkErr_def demo_fail_def split: option.splits)

end
