(* ===== verification/Spec2Isabelle.thy ===== *)
theory Spec2Isabelle
  imports Wire_Properties Service_Properties Clock_Properties Test_Properties Retry_Properties Tls_Properties Tools_Properties
begin

text \<open>
  \<^bold>\<open>A verification of duh.go\<close>

  duh.go is a small RPC library over HTTP: a service replies with a message or with an error in
  the standard form of a \<open>Reply\<close>, a client tells service errors from infrastructure errors,
  streams are sequences of frames with heartbeats, failed calls are retried by a policy and
  paginated results are iterated. This development models the library, its demo service, its
  test service and its tools from the sources and proves what makes them correct. The code is Go; each operation is a
  HOL function with the source's name where HOL allows it.

  \<^bold>\<open>How the code is modelled\<close>

  \<^item> Structs are records, error values are the datatype \<open>error\<close> with its chain of wrapped errors,
    \<open>int64\<close>, \<open>uint32\<close> and bytes are words, so that wrap-around is the machine's; codes, lengths
    and durations that cannot overflow are integers. \<open>float64\<close> is a rational or infinite or NaN
    with rounding to 53 bits (\<^verbatim>\<open>Go_Float\<close>).
  \<^item> A function that can fail returns a sum, \<open>Inl\<close> the error. State is passed explicitly. A loop
    that may run for ever is a \<open>partial_function (option)\<close>: \<open>None\<close> means that it does not return,
    and that an operation returns is proved as a property.
  \<^item> Goroutines are step functions on a shared state, cut where the other one can run; a run is any
    path of the step relation.
  \<^item> Code outside the repository is an argument: the protobuf and JSON codecs and Unicode tables
    (record \<open>lib\<close>), the HTTP transport, \<open>math.Pow\<close> and \<open>ParseFloat\<close> (\<open>float_lib\<close>), the world of the
    retry loop (\<open>world\<close>), cryptography, files and \<open>set.Default\<close> (\<open>tls_env\<close>), YAML and the file
    system (\<open>cmd_env\<close>). The properties state what they need of them as hypotheses, and their
    witnesses give concrete instances.

  \<^bold>\<open>The theories\<close>

  \<^item> \<^verbatim>\<open>Prelude\<close>: machine types, conversions, rule collections, the locale \<open>inductive_invariant\<close>
    (a predicate kept by every step holds in every reachable state), which every concurrent
    component interprets: the stream, its timed runs, the content store and the log adaptor. \<^verbatim>\<open>Go_Strings\<close>, \<^verbatim>\<open>Go_Float\<close>: the parts of the standard library that are used,
    with \<open>TrimSuffix\<close> and \<open>normalizeMediaType\<close> of service.go.
  \<^item> \<^verbatim>\<open>Byte_Units\<close>, \<^verbatim>\<open>Limit_Reader\<close> (reader.go): sizes, \<open>bytesToSI\<close>, the limit reader.
    \<^verbatim>\<open>Errors\<close> (errors.go): codes, \<open>serviceError\<close>, \<open>ClientError\<close>, the interface \<open>duh.Error\<close>.
  \<^item> \<^verbatim>\<open>Go_IO\<close>: readers and writers; the locales \<open>io_reader\<close> and \<open>io_writer\<close> state the contracts of
    package io, and the frame codec, the limit reader and bodies interpret them; \<open>traced_reader\<close>
    carries a relation along the reads of a loop. \<^verbatim>\<open>Frames\<close>
    (stream/stream.go): \<open>WriteFrame\<close> and \<open>ReadFrame\<close>, and the wire format as a specification.
  \<^item> \<^verbatim>\<open>Http\<close>: headers, requests, responses and the response writer. \<^verbatim>\<open>Service\<close> (service.go):
    \<open>ReadRequest\<close>, \<open>ReadContent\<close>, \<open>Reply\<close> and its variants, \<open>HandleBytes\<close>. \<^verbatim>\<open>Client\<close> (client.go): \<open>Do\<close>,
    \<open>DoStream\<close>, \<open>DoBytes\<close>, \<open>DoContent\<close>, the classification of error responses and the package's
    clients.
  \<^item> \<^verbatim>\<open>Stream_Server\<close>, \<^verbatim>\<open>Stream_Client\<close> (streaming.go): \<open>HandleStream\<close> with the request and the
    heartbeat goroutine, and \<open>Recv\<close>. \<open>plan\<close> is the sequence of frames a handler asks for,
    \<open>recv_stream\<close> what a sequence of frames means to a receiver; the locale \<open>stream_call\<close> states
    what a call of \<open>Recv\<close> does at each kind of frame, and both models of \<open>Recv\<close> interpret it.
    \<^verbatim>\<open>Stream_Run\<close> proves the invariants of all interleavings, \<^verbatim>\<open>Stream_Link\<close> connects both ends.
  \<^item> \<^verbatim>\<open>Stream_Timeout\<close>, \<^verbatim>\<open>Stream_Clock\<close> (streaming.go, in time): \<open>Recv\<close> with its heartbeat timer on a
    body whose chunks have times of arrival; the goroutines of \<open>HandleStream\<close> between the ticks of
    the ticker, where a goroutine that can go on does so before time passes, the handler's own
    code takes any time, and writing and flushing a frame take at most \<open>W\<close>.
  \<^item> \<^verbatim>\<open>Retry\<close> (retry/retry.go, policies.go), \<^verbatim>\<open>Pagination\<close> (pagination.go), \<^verbatim>\<open>Demo\<close> (demo/service.go,
    demo/handler.go, demo/client.go), \<^verbatim>\<open>Demo_Store\<close> (demo/service.go: the content store under
    concurrent calls, cut at lock, access and unlock). \<^verbatim>\<open>Test_Service\<close> (internal/test).
  \<^item> \<^verbatim>\<open>Net_Addr\<close>, \<^verbatim>\<open>Tls\<close> (tls.go): the host's addresses; \<open>SetupTLS\<close>, \<open>selfCA\<close>, \<open>selfCert\<close> as procedures
    on the caller's configuration, with a small logic (\<open>safe\<close>) for them. \<^verbatim>\<open>Scanner\<close>, \<^verbatim>\<open>Log_Adaptor\<close>
    (log.go): scanning lines; the caller, the pipe and the goroutine. \<^verbatim>\<open>Wait\<close> (wait.go).
    \<^verbatim>\<open>Flag_Set\<close>: what the commands use of package flag. \<^verbatim>\<open>Cmd_Duh\<close> (cmd/duh/main.go), \<^verbatim>\<open>Cmd_Demo\<close>
    (cmd/demo/main.go).
  \<^item> \<^verbatim>\<open>Sample\<close> and the definitions named \<open>sample_...\<close>: instances used by the witnesses only.

  \<^bold>\<open>The properties\<close>

  \<^item> \<^verbatim>\<open>Wire_Properties\<close>: writing frames and reading them back, any reader and writer; truncated and
    oversized frames, failed writes, the length field's wrap-around.
  \<^item> \<^verbatim>\<open>Service_Properties\<close>: what reading a request gives within and over the limit, that reading
    returns and closes the body, the response \<open>Reply\<close> commits, \<open>HandleBytes\<close>, the limit's
    off-by-one and overflow.
  \<^item> \<^verbatim>\<open>Client_Properties\<close>: replies, errors and content reach the client as sent; the classification
    of error responses; the type of every error of a call; that calls return and close the body.
  \<^item> \<^verbatim>\<open>Stream_Properties\<close>: in every interleaving the response refines the handler's plan, frames are
    never interleaved, a terminal frame is the last, the heartbeat goroutine is joined and the
    stream terminates; the receiver refines the meaning of the frames; messages and errors arrive
    end to end.
  \<^item> \<^verbatim>\<open>Timeout_Properties\<close>, \<^verbatim>\<open>Clock_Properties\<close>: a stream whose frames keep coming is received as if
    there were no timer, a silent one is given up when the timer fires, no call waits longer than
    its timeouts allow; the server's frames are never further apart than its interval and the
    time of its writes, so that heartbeats keep a stream alive if the client's timeout is longer
    than that and the delay of the connection.
  \<^item> \<^verbatim>\<open>Retry_Properties\<close>, and below: exponential delays up to the maximum, attempts bounded, success
    reached; pagination; which responses are retried and when.
  \<^item> \<^verbatim>\<open>Demo_Properties\<close>, \<^verbatim>\<open>Test_Properties\<close>: a greeting, streams with each of their endings and failures of
    each kind through the whole stack; uploaded content is served; concurrent calls of the content
    store are linearizable and complete.
  \<^item> \<^verbatim>\<open>Tls_Properties\<close>, \<^verbatim>\<open>Tools_Properties\<close>: no nil dereference and a complete configuration or the
    first file's error; the addresses of a generated certificate; log lines in every interleaving;
    waiting for a server; the command lines and the documents of the commands.

  \<^bold>\<open>Fuel and bounds\<close>

  The callers' loops are written with a count: \<open>recv_all\<close>, \<open>read_frames\<close> and \<open>collect\<close> stop after
  that many turns, \<open>recv_calls\<close> makes one call for every entry of a list of pauses. The theorems
  ask for more turns than there are frames, or pages, and give the complete result, so no count
  cuts a run short. \<open>pixel_loop\<close> counts to 1000 as the code does. \<open>run_main\<close> and \<open>clock_run\<close> only
  build the runs of witnesses. Times are natural numbers of nanoseconds; \<open>W\<close> and the delay \<open>D\<close> of
  \<open>Clock_Properties\<close> are arbitrary.

  \<^bold>\<open>Not modelled\<close>

  Generated protobuf code and the encodings themselves, which are parameters; the accessor
  \<open>Context\<close> of a stream writer, interface and import declarations. Other than in the theories on
  time, a ticker may fire at any moment and a timeout is seen as the context's error.

  Some behaviours of what surrounds the code are outside the model, and the properties make no
  claim about them:

  \<^item> A body (\<open>source\<close>, \<open>timed_body\<close>) delivers finitely many chunks and ends, with \<open>io.EOF\<close> or any other
    error, and a stream handler (\<open>stream_prog\<close>) makes finitely many calls. \<open>Do\<close>, \<open>DoContent\<close> and, on
    endless heartbeats, \<open>Recv\<close> read without a limit, so a body that never ends keeps them from
    returning; that calls return is proved for bodies that end.
  \<^item> The response writer leaves out net/http's panic on a status below 100 or above 999 and its
    refusal of a body under the statuses 204 and 304.
  \<^item> In \<^verbatim>\<open>Demo_Store\<close> an access to the map is one step; in \<^verbatim>\<open>Stream_Clock\<close> marshalling and writing a
    header take no time of their own, and the time noted of a frame is that of its write, not of its
    flush; the log adaptor has one caller that makes its calls in sequence.
  \<^item> Closing the accepted connection in \<open>WaitForConnect\<close> and the response body in \<open>sendRequest\<close> of
    cmd/duh has no effect in the model.

  Where the code and the documents disagree (docs/spec.md, docs/streaming.md, comments), the
  properties keep to the cases on which they agree. They make no claim about frames with unknown flags, error responses without a reply and version header whose status is not 404 or
  5xx, undecodable replies of a service, infrastructure statuses outside the retried ones, the default
  of \<open>MinVersion\<close> and TLS configurations of which the caller gives one.
\<close>

section \<open>The client's errors and the retry policy\<close>

text \<open>C17: Under the policy OnRetryable a complete response of the service, one with the version
  header and a reply as its body, is retried exactly when its status is 429, 454 or 500; and a
  complete response of the infrastructure, one without that header and without a reply, is
  retried when its status is 404, 502, 503 or 504. So a service's own 404 is final, the 404 of a
  proxy is not.\<close>

theorem retry_decision:
  assumes "src_err (resp_body resp) = EOF"
    and "service_reply lib resp reply \<or>
      infra_response lib resp \<and> resp_StatusCode resp \<in> {404, 502, 503, 504}"
  shows "\<exists>err s. handleErrorResponse lib req resp = Some (err, s) \<and>
    (shouldRetry err OnRetryable \<longleftrightarrow>
      (service_reply lib resp reply \<longrightarrow> resp_StatusCode resp \<in> {429, 454, 500}))"
proof -
  let ?err = "classify_response lib req resp (src_content (resp_body resp))"
  note policy = shouldRetry_def OnRetryable_def RetryableCodes_def RetryableInfraCodes_def code_defs
  have "service_reply lib resp reply \<Longrightarrow> shouldRetry ?err OnRetryable \<longleftrightarrow> resp_StatusCode resp \<in> {429, 454, 500}"
    by (simp add: classify_service NewReplyError_def Let_def policy)
  moreover have "infra_response lib resp \<Longrightarrow> resp_StatusCode resp \<in> {404, 502, 503, 504} \<Longrightarrow> shouldRetry ?err OnRetryable"
    by (auto simp: classify_infra NewInfraError_def policy)
  moreover have "service_reply lib resp reply \<Longrightarrow> \<not> infra_response lib resp"
    by (simp add: service_reply_def infra_response_def)
  ultimately show ?thesis using handleErrorResponse_eq [of lib req resp] assms by auto
qed

theorem retry_decision_witness:
  "(\<exists>err s. handleErrorResponse sample_lib (sample_request Map.empty []) (sample_proxy 404 [97]) = Some (err, s) \<and>
      shouldRetry err OnRetryable) \<and>
   (\<exists>err s. handleErrorResponse sample_lib (sample_request Map.empty [])
      (sample_response 404 ContentTypeJSON [52, 48, 52, 0]) = Some (err, s) \<and>
      \<not> shouldRetry err OnRetryable)"
proof -
  let ?reply = "\<lparr>r_code = string_of_bytes [52, 48, 52], r_message = [], r_details = None\<rparr>"
  let ?resp = "sample_response 404 ContentTypeJSON [52, 48, 52, 0]"
  have "service_reply sample_lib ?resp ?reply"
    by (simp add: service_reply_def sample_unmarshal_reply_def DUHVersion_def Let_def)
  moreover have "\<not> service_reply sample_lib (sample_proxy 404 [97]) ?reply"
    using sample_proxy_infra [of 404 "[97]"] by (simp add: service_reply_def infra_response_def)
  ultimately show ?thesis
    using retry_decision [of "sample_proxy 404 [97]" sample_lib ?reply "sample_request Map.empty []"]
      retry_decision [of ?resp sample_lib ?reply "sample_request Map.empty []"]
      sample_proxy_infra [of 404 "[97]"]
    by (simp add: sample_proxy_def)
qed

text \<open>C27: A service that answers 429 with a Retry-After of n seconds, 0 < n < 9,000,000, and a
  reply without a ratelimit-reset detail makes the retry loop wait exactly n seconds: Do returns
  an error with which an attempt under OnRetryable goes, whatever the policy's interval, to a
  wait of n seconds and then to the next attempt, or to the context's error if that ends first.\<close>

theorem retry_after_honoured:
  assumes "tr req = Inr resp" and "resp_StatusCode resp = CodeTooManyRequests"
    and "src_err (resp_body resp) = EOF"
    and "unmarshalForMediaType lib (hget (resp_header resp) ''Content-Type'') = Some c"
    and "unmarshal_reply c (src_content (resp_body resp)) = Inr reply"
    and "\<forall>m. r_details reply = Some m \<longrightarrow> m detailRateLimitReset = None"
    and "hget (resp_header resp) ''Retry-After'' = v" and "v \<noteq> []"
    and "fl_ParseFloat fl v = Inr (Fin (of_int n))" and "0 < n" and "n < 9000000"
  shows "\<exists>err b d. Do lib tr req = Some (Inl err, b) \<and> sint d = n * Second \<and>
    (\<forall>op attempt s s1. ctx_Err w s = None \<and> op attempt s = (Some err, s1) \<longrightarrow>
       On_loop fl w OnRetryable iv op attempt s =
         (case await w d s1 of (fired, s3) \<Rightarrow>
            if fired then On_loop fl w OnRetryable iv op (attempt + 1) s3 else Some (ctx_Err w s3, s3)))"
proof -
  have cls: "classify_response lib req resp (src_content (resp_body resp)) = NewReplyError req resp reply"
    using assms(4,5) by (simp add: classify_response_def)
  obtain d where d: "NewReplyError req resp reply =
      ClientErr (ClientError (Some d) (r_message reply) None False (r_code reply) CodeTooManyRequests)"
    "d detailRateLimitReset = None" "d detailRetryAfter = Some v"
    using assms(2,6-8)
    by (auto simp: NewReplyError_def Let_def detail_keys detailRateLimitReset_def detailRetryAfter_def
        map_add_def split: option.splits)
  let ?err = "NewReplyError req resp reply"
  have dur: "sint (rateLimitDuration fl ?err) = n * Second"
    using first_duration_seconds [where details = d and key = detailRetryAfter and keys = "[]",
        OF d(3) assms(9-11)] d(1,2)
    by (simp add: rateLimitDuration_def)
  then have "rateLimitDuration fl ?err \<noteq> 0" using assms(10) by (auto simp: Second_def)
  then have sleep: "sleep_duration fl w iv ?err attempt s1 = (rateLimitDuration fl ?err, s1)" for attempt s1
    by (simp add: sleep_duration_def Let_def)
  have "shouldRetry ?err OnRetryable" "p_Attempts OnRetryable = 0"
    unfolding d(1) by (simp_all add: shouldRetry_def OnRetryable_def RetryableCodes_def)
  then have "On_loop fl w OnRetryable iv op attempt s =
      (case await w (rateLimitDuration fl ?err) s1 of (fired, s3) \<Rightarrow>
         if fired then On_loop fl w OnRetryable iv op (attempt + 1) s3 else Some (ctx_Err w s3, s3))"
    if "ctx_Err w s = None" "op attempt s = (Some ?err, s1)" for op attempt s s1
    using that sleep by (simp add: On_loop.simps [of _ _ _ _ _ attempt s])
  moreover have "\<exists>b. Do lib tr req = Some (Inl ?err, b)"
    using handleErrorResponse_eq [of lib req resp] assms(1-3) cls by (auto simp: Do_def code_defs)
  ultimately show ?thesis using dur by blast
qed

theorem retry_after_honoured_witness:
  "\<exists>err b d. Do sample_lib (\<lambda>_. Inr ((sample_response 429 ContentTypeJSON [52, 0])
      \<lparr>resp_header := hset (hset Map.empty ''Content-Type'' ContentTypeJSON) ''Retry-After'' ''3''\<rparr>))
      (sample_request Map.empty []) = Some (Inl err, b) \<and> sint (d :: duration) = 3 * Second \<and>
    On_loop sample_floats calm_world OnRetryable (IBackOff DefaultBackOff)
      (\<lambda>a s. (if a = 1 then Some err else None, s)) 1 () = Some (None, ())"
proof -
  let ?resp = "(sample_response 429 ContentTypeJSON [52, 0])
      \<lparr>resp_header := hset (hset Map.empty ''Content-Type'' ContentTypeJSON) ''Retry-After'' ''3''\<rparr>"
  have "\<exists>err b d. Do sample_lib (\<lambda>_. Inr ?resp) (sample_request Map.empty []) = Some (Inl err, b) \<and> sint d = 3 * Second \<and>
    (\<forall>op attempt s s1. ctx_Err calm_world s = None \<and> op attempt s = (Some err, s1) \<longrightarrow>
       On_loop sample_floats calm_world OnRetryable (IBackOff DefaultBackOff) op attempt s =
         (case await calm_world d s1 of (fired, s3) \<Rightarrow>
            if fired then On_loop sample_floats calm_world OnRetryable (IBackOff DefaultBackOff) op (attempt + 1) s3
            else Some (ctx_Err calm_world s3, s3)))"
    by (rule retry_after_honoured [of _ _ ?resp _ sample_codec
          "\<lparr>r_code = string_of_bytes [52], r_message = [], r_details = None\<rparr>" "''3''" _ 3])
      (simp_all add: sample_unmarshal_reply_def sample_floats_def code_defs http_simps)
  then obtain err b d where e: "Do sample_lib (\<lambda>_. Inr ?resp) (sample_request Map.empty []) = Some (Inl err, b)"
    "sint d = 3 * Second" and loop: "\<And>op attempt s s1. ctx_Err calm_world s = None \<and> op attempt s = (Some err, s1) \<Longrightarrow>
       On_loop sample_floats calm_world OnRetryable (IBackOff DefaultBackOff) op attempt s =
         (case await calm_world d s1 of (fired, s3) \<Rightarrow>
            if fired then On_loop sample_floats calm_world OnRetryable (IBackOff DefaultBackOff) op (attempt + 1) s3
            else Some (ctx_Err calm_world s3, s3))"
    by blast
  let ?op = "\<lambda>a s. (if a = 1 then Some err else None, s)"
  have "On_loop sample_floats calm_world OnRetryable (IBackOff DefaultBackOff) ?op 2 () = Some (None, ())"
    by (subst On_loop.simps) (simp add: calm_world_def)
  with loop [of "()" ?op 1 "()"] have
    "On_loop sample_floats calm_world OnRetryable (IBackOff DefaultBackOff) ?op 1 () = Some (None, ())"
    by (simp add: calm_world_def)
  with e show ?thesis by blast
qed

end
